theory Spec2Isabelle
  imports Main "HOL-Library.Sublist"
begin

section \<open>JavaScript strings\<close>

text \<open>
  A JavaScript string is a sequence of UTF-16 code units; every index, length and
  \<open>substring\<close> bound of \<open>src/index.js\<close> counts code units. A code unit is modelled
  as a natural number and a string as a list of them. \<open>asc\<close> turns an ASCII literal
  into such a list.
\<close>

type_synonym jschar = nat
type_synonym jsstring = "nat list"

definition asc :: "string \<Rightarrow> jsstring" where
  "asc s = map of_char s"

abbreviation dquote :: jschar where "dquote \<equiv> 34"
abbreviation squote :: jschar where "squote \<equiv> 39"
abbreviation backslash :: jschar where "backslash \<equiv> 92"
abbreviation lbrace :: jschar where "lbrace \<equiv> 123"
abbreviation rbrace :: jschar where "rbrace \<equiv> 125"
abbreviation rbracket :: jschar where "rbracket \<equiv> 93"
abbreviation dollar :: jschar where "dollar \<equiv> 36"

text \<open>\<open>String.prototype.indexOf(pat, from)\<close>: the least position \<open>k \<ge> from\<close> at which
  \<open>pat\<close> starts; \<open>None\<close> stands for \<open>-1\<close>.\<close>

fun indexOf_aux :: "jsstring \<Rightarrow> jsstring \<Rightarrow> nat \<Rightarrow> nat option" where
  "indexOf_aux pat [] k = (if pat = [] then Some k else None)"
| "indexOf_aux pat (c # cs) k =
     (if prefix pat (c # cs) then Some k else indexOf_aux pat cs (Suc k))"

definition indexOf :: "jsstring \<Rightarrow> jsstring \<Rightarrow> nat \<Rightarrow> nat option" where
  "indexOf s pat from = indexOf_aux pat (drop from s) (min from (length s))"

text \<open>\<open>String.prototype.lastIndexOf(pat, from)\<close>: the greatest position \<open>k \<le> from\<close> at
  which \<open>pat\<close> starts, found here in one pass from the left that keeps the last match.\<close>

fun lastIndexOf_aux :: "jsstring \<Rightarrow> jsstring \<Rightarrow> nat \<Rightarrow> nat \<Rightarrow> nat option \<Rightarrow> nat option" where
  "lastIndexOf_aux pat [] k from best = (if pat = [] \<and> k \<le> from then Some k else best)"
| "lastIndexOf_aux pat (c # cs) k from best =
     (if from < k then best
      else lastIndexOf_aux pat cs (Suc k) from (if prefix pat (c # cs) then Some k else best))"

definition lastIndexOf :: "jsstring \<Rightarrow> jsstring \<Rightarrow> nat \<Rightarrow> nat option" where
  "lastIndexOf s pat from = lastIndexOf_aux pat s 0 from None"

text \<open>\<open>String.prototype.substring(a, b)\<close>: both bounds are clamped to the length and
  swapped when \<open>a > b\<close>.\<close>

definition substring :: "jsstring \<Rightarrow> nat \<Rightarrow> nat \<Rightarrow> jsstring" where
  "substring s a b =
     (let a' = min a (length s); b' = min b (length s)
      in take (max a' b' - min a' b') (drop (min a' b') s))"

definition str_includes :: "jsstring \<Rightarrow> jsstring \<Rightarrow> bool" where
  "str_includes s pat = (indexOf s pat 0 \<noteq> None)"

definition startsWith :: "jsstring \<Rightarrow> jsstring \<Rightarrow> bool" where
  "startsWith s pat = prefix pat s"

section \<open>The brace scan of parseImageTags\<close>

text \<open>
  Lines 782-816 (the \<open>data-iig-instruction\<close> format) and lines 906-940 (the
  \<open>[IMG:GEN:\<close> format) of \<open>src/index.js\<close> are the same loop:

  \<^verbatim>\<open>
  let braceCount = 0; let jsonEnd = -1; let inString = false; let escapeNext = false;
  for (let i = jsonStart; i < text.length; i++) {
      const char = text[i];
      if (escapeNext) { escapeNext = false; continue; }
      if (char === '\\' && inString) { escapeNext = true; continue; }
      if (char === '"') { inString = !inString; continue; }
      if (!inString) {
          if (char === '{') { braceCount++; }
          else if (char === '}') { braceCount--; if (braceCount === 0) { jsonEnd = i + 1; break; } }
      }
  }
  \<close>

  \<open>scanBraces cs i braceCount inString escapeNext\<close> runs the loop on the code units
  \<open>cs\<close> that remain from index \<open>i\<close> on; the result is \<open>jsonEnd\<close>, \<open>None\<close> for \<open>-1\<close>.
\<close>

fun scanBraces :: "jsstring \<Rightarrow> nat \<Rightarrow> int \<Rightarrow> bool \<Rightarrow> bool \<Rightarrow> nat option" where
  "scanBraces [] i braceCount inString escapeNext = None"
| "scanBraces (c # cs) i braceCount inString escapeNext =
     (if escapeNext then scanBraces cs (Suc i) braceCount inString False
      else if c = backslash \<and> inString then scanBraces cs (Suc i) braceCount inString True
      else if c = dquote then scanBraces cs (Suc i) braceCount (\<not> inString) escapeNext
      else if \<not> inString then
        (if c = lbrace then scanBraces cs (Suc i) (braceCount + 1) inString escapeNext
         else if c = rbrace then
           (if braceCount - 1 = 0 then Some (Suc i)
            else scanBraces cs (Suc i) (braceCount - 1) inString escapeNext)
         else scanBraces cs (Suc i) braceCount inString escapeNext)
      else scanBraces cs (Suc i) braceCount inString escapeNext)"

definition findJsonEnd :: "jsstring \<Rightarrow> nat \<Rightarrow> nat option" where
  "findJsonEnd text jsonStart = scanBraces (drop jsonStart text) jsonStart 0 False False"

subsection \<open>What the scan is meant to do, in the words of the specification\<close>

text \<open>
  The specification reads the scanned text as code units outside any string and
  complete double-quoted string literals. Inside a literal a code unit is either plain
  (neither a double quote nor a backslash) or a backslash followed by any code unit.
\<close>

datatype item = Plain jschar | Escaped jschar

fun renderItem :: "item \<Rightarrow> jsstring" where
  "renderItem (Plain c) = [c]"
| "renderItem (Escaped c) = [backslash, c]"

definition renderItems :: "item list \<Rightarrow> jsstring" where
  "renderItems its = concat (map renderItem its)"

fun wf_item :: "item \<Rightarrow> bool" where
  "wf_item (Plain c) = (c \<noteq> dquote \<and> c \<noteq> backslash)"
| "wf_item (Escaped c) = True"

datatype seg = Out jschar | StrLit "item list"

fun renderSeg :: "seg \<Rightarrow> jsstring" where
  "renderSeg (Out c) = [c]"
| "renderSeg (StrLit its) = dquote # renderItems its @ [dquote]"

definition renderSegs :: "seg list \<Rightarrow> jsstring" where
  "renderSegs segs = concat (map renderSeg segs)"

fun wf_seg :: "seg \<Rightarrow> bool" where
  "wf_seg (Out c) = (c \<noteq> dquote)"
| "wf_seg (StrLit its) = list_all wf_item its"

text \<open>The brace depth after a run of segments: only braces outside string literals count.\<close>

fun segDepth :: "int \<Rightarrow> seg list \<Rightarrow> int" where
  "segDepth d [] = d"
| "segDepth d (Out c # segs) =
     segDepth (if c = lbrace then d + 1 else if c = rbrace then d - 1 else d) segs"
| "segDepth d (StrLit its # segs) = segDepth d segs"

text \<open>The specified end of the payload: one past the first closing brace outside a string
  literal that brings the depth back to zero. String literals are stepped over whole.\<close>

fun specScan :: "int \<Rightarrow> seg list \<Rightarrow> nat \<Rightarrow> nat option" where
  "specScan d [] k = None"
| "specScan d (StrLit its # segs) k = specScan d segs (k + length (renderSeg (StrLit its)))"
| "specScan d (Out c # segs) k =
     (if c = lbrace then specScan (d + 1) segs (Suc k)
      else if c = rbrace then (if d - 1 = 0 then Some (Suc k) else specScan (d - 1) segs (Suc k))
      else specScan d segs (Suc k))"

section \<open>JSON.parse\<close>

text \<open>
  \<open>JSON.parse\<close> is a built-in of the JavaScript engine, not code of this repository.
  It is modelled after the JSON grammar it implements (ECMA-404): the white space is
  tab, line feed, carriage return and space; a string is double-quoted, holds no raw
  code unit below 32, and knows the escapes \<open>\" \\ \/ \b \f \n \r \t \uXXXX\<close>; a number
  is \<open>-?(0|[1-9][0-9]*)(.[0-9]+)?([eE][+-]?[0-9]+)?\<close>; the literals are \<open>true\<close>,
  \<open>false\<close> and \<open>null\<close>. A parse error is an exception in JavaScript and \<open>None\<close> here.

  A number is kept as its exact decimal value \<open>m * 10 ^ e\<close>. Of an object the members
  are kept in source order; a later member with the same key wins in a lookup.
\<close>

datatype jsval =
    JNull
  | JBool bool
  | JNum int int
  | JStr jsstring
  | JArr "jsval list"
  | JObj "(jsstring \<times> jsval) list"

datatype frame =
    FArr "jsval list"
  | FObj "(jsstring \<times> jsval) list" "jsstring option"

datatype numst = NMinus | NZero | NInt | NDot | NFrac | NExpMark | NExpSign | NExp

text \<open>The number read so far: sign, the digits of the mantissa as a natural number, the
  count of digits after the point, sign of the exponent, the exponent.\<close>

record numacc =
  nneg :: bool
  ndigits :: nat
  nscale :: nat
  neneg :: bool
  nexp :: nat

datatype lit = LTrue | LFalse | LNull

fun litText :: "lit \<Rightarrow> jsstring" where
  "litText LTrue = asc ''true''"
| "litText LFalse = asc ''false''"
| "litText LNull = asc ''null''"

fun litVal :: "lit \<Rightarrow> jsval" where
  "litVal LTrue = JBool True"
| "litVal LFalse = JBool False"
| "litVal LNull = JNull"

text \<open>What the parser is reading: \<open>MStr\<close>, \<open>MEsc\<close> and \<open>MHex\<close> are inside a string (a
  key when the flag is set) with the code units read so far in reverse, \<open>MLit l n\<close> is
  after the first \<open>n\<close> letters of a literal.\<close>

datatype mode =
    MValue
  | MArrStart
  | MObjStart
  | MKey
  | MColon
  | MAfter
  | MStr bool jsstring
  | MEsc bool jsstring
  | MHex bool jsstring "nat list"
  | MNum numst numacc
  | MLit lit nat
  | MFail

datatype pstate = PS mode "frame list" "jsval option"

fun pmode :: "pstate \<Rightarrow> mode" where
  "pmode (PS m st r) = m"

abbreviation failed :: pstate where
  "failed \<equiv> PS MFail [] None"

definition isWs :: "jschar \<Rightarrow> bool" where
  "isWs c = (c = 9 \<or> c = 10 \<or> c = 13 \<or> c = 32)"

definition isDigit :: "jschar \<Rightarrow> bool" where
  "isDigit c = (48 \<le> c \<and> c \<le> 57)"

definition hexVal :: "jschar \<Rightarrow> nat option" where
  "hexVal c =
     (if 48 \<le> c \<and> c \<le> 57 then Some (c - 48)
      else if 65 \<le> c \<and> c \<le> 70 then Some (c - 55)
      else if 97 \<le> c \<and> c \<le> 102 then Some (c - 87)
      else None)"

text \<open>A complete value goes to the innermost open container, or is the result.\<close>

fun deliver :: "jsval \<Rightarrow> frame list \<Rightarrow> jsval option \<Rightarrow> pstate" where
  "deliver v [] r = PS MAfter [] (Some v)"
| "deliver v (FArr els # st) r = PS MAfter (FArr (v # els) # st) r"
| "deliver v (FObj ms (Some k) # st) r = PS MAfter (FObj ((k, v) # ms) None # st) r"
| "deliver v (FObj ms None # st) r = failed"

fun closeStr :: "bool \<Rightarrow> jsstring \<Rightarrow> frame list \<Rightarrow> jsval option \<Rightarrow> pstate" where
  "closeStr False acc st r = deliver (JStr (rev acc)) st r"
| "closeStr True acc (FObj ms _ # st) r = PS MColon (FObj ms (Some (rev acc)) # st) r"
| "closeStr True acc _ r = failed"

fun closeArr :: "frame list \<Rightarrow> jsval option \<Rightarrow> pstate" where
  "closeArr (FArr els # st) r = deliver (JArr (rev els)) st r"
| "closeArr _ r = failed"

fun closeObj :: "frame list \<Rightarrow> jsval option \<Rightarrow> pstate" where
  "closeObj (FObj ms None # st) r = deliver (JObj (rev ms)) st r"
| "closeObj _ r = failed"

definition numVal :: "numacc \<Rightarrow> jsval" where
  "numVal a = JNum (if nneg a then - int (ndigits a) else int (ndigits a))
                   ((if neneg a then - int (nexp a) else int (nexp a)) - int (nscale a))"

definition startValue :: "jschar \<Rightarrow> frame list \<Rightarrow> jsval option \<Rightarrow> pstate" where
  "startValue c st r =
     (if c = lbrace then PS MObjStart (FObj [] None # st) r
      else if c = 91 then PS MArrStart (FArr [] # st) r
      else if c = dquote then PS (MStr False []) st r
      else if c = 45 then PS (MNum NMinus \<lparr>nneg = True, ndigits = 0, nscale = 0, neneg = False, nexp = 0\<rparr>) st r
      else if c = 48 then PS (MNum NZero \<lparr>nneg = False, ndigits = 0, nscale = 0, neneg = False, nexp = 0\<rparr>) st r
      else if isDigit c then PS (MNum NInt \<lparr>nneg = False, ndigits = c - 48, nscale = 0, neneg = False, nexp = 0\<rparr>) st r
      else if c = 116 then PS (MLit LTrue 1) st r
      else if c = 102 then PS (MLit LFalse 1) st r
      else if c = 110 then PS (MLit LNull 1) st r
      else failed)"

text \<open>After a complete value: a comma, the closing bracket of the innermost container, or
  white space.\<close>

fun afterValue :: "jschar \<Rightarrow> frame list \<Rightarrow> jsval option \<Rightarrow> pstate" where
  "afterValue c [] r = (if isWs c then PS MAfter [] r else failed)"
| "afterValue c (FArr els # st) r =
     (if isWs c then PS MAfter (FArr els # st) r
      else if c = 44 then PS MValue (FArr els # st) r
      else if c = rbracket then closeArr (FArr els # st) r
      else failed)"
| "afterValue c (FObj ms k # st) r =
     (if isWs c then PS MAfter (FObj ms k # st) r
      else if c = 44 then PS MKey (FObj ms k # st) r
      else if c = rbrace then closeObj (FObj ms k # st) r
      else failed)"

text \<open>A number ends at the first code unit that cannot continue it; that code unit is then
  read as what follows a value.\<close>

definition endNum :: "numacc \<Rightarrow> jschar \<Rightarrow> frame list \<Rightarrow> jsval option \<Rightarrow> pstate" where
  "endNum a c st r =
     (case deliver (numVal a) st r of
        PS MAfter st' r' \<Rightarrow> afterValue c st' r'
      | _ \<Rightarrow> failed)"

definition isExpMark :: "jschar \<Rightarrow> bool" where
  "isExpMark c = (c = 101 \<or> c = 69)"

fun numStep :: "numst \<Rightarrow> numacc \<Rightarrow> jschar \<Rightarrow> frame list \<Rightarrow> jsval option \<Rightarrow> pstate" where
  "numStep NMinus a c st r =
     (if c = 48 then PS (MNum NZero a) st r
      else if isDigit c then PS (MNum NInt (a\<lparr>ndigits := c - 48\<rparr>)) st r
      else failed)"
| "numStep NZero a c st r =
     (if c = 46 then PS (MNum NDot a) st r
      else if isExpMark c then PS (MNum NExpMark a) st r
      else if isDigit c then failed
      else endNum a c st r)"
| "numStep NInt a c st r =
     (if isDigit c then PS (MNum NInt (a\<lparr>ndigits := ndigits a * 10 + (c - 48)\<rparr>)) st r
      else if c = 46 then PS (MNum NDot a) st r
      else if isExpMark c then PS (MNum NExpMark a) st r
      else endNum a c st r)"
| "numStep NDot a c st r =
     (if isDigit c
      then PS (MNum NFrac (a\<lparr>ndigits := ndigits a * 10 + (c - 48), nscale := nscale a + 1\<rparr>)) st r
      else failed)"
| "numStep NFrac a c st r =
     (if isDigit c
      then PS (MNum NFrac (a\<lparr>ndigits := ndigits a * 10 + (c - 48), nscale := nscale a + 1\<rparr>)) st r
      else if isExpMark c then PS (MNum NExpMark a) st r
      else endNum a c st r)"
| "numStep NExpMark a c st r =
     (if c = 43 then PS (MNum NExpSign a) st r
      else if c = 45 then PS (MNum NExpSign (a\<lparr>neneg := True\<rparr>)) st r
      else if isDigit c then PS (MNum NExp (a\<lparr>nexp := c - 48\<rparr>)) st r
      else failed)"
| "numStep NExpSign a c st r =
     (if isDigit c then PS (MNum NExp (a\<lparr>nexp := c - 48\<rparr>)) st r else failed)"
| "numStep NExp a c st r =
     (if isDigit c then PS (MNum NExp (a\<lparr>nexp := nexp a * 10 + (c - 48)\<rparr>)) st r
      else endNum a c st r)"

definition escChar :: "jschar \<Rightarrow> jschar option" where
  "escChar c =
     (if c = dquote then Some dquote
      else if c = backslash then Some backslash
      else if c = 47 then Some 47
      else if c = 98 then Some 8
      else if c = 102 then Some 12
      else if c = 110 then Some 10
      else if c = 114 then Some 13
      else if c = 116 then Some 9
      else None)"

fun jsonStep :: "pstate \<Rightarrow> jschar \<Rightarrow> pstate" where
  "jsonStep (PS MValue st r) c = (if isWs c then PS MValue st r else startValue c st r)"
| "jsonStep (PS MArrStart st r) c =
     (if isWs c then PS MArrStart st r
      else if c = rbracket then closeArr st r
      else startValue c st r)"
| "jsonStep (PS MObjStart st r) c =
     (if isWs c then PS MObjStart st r
      else if c = dquote then PS (MStr True []) st r
      else if c = rbrace then closeObj st r
      else failed)"
| "jsonStep (PS MKey st r) c =
     (if isWs c then PS MKey st r
      else if c = dquote then PS (MStr True []) st r
      else failed)"
| "jsonStep (PS MColon st r) c =
     (if isWs c then PS MColon st r
      else if c = 58 then PS MValue st r
      else failed)"
| "jsonStep (PS MAfter st r) c = afterValue c st r"
| "jsonStep (PS (MStr k acc) st r) c =
     (if c = dquote then closeStr k acc st r
      else if c = backslash then PS (MEsc k acc) st r
      else if c < 32 then failed
      else PS (MStr k (c # acc)) st r)"
| "jsonStep (PS (MEsc k acc) st r) c =
     (if c = 117 then PS (MHex k acc []) st r
      else (case escChar c of Some e \<Rightarrow> PS (MStr k (e # acc)) st r | None \<Rightarrow> failed))"
| "jsonStep (PS (MHex k acc hs) st r) c =
     (case hexVal c of
        None \<Rightarrow> failed
      | Some h \<Rightarrow>
          (if length hs = 3
           then PS (MStr k (foldl (\<lambda>v d. v * 16 + d) 0 (hs @ [h]) # acc)) st r
           else PS (MHex k acc (hs @ [h])) st r))"
| "jsonStep (PS (MNum ns a) st r) c = numStep ns a c st r"
| "jsonStep (PS (MLit l n) st r) c =
     (if n < length (litText l) \<and> c = litText l ! n
      then (if Suc n = length (litText l) then deliver (litVal l) st r else PS (MLit l (Suc n)) st r)
      else failed)"
| "jsonStep (PS MFail st r) c = failed"

text \<open>At the end of the text the value must be complete; a number at the top level ends
  with the text.\<close>

fun jsonFinish :: "pstate \<Rightarrow> jsval option" where
  "jsonFinish (PS MAfter [] r) = r"
| "jsonFinish (PS (MNum ns a) [] r) =
     (if ns = NZero \<or> ns = NInt \<or> ns = NFrac \<or> ns = NExp then Some (numVal a) else None)"
| "jsonFinish _ = None"

definition jsonRun :: "pstate \<Rightarrow> jsstring \<Rightarrow> pstate" where
  "jsonRun s cs = foldl jsonStep s cs"

definition JSON_parse :: "jsstring \<Rightarrow> jsval option" where
  "JSON_parse text = jsonFinish (jsonRun (PS MValue [] None) text)"

subsection \<open>Reading a parsed value\<close>

text \<open>A number is falsy when it is zero as a double: the decimal value \<open>m * 10 ^ e\<close> rounds
  to zero exactly when its magnitude is at most \<open>2 ^ -1075\<close>, half the least subnormal.\<close>

definition numIsZero :: "int \<Rightarrow> int \<Rightarrow> bool" where
  "numIsZero m e = (m = 0 \<or> (e < 0 \<and> \<bar>m\<bar> * 2 ^ 1075 \<le> 10 ^ nat (- e)))"

fun truthy :: "jsval \<Rightarrow> bool" where
  "truthy JNull = False"
| "truthy (JBool b) = b"
| "truthy (JNum m e) = (\<not> numIsZero m e)"
| "truthy (JStr s) = (s \<noteq> [])"
| "truthy (JArr xs) = True"
| "truthy (JObj ms) = True"

text \<open>\<open>data.key\<close>: \<open>None\<close> stands for \<open>undefined\<close>. None of the keys the code reads is a
  property of a prototype, so only an object's own members answer.\<close>

fun getProp :: "jsval \<Rightarrow> jsstring \<Rightarrow> jsval option" where
  "getProp (JObj ms) k = map_of (rev ms) k"
| "getProp _ k = None"

text \<open>\<open>a || b\<close> with \<open>a\<close> possibly \<open>undefined\<close>.\<close>

fun jsOr :: "jsval option \<Rightarrow> jsval \<Rightarrow> jsval" where
  "jsOr None b = b"
| "jsOr (Some a) b = (if truthy a then a else b)"

section \<open>parseImageTags\<close>

text \<open>
  A directive, as \<open>tags.push({...})\<close> builds it at lines 876-887 and 961-971. The field
  values come from the parsed JSON and can be any JSON value; \<open>existingSrc\<close> is \<open>null\<close>
  (\<open>None\<close>) or the \<open>src\<close> value, and is absent from a legacy directive (\<open>None\<close> too).
\<close>

record tag =
  fullMatch :: jsstring
  index :: nat
  style :: jsval
  prompt :: jsval
  aspectRatio :: jsval
  preset :: jsval
  imageSize :: jsval
  quality :: jsval
  isNewFormat :: bool
  existingSrc :: "jsstring option"

text \<open>
  A call of \<open>iigLog(level, ...)\<close>. The time stamp the logger adds is left out, and so is
  the text of an exception (the second argument of the two \<open>WARN\<close> calls in the
  \<open>catch\<close> blocks), which is the engine's own wording.
\<close>

datatype level = INFO | WARN | ERROR

type_synonym logentry = "level \<times> jsstring"

definition mkTag :: "jsval \<Rightarrow> jsstring \<Rightarrow> nat \<Rightarrow> bool \<Rightarrow> jsstring option \<Rightarrow> tag" where
  "mkTag data fm i new existing =
     \<lparr>fullMatch = fm,
      index = i,
      style = jsOr (getProp data (asc ''style'')) (JStr []),
      prompt = jsOr (getProp data (asc ''prompt'')) (JStr []),
      aspectRatio = jsOr (getProp data (asc ''aspect_ratio'')) (jsOr (getProp data (asc ''aspectRatio'')) JNull),
      preset = jsOr (getProp data (asc ''preset'')) JNull,
      imageSize = jsOr (getProp data (asc ''image_size'')) (jsOr (getProp data (asc ''imageSize'')) JNull),
      quality = jsOr (getProp data (asc ''quality'')) JNull,
      isNewFormat = new,
      existingSrc = existing\<rparr>"

text \<open>
  \<open>data.prompt?.substring(0, 50)\<close> inside the template literal of the \<open>INFO\<close> call that
  follows \<open>tags.push\<close>: \<open>undefined\<close> and \<open>null\<close> print as \<open>undefined\<close>, a string gives
  its first 50 code units, and any other value has no \<open>substring\<close> method, so the call
  throws a TypeError (\<open>None\<close>).
\<close>

fun promptPreview :: "jsval option \<Rightarrow> jsstring option" where
  "promptPreview None = Some (asc ''undefined'')"
| "promptPreview (Some JNull) = Some (asc ''undefined'')"
| "promptPreview (Some (JStr s)) = Some (substring s 0 50)"
| "promptPreview (Some _) = None"

text \<open>
  The \<open>try\<close> block and its \<open>catch\<close> (lines 866-892 and 957-976): \<open>parsed\<close> is the
  outcome of \<open>JSON.parse\<close>, \<open>mk\<close> builds the directive. An exception of \<open>JSON.parse\<close>
  leaves \<open>tags\<close> as it is; an exception of the \<open>INFO\<close> call comes after the push.
  Either way the \<open>catch\<close> logs \<open>warnMsg\<close>.
\<close>

definition tryPush :: "jsval option \<Rightarrow> (jsval \<Rightarrow> tag) \<Rightarrow> jsstring \<Rightarrow> jsstring \<Rightarrow> tag list \<times> logentry list" where
  "tryPush parsed mk infoPrefix warnMsg =
     (case parsed of
        None \<Rightarrow> ([], [(WARN, warnMsg)])
      | Some data \<Rightarrow>
          (if data = JNull then ([], [(WARN, warnMsg)])
           else (case promptPreview (getProp data (asc ''prompt'')) of
                   None \<Rightarrow> ([mk data], [(WARN, warnMsg)])
                 | Some pv \<Rightarrow> ([mk data], [(INFO, infoPrefix @ pv)]))))"



text \<open>\<open>s.replace(/c/g, r)\<close> for a single code unit \<open>c\<close> and a replacement without \<open>$\<close>.\<close>

definition replaceAllChar :: "jschar \<Rightarrow> jsstring \<Rightarrow> jsstring \<Rightarrow> jsstring" where
  "replaceAllChar c r s = concat (map (\<lambda>x. if x = c then r else [x]) s)"

text \<open>One round of a scanning loop: the loop ends (\<open>break\<close>), or goes on at a new search
  position with the directives and log lines of this round.\<close>

datatype stepres = Stop | Continue nat "tag list" "logentry list"

subsection \<open>The legacy format, lines 897-979\<close>

definition marker :: jsstring where
  "marker = asc ''[IMG:GEN:''"

definition legacyStep :: "jsstring \<Rightarrow> nat \<Rightarrow> stepres" where
  "legacyStep text searchStart =
     (case indexOf text marker searchStart of
        None \<Rightarrow> Stop
      | Some markerIndex \<Rightarrow>
          (let jsonStart = markerIndex + length marker in
           case findJsonEnd text jsonStart of
             None \<Rightarrow> Continue jsonStart [] []
           | Some jsonEnd \<Rightarrow>
               (let jsonStr = substring text jsonStart jsonEnd;
                    afterJson = substring text jsonEnd (length text)
                in if \<not> startsWith afterJson [rbracket] then Continue jsonEnd [] []
                   else
                     (let tagOnly = substring text markerIndex (jsonEnd + 1);
                          normalizedJson = replaceAllChar squote [dquote] jsonStr;
                          (ts, ls) = tryPush (JSON_parse normalizedJson)
                                       (\<lambda>data. mkTag data tagOnly markerIndex False None)
                                       (asc ''Found LEGACY format tag: '')
                                       (asc ''Failed to parse legacy tag JSON: '' @ substring jsonStr 0 100)
                      in Continue (jsonEnd + 1) ts ls))))"

subsection \<open>The image-element format, lines 762-895\<close>

definition imgTagMarker :: jsstring where
  "imgTagMarker = asc ''data-iig-instruction=''"

text \<open>\<open>\s\<close> of a JavaScript regular expression.\<close>

definition isReSpace :: "jschar \<Rightarrow> bool" where
  "isReSpace c =
     (c = 9 \<or> c = 10 \<or> c = 11 \<or> c = 12 \<or> c = 13 \<or> c = 32 \<or> c = 160 \<or> c = 5760 \<or>
      (8192 \<le> c \<and> c \<le> 8202) \<or> c = 8232 \<or> c = 8233 \<or> c = 8239 \<or> c = 8287 \<or>
      c = 12288 \<or> c = 65279)"

text \<open>A letter of a pattern under the \<open>i\<close> flag: \<open>l\<close> is the lower-case ASCII letter.\<close>

definition ciEq :: "jschar \<Rightarrow> jschar \<Rightarrow> bool" where
  "ciEq c l = (c = l \<or> c + 32 = l)"

text \<open>
  \<open>/src\s*=\s*["']?([^"'\s>]+)/i\<close> tried at the start of \<open>cs\<close>; the result is the first
  group. Nothing is gained by backtracking: what \<open>\s*\<close> or \<open>["']?\<close> would give back
  cannot start the group.
\<close>

definition srcStop :: "jschar \<Rightarrow> bool" where
  "srcStop c = (c = dquote \<or> c = squote \<or> isReSpace c \<or> c = 62)"

fun matchSrcAt :: "jsstring \<Rightarrow> jsstring option" where
  "matchSrcAt (a # b # c # rest) =
     (if ciEq a 115 \<and> ciEq b 114 \<and> ciEq c 99 then
        (case dropWhile isReSpace rest of
           [] \<Rightarrow> None
         | e # r2 \<Rightarrow>
             (if e = 61 then
                (let r3 = dropWhile isReSpace r2;
                     r4 = (case r3 of [] \<Rightarrow> [] | q # r \<Rightarrow> if q = dquote \<or> q = squote then r else r3);
                     v = takeWhile (\<lambda>x. \<not> srcStop x) r4
                 in if v = [] then None else Some v)
              else None))
      else None)"
| "matchSrcAt _ = None"

text \<open>\<open>fullImgTag.match(...)\<close>: the leftmost match.\<close>

fun srcMatch :: "jsstring \<Rightarrow> jsstring option" where
  "srcMatch [] = None"
| "srcMatch (c # cs) =
     (case matchSrcAt (c # cs) of Some v \<Rightarrow> Some v | None \<Rightarrow> srcMatch cs)"

record parseOptions =
  checkExistence :: bool
  forceAll :: bool

text \<open>
  The five \<open>replace\<close> calls of lines 867-872 are, as the file has them,
  \<open>.replace(/"/g, '"').replace(/'/g, "'").replace(/'/g, "'").replace(/"/g, '"').replace(/&/g, '&')\<close>:
  each puts a code unit in its own place.
\<close>

definition normalizeInstruction :: "jsstring \<Rightarrow> jsstring" where
  "normalizeInstruction s =
     replaceAllChar 38 [38] (replaceAllChar dquote [dquote] (replaceAllChar squote [squote]
       (replaceAllChar squote [squote] (replaceAllChar dquote [dquote] s))))"

text \<open>
  \<open>fileExists\<close> stands for \<open>checkFileExists\<close> (lines 749-756), a \<open>HEAD\<close> request whose
  answer is the host's: \<open>true\<close> when the response is ok, \<open>false\<close> otherwise and on any
  failure of the request.

  Lines 836-864 decide from the \<open>src\<close> value whether the element is skipped
  (\<open>searchPos = imgEnd; continue\<close>) or goes on to the \<open>try\<close> block with
  \<open>needsGeneration\<close> set, after the log lines made on the way.
\<close>

datatype decision = Skip | Generate "logentry list"

text \<open>\<open>hasPath = srcValue && srcValue.startsWith('/') && srcValue.length > 5\<close>.\<close>

definition hasPathOf :: "jsstring \<Rightarrow> bool" where
  "hasPathOf srcValue = (srcValue \<noteq> [] \<and> startsWith srcValue [47] \<and> length srcValue > 5)"

definition decide :: "(jsstring \<Rightarrow> bool) \<Rightarrow> parseOptions \<Rightarrow> jsstring \<Rightarrow> decision" where
  "decide fileExists opts srcValue =
     (let hasMarker = (str_includes srcValue (asc ''[IMG:GEN]'') \<or> str_includes srcValue (asc ''[IMG:''));
          hasErrorImage = str_includes srcValue (asc ''error.svg'');
          hasPath = hasPathOf srcValue
      in if hasErrorImage \<and> \<not> forceAll opts then Skip
         else if forceAll opts then Generate []
         else if hasMarker \<or> srcValue = [] then Generate []
         else if hasPath \<and> checkExistence opts then
           (if fileExists srcValue then Skip
            else Generate [(WARN, asc ''File does not exist (LLM hallucination?): '' @ srcValue)])
         else Skip)"

definition srcValueOf :: "jsstring \<Rightarrow> jsstring" where
  "srcValueOf fullImgTag = (case srcMatch fullImgTag of Some v \<Rightarrow> v | None \<Rightarrow> [])"

definition taggedStep :: "(jsstring \<Rightarrow> bool) \<Rightarrow> parseOptions \<Rightarrow> jsstring \<Rightarrow> nat \<Rightarrow> stepres" where
  "taggedStep fileExists opts text searchPos =
     (case indexOf text imgTagMarker searchPos of
        None \<Rightarrow> Stop
      | Some markerPos \<Rightarrow>
          (case lastIndexOf text (asc ''<img'') markerPos of
             None \<Rightarrow> Continue (markerPos + 1) [] []
           | Some imgStart \<Rightarrow>
               (if markerPos - imgStart > 500 then Continue (markerPos + 1) [] []
                else
                  (let afterMarker = markerPos + length imgTagMarker in
                   case indexOf text [lbrace] afterMarker of
                     None \<Rightarrow> Continue (markerPos + 1) [] []
                   | Some jsonStart \<Rightarrow>
                       (if jsonStart > afterMarker + 10 then Continue (markerPos + 1) [] []
                        else
                          (case findJsonEnd text jsonStart of
                             None \<Rightarrow> Continue (markerPos + 1) [] []
                           | Some jsonEnd \<Rightarrow>
                               (case indexOf text [62] jsonEnd of
                                  None \<Rightarrow> Continue (markerPos + 1) [] []
                                | Some gt \<Rightarrow>
                                    (let imgEnd = gt + 1;
                                         fullImgTag = substring text imgStart imgEnd;
                                         instructionJson = substring text jsonStart jsonEnd;
                                         srcValue = srcValueOf fullImgTag
                                     in case decide fileExists opts srcValue of
                                          Skip \<Rightarrow> Continue imgEnd [] []
                                        | Generate pre \<Rightarrow>
                                            (case tryPush (JSON_parse (normalizeInstruction instructionJson))
                                                    (\<lambda>data. mkTag data fullImgTag imgStart True
                                                               (if hasPathOf srcValue then Some srcValue else None))
                                                    (asc ''Found NEW format tag: '')
                                                    (asc ''Failed to parse instruction JSON: '' @
                                                       substring instructionJson 0 100) of
                                               (ts, ls) \<Rightarrow> Continue imgEnd ts (pre @ ls))))))))))"

subsection \<open>The two loops and the whole scan\<close>

lemma indexOf_aux_Some:
  "indexOf_aux pat cs k = Some j \<Longrightarrow>
   k \<le> j \<and> j + length pat \<le> k + length cs \<and> take (length pat) (drop (j - k) cs) = pat"
proof (induction cs arbitrary: k)
  case Nil
  then show ?case by (simp split: if_splits)
next
  case (Cons c cs)
  show ?case
  proof (cases "prefix pat (c # cs)")
    case True
    then obtain zs where zs: "c # cs = pat @ zs" by (auto simp: prefix_def)
    have "take (length pat) (c # cs) = pat" "length pat \<le> length (c # cs)"
      unfolding zs by simp_all
    with Cons.prems True show ?thesis by simp
  next
    case False
    with Cons.prems have "indexOf_aux pat cs (Suc k) = Some j" by simp
    from Cons.IH [OF this] have h: "Suc k \<le> j" "j + length pat \<le> Suc k + length cs"
      "take (length pat) (drop (j - Suc k) cs) = pat" by auto
    from h(1) have "j - k = Suc (j - Suc k)" by arith
    with h show ?thesis by simp
  qed
qed

lemma indexOf_Some:
  assumes "indexOf s pat from = Some j" and "pat \<noteq> []"
  shows "from \<le> j \<and> j + length pat \<le> length s \<and> take (length pat) (drop j s) = pat"
proof -
  have lt: "from < length s"
  proof (rule ccontr)
    assume "\<not> from < length s"
    then have "drop from s = []" by simp
    with assms show False by (simp add: indexOf_def)
  qed
  from assms(1) have a: "indexOf_aux pat (drop from s) from = Some j"
    using lt by (simp add: indexOf_def min_def)
  from indexOf_aux_Some [OF a] lt show ?thesis by (auto simp: add.commute)
qed

lemma scanBraces_Some:
  "scanBraces cs i b inS esc = Some e \<Longrightarrow> i < e \<and> e \<le> i + length cs \<and> cs ! (e - i - 1) = rbrace"
proof (induction cs arbitrary: i b inS esc)
  case Nil
  then show ?case by simp
next
  case (Cons c cs)
  have step: "i < e \<and> e \<le> i + length (c # cs) \<and> (c # cs) ! (e - i - 1) = rbrace"
    if "scanBraces cs (Suc i) b' inS' esc' = Some e" for b' inS' esc'
  proof -
    from Cons.IH [OF that] have h: "Suc i < e" "e \<le> Suc i + length cs" "cs ! (e - Suc i - 1) = rbrace"
      by auto
    then have "e - i - 1 = Suc (e - Suc i - 1)" by arith
    with h show ?thesis by simp
  qed
  from Cons.prems show ?case
    by (auto split: if_splits dest: step)
qed

lemma findJsonEnd_Some:
  assumes "findJsonEnd text jsonStart = Some jsonEnd"
  shows "jsonStart < jsonEnd \<and> jsonEnd \<le> length text \<and> text ! (jsonEnd - 1) = rbrace"
proof -
  from assms have s: "scanBraces (drop jsonStart text) jsonStart 0 False False = Some jsonEnd"
    by (simp add: findJsonEnd_def)
  have lt: "jsonStart < length text"
  proof (rule ccontr)
    assume "\<not> jsonStart < length text"
    then have "drop jsonStart text = []" by simp
    with s show False by simp
  qed
  from scanBraces_Some [OF s] have h: "jsonStart < jsonEnd" "jsonEnd \<le> jsonStart + length (drop jsonStart text)"
    "drop jsonStart text ! (jsonEnd - jsonStart - 1) = rbrace" by auto
  from h(1,2) lt have le: "jsonEnd \<le> length text" by simp
  from h(1) have "jsonStart + (jsonEnd - jsonStart - 1) = jsonEnd - 1" by arith
  with h(3) le lt have "text ! (jsonEnd - 1) = rbrace" by simp
  with h(1) le show ?thesis by simp
qed

lemma marker_length [simp]: "length marker = 9"
  by (simp add: marker_def asc_def)

lemma marker_nonempty [simp]: "marker \<noteq> []"
  by (simp add: marker_def asc_def)

lemma imgTagMarker_length [simp]: "length imgTagMarker = 21"
  by (simp add: imgTagMarker_def asc_def)

lemma imgTagMarker_nonempty [simp]: "imgTagMarker \<noteq> []"
  by (simp add: imgTagMarker_def asc_def)

lemma startsWith_substring_rest:
  "startsWith (substring text k (length text)) [c] \<longleftrightarrow> k < length text \<and> text ! k = c"
proof (cases "k < length text")
  case True
  then have "drop k text = text ! k # drop (Suc k) text" by (simp add: Cons_nth_drop_Suc)
  with True show ?thesis
    by (auto simp: startsWith_def substring_def Let_def min_def max_def)
next
  case False
  then show ?thesis by (simp add: startsWith_def substring_def Let_def min_def max_def)
qed

lemma legacyStep_progress:
  assumes "legacyStep text searchStart = Continue n ts ls"
  shows "searchStart < n \<and> n \<le> length text"
proof -
  from assms obtain mi where mi: "indexOf text marker searchStart = Some mi"
    by (auto simp: legacyStep_def split: option.splits)
  from indexOf_Some [OF mi] have b: "searchStart \<le> mi" "mi + 9 \<le> length text" by simp_all
  show ?thesis
  proof (cases "findJsonEnd text (mi + 9)")
    case None
    with assms mi b show ?thesis by (simp add: legacyStep_def)
  next
    case (Some je)
    from findJsonEnd_Some [OF Some] have j: "mi + 9 < je" "je \<le> length text" by simp_all
    show ?thesis
    proof (cases "je < length text \<and> text ! je = rbracket")
      case True
      with assms mi Some b j show ?thesis
        by (auto simp: legacyStep_def Let_def startsWith_substring_rest split: prod.splits)
    next
      case False
      with assms mi Some b j show ?thesis
        by (auto simp: legacyStep_def Let_def startsWith_substring_rest split: prod.splits)
    qed
  qed
qed

function legacyLoop :: "jsstring \<Rightarrow> nat \<Rightarrow> tag list \<times> logentry list" where
  "legacyLoop text searchStart =
     (case legacyStep text searchStart of
        Stop \<Rightarrow> ([], [])
      | Continue next ts ls \<Rightarrow>
          (case legacyLoop text next of (ts', ls') \<Rightarrow> (ts @ ts', ls @ ls')))"
  by pat_completeness auto
termination
  by (relation "measure (\<lambda>(text, s). length text - s)") (auto dest: legacyStep_progress)

lemma taggedStep_progress:
  assumes "taggedStep fileExists opts text searchPos = Continue n ts ls"
  shows "searchPos < n \<and> n \<le> length text"
proof -
  from assms obtain mp where mp: "indexOf text imgTagMarker searchPos = Some mp"
    by (auto simp: taggedStep_def split: option.splits)
  from indexOf_Some [OF mp] have b: "searchPos \<le> mp" "mp + 21 \<le> length text" by simp_all
  have early: "searchPos < mp + 1 \<and> mp + 1 \<le> length text" using b by simp
  show ?thesis
  proof (cases "n = mp + 1")
    case True
    with early show ?thesis by simp
  next
    case False
    with assms mp obtain js je gt where
      js: "indexOf text [lbrace] (mp + 21) = Some js" and
      je: "findJsonEnd text js = Some je" and
      gt: "indexOf text [62] je = Some gt" and n: "n = gt + 1"
      by (auto simp: taggedStep_def Let_def split: option.splits if_splits prod.splits decision.splits)
    from indexOf_Some [OF js] have "mp + 21 \<le> js" by simp
    moreover from findJsonEnd_Some [OF je] have "js < je" by simp
    moreover from indexOf_Some [OF gt] have "je \<le> gt" "gt + 1 \<le> length text" by simp_all
    ultimately show ?thesis using b n by simp
  qed
qed

function taggedLoop :: "(jsstring \<Rightarrow> bool) \<Rightarrow> parseOptions \<Rightarrow> jsstring \<Rightarrow> nat \<Rightarrow> tag list \<times> logentry list" where
  "taggedLoop fileExists opts text searchPos =
     (case taggedStep fileExists opts text searchPos of
        Stop \<Rightarrow> ([], [])
      | Continue next ts ls \<Rightarrow>
          (case taggedLoop fileExists opts text next of (ts', ls') \<Rightarrow> (ts @ ts', ls @ ls')))"
  by pat_completeness auto
termination
  by (relation "measure (\<lambda>(fe, opts, text, s). length text - s)") (auto dest: taggedStep_progress)

declare legacyLoop.simps [simp del] taggedLoop.simps [simp del]

text \<open>\<open>parseImageTags(text, options)\<close>: the directives of the image-element format, then
  those of the legacy format, and the log calls in the order they are made.\<close>

definition parseImageTags :: "(jsstring \<Rightarrow> bool) \<Rightarrow> jsstring \<Rightarrow> parseOptions \<Rightarrow> tag list \<times> logentry list" where
  "parseImageTags fileExists text opts =
     (case taggedLoop fileExists opts text 0 of
        (ts1, ls1) \<Rightarrow> (case legacyLoop text 0 of (ts2, ls2) \<Rightarrow> (ts1 @ ts2, ls1 @ ls2)))"

fun stepTags :: "stepres \<Rightarrow> tag list" where
  "stepTags Stop = []"
| "stepTags (Continue n ts ls) = ts"

fun stepLogs :: "stepres \<Rightarrow> logentry list" where
  "stepLogs Stop = []"
| "stepLogs (Continue n ts ls) = ls"

subsection \<open>Words of the specification about the payload\<close>

text \<open>What may follow the closing double quote of a JSON string: white space, a comma, a
  colon, or a closing brace or bracket.\<close>

definition afterStringOk :: "jschar \<Rightarrow> bool" where
  "afterStringOk c = (isWs c \<or> c = 44 \<or> c = 58 \<or> c = rbrace \<or> c = rbracket)"

text \<open>"Every single-quote normalized to a double-quote".\<close>

definition normalizeQuotes :: "jsstring \<Rightarrow> jsstring" where
  "normalizeQuotes s = map (\<lambda>c. if c = squote then dquote else c) s"

text \<open>A host on which every file asked for exists, and the options with which
  \<open>processMessageTags\<close> calls the scan (line 1029).\<close>

definition hostAllFiles :: "jsstring \<Rightarrow> bool" where
  "hostAllFiles path = True"

definition processOptions :: parseOptions where
  "processOptions = \<lparr>checkExistence = True, forceAll = False\<rparr>"

section \<open>Configuration, host and backends\<close>

text \<open>
  The settings object of lines 39-63, with the fields the modelled functions read. A
  string that is absent or empty is falsy and modelled as \<open>[]\<close>. \<open>npcReferenceImages\<close>
  holds the entries of the object in their order, \<open>None\<close> when the field is \<open>null\<close>.
  Four fields share their names with fields of a directive or with a constant of the
  library and carry the prefix
  \<open>set_\<close>.
\<close>

record settings =
  enabled :: bool
  apiType :: jsstring
  endpoint :: jsstring
  apiKey :: jsstring
  model :: jsstring
  set_size :: jsstring
  set_quality :: jsstring
  maxRetries :: int
  retryDelay :: nat
  sendCharAvatar :: bool
  sendUserAvatar :: bool
  set_aspectRatio :: jsstring
  set_imageSize :: jsstring
  naisteraAspectRatio :: jsstring
  naisteraPreset :: jsstring
  naisteraSendCharAvatar :: bool
  naisteraSendUserAvatar :: bool
  sendPreviousImages :: bool
  maxPreviousImages :: int
  sendStyleReference :: bool
  sendNpcReferences :: bool
  npcReferenceImages :: "(jsstring \<times> jsstring) list option"

text \<open>The options bag that \<open>processTag\<close> hands to \<open>generateImageWithRetry\<close> (line 1173).\<close>

record genOptions =
  opt_aspectRatio :: jsval
  opt_imageSize :: jsval
  opt_quality :: jsval
  opt_preset :: jsval
  opt_messageId :: nat

text \<open>A message of the host's chat: \<open>is_user\<close> and the text \<open>mes\<close>.\<close>

record message =
  is_user :: bool
  mes :: jsstring

text \<open>A thrown \<open>Error\<close> with its message; \<open>ThrownUndefined\<close> is \<open>throw undefined\<close>.\<close>

datatype thrown = Thrown jsstring | ThrownUndefined

text \<open>The parts of a Gemini request body (lines 497-528).\<close>

datatype part = InlineData jsstring jsstring | TextPart jsval

text \<open>What an adapter hands to \<open>fetch\<close>: the URL, the bearer token, and the fields of the
  JSON body.\<close>

datatype request =
    OpenAIRequest jsstring jsstring jsstring jsval jsstring jsval "jsstring option"
  | GeminiRequest jsstring jsstring "part list" jsstring jsstring
  | NaisteraRequest jsstring jsstring jsval jsval "jsval option" "jsstring list option"

text \<open>
  What the code asks of the host, the engine and the network:
  \<^item> \<open>fileExists\<close>: \<open>checkFileExists\<close>;
  \<^item> \<open>imageUrlToDataUrl\<close>: lines 191-206, \<open>None\<close> for \<open>null\<close>;
  \<^item> the four avatar getters of lines 259-343;
  \<^item> \<open>toLowerCase\<close> and \<open>numToString\<close>: \<open>String.prototype.toLowerCase\<close> and the
    text of a number in a template literal;
  \<^item> \<open>typeErrorMessage\<close>: the engine's message of a TypeError;
  \<^item> \<open>respond k req\<close>: what the adapter returns or throws on the \<open>k\<close>-th attempt after it
    has sent \<open>req\<close> (the reading of the response, lines 446-475, 546-578, 599-618);
  \<^item> \<open>saveImageToFile\<close>: lines 208-257, the stored path or the error;
  \<^item> \<open>domReady\<close>: whether the message element and its \<open>.mes_text\<close> are in the page.
\<close>

record env =
  fileExists :: "jsstring \<Rightarrow> bool"
  imageUrlToDataUrl :: "jsstring \<Rightarrow> jsstring option"
  getCharacterAvatarBase64 :: "jsstring option"
  getUserAvatarBase64 :: "jsstring option"
  getCharacterAvatarDataUrl :: "jsstring option"
  getUserAvatarDataUrl :: "jsstring option"
  toLowerCase :: "jsstring \<Rightarrow> jsstring"
  numToString :: "int \<Rightarrow> int \<Rightarrow> jsstring"
  typeErrorMessage :: jsstring
  respond :: "nat \<Rightarrow> request \<Rightarrow> thrown + jsstring"
  saveImageToFile :: "jsstring \<Rightarrow> thrown + jsstring"
  domReady :: "nat \<Rightarrow> bool"

subsection \<open>Values in a template literal\<close>

text \<open>
  \<open>`${v}`\<close> for a value that came out of \<open>JSON.parse\<close>. An array joins its elements
  with commas, \<open>null\<close> elements as the empty string; an object is \<open>[object Object]\<close>
  unless it has a member \<open>toString\<close> (never a function), in which case the conversion
  throws a TypeError, \<open>None\<close> here.
\<close>

fun intersperse :: "jsstring \<Rightarrow> jsstring list \<Rightarrow> jsstring" where
  "intersperse sep [] = []"
| "intersperse sep [x] = x"
| "intersperse sep (x # y # ys) = x @ sep @ intersperse sep (y # ys)"

fun sequenceOpt :: "'a option list \<Rightarrow> 'a list option" where
  "sequenceOpt [] = Some []"
| "sequenceOpt (None # xs) = None"
| "sequenceOpt (Some x # xs) = (case sequenceOpt xs of None \<Rightarrow> None | Some ys \<Rightarrow> Some (x # ys))"

fun toStr :: "env \<Rightarrow> jsval \<Rightarrow> jsstring option" where
  "toStr e JNull = Some (asc ''null'')"
| "toStr e (JBool b) = Some (if b then asc ''true'' else asc ''false'')"
| "toStr e (JNum m x) = Some (numToString e m x)"
| "toStr e (JStr s) = Some s"
| "toStr e (JArr xs) =
     (case sequenceOpt (map (\<lambda>v. if v = JNull then Some [] else toStr e v) xs) of
        None \<Rightarrow> None
      | Some ss \<Rightarrow> Some (intersperse [44] ss))"
| "toStr e (JObj ms) =
     (if map_of ms (asc ''toString'') \<noteq> None then None else Some (asc ''[object Object]''))"

subsection \<open>collectReferenceImages, lines 345-418\<close>

text \<open>
  \<open>/src=["']?(\/user\/images\/[^"'\s>]+)["']?/gi\<close> tried at the start of \<open>cs\<close>: the first
  group and the length of the whole match. The letters match in either case.
\<close>

fun ciPrefix :: "jsstring \<Rightarrow> jsstring \<Rightarrow> jsstring option" where
  "ciPrefix [] cs = Some cs"
| "ciPrefix (l # ls) [] = None"
| "ciPrefix (l # ls) (c # cs) =
     (if c = l \<or> (97 \<le> l \<and> l \<le> 122 \<and> c + 32 = l) then ciPrefix ls cs else None)"

definition matchImgAt :: "jsstring \<Rightarrow> (jsstring \<times> nat) option" where
  "matchImgAt cs =
     (case ciPrefix (asc ''src='') cs of
        None \<Rightarrow> None
      | Some r1 \<Rightarrow>
          (let q1 = (case r1 of [] \<Rightarrow> 0 | q # r \<Rightarrow> if q = dquote \<or> q = squote then 1 else 0);
               r2 = drop q1 r1
           in case ciPrefix (asc ''/user/images/'') r2 of
                None \<Rightarrow> None
              | Some r3 \<Rightarrow>
                  (let v = takeWhile (\<lambda>x. \<not> srcStop x) r3;
                       r4 = drop (length v) r3;
                       q2 = (case r4 of [] \<Rightarrow> 0 | q # r \<Rightarrow> if q = dquote \<or> q = squote then 1 else 0)
                   in if v = [] then None
                      else Some (take 13 r2 @ v, 4 + q1 + 13 + length v + q2))))"

text \<open>The \<open>while ((match = imgPathRegex.exec(message.mes)) !== null)\<close> loop: every match
  from left to right, each search starting where the last match ended.\<close>

lemma matchImgAt_positive: "matchImgAt cs = Some (p, n) \<Longrightarrow> 0 < n"
  by (auto simp: matchImgAt_def Let_def split: option.splits if_splits)

function execAll :: "jsstring \<Rightarrow> jsstring list" where
  "execAll [] = []"
| "execAll (c # cs) =
     (case matchImgAt (c # cs) of
        None \<Rightarrow> execAll cs
      | Some (p, n) \<Rightarrow> p # execAll (drop n (c # cs)))"
  by pat_completeness auto
termination
  by (relation "measure length") (auto dest: matchImgAt_positive)

definition imgPaths :: "jsstring \<Rightarrow> jsstring list" where
  "imgPaths text = execAll text"

record generatedImage =
  path :: jsstring
  messageIndex :: nat

text \<open>Lines 356-374 for the message at index \<open>i\<close>.\<close>

definition imagesOfMessage :: "nat \<Rightarrow> nat \<Rightarrow> message \<Rightarrow> generatedImage list" where
  "imagesOfMessage currentMessageId i m =
     (if i = currentMessageId \<or> mes m = [] then []
      else map (\<lambda>p. \<lparr>path = p, messageIndex = i\<rparr>)
             (filter (\<lambda>p. str_includes p (asc ''iig_'')) (imgPaths (mes m))))"

text \<open>The \<open>for (let i = context.chat.length - 1; i >= 0; i--)\<close> loop.\<close>

definition generatedImages :: "message list \<Rightarrow> nat \<Rightarrow> generatedImage list" where
  "generatedImages chat currentMessageId =
     concat (map (\<lambda>i. imagesOfMessage currentMessageId i (chat ! i)) (rev [0 ..< length chat]))"

record references =
  previous :: "jsstring list"
  style_ref :: "jsstring option"
  npcs :: "jsstring list"

text \<open>\<open>if (dataUrl)\<close>: neither \<open>null\<close> nor the empty string.\<close>

fun truthyUrl :: "jsstring option \<Rightarrow> jsstring option" where
  "truthyUrl None = None"
| "truthyUrl (Some d) = (if d = [] then None else Some d)"

text \<open>\<open>settings.maxPreviousImages || 2\<close>.\<close>

definition orTwo :: "int \<Rightarrow> int" where
  "orTwo n = (if n = 0 then 2 else n)"

text \<open>
  The prompt is a string in every call that reaches the name search with a string; of
  any other value \<open>prompt.toLowerCase\<close> is not a function and the call throws.
\<close>

definition collectReferenceImages ::
    "env \<Rightarrow> settings \<Rightarrow> message list \<Rightarrow> jsval \<Rightarrow> nat \<Rightarrow> thrown + references" where
  "collectReferenceImages e st chat prompt_v currentMessageId =
     (if chat = [] then Inr \<lparr>previous = [], style_ref = None, npcs = []\<rparr>
      else
        (let gens = generatedImages chat currentMessageId;
             sty = (if sendStyleReference st \<and> gens \<noteq> []
                    then truthyUrl (imageUrlToDataUrl e (path (last gens))) else None);
             prev = (if sendPreviousImages st \<and> gens \<noteq> []
                     then (let maxPrev = min (orTwo (maxPreviousImages st)) 4;
                               endIdx = min maxPrev (int (length gens) - (if sty \<noteq> None then 1 else 0))
                           in List.map_filter (\<lambda>g. truthyUrl (imageUrlToDataUrl e (path g)))
                                (take (nat endIdx) gens))
                     else [])
         in case (if sendNpcReferences st then npcReferenceImages st else None) of
              None \<Rightarrow> Inr \<lparr>previous = prev, style_ref = sty, npcs = []\<rparr>
            | Some entries \<Rightarrow>
                (case prompt_v of
                   JStr p \<Rightarrow>
                     Inr \<lparr>previous = prev, style_ref = sty,
                          npcs = List.map_filter
                                   (\<lambda>(npcName, npcImagePath).
                                      if npcImagePath \<noteq> [] \<and>
                                         str_includes (toLowerCase e p) (toLowerCase e npcName)
                                      then truthyUrl (imageUrlToDataUrl e npcImagePath) else None)
                                   entries\<rparr>
                 | _ \<Rightarrow> Inl (Thrown (typeErrorMessage e)))))"

subsection \<open>The adapters up to their request\<close>

text \<open>\<open>settings.endpoint.replace(/\/$/, '')\<close>.\<close>

definition stripSlash :: "jsstring \<Rightarrow> jsstring" where
  "stripSlash s = (if s \<noteq> [] \<and> last s = 47 then butlast s else s)"

text \<open>
  \<open>style ? `[Style: ${style}] ${prompt}` : prompt\<close> (lines 424, 508 and 586). With a
  falsy style the prompt is passed on as it is; \<open>None\<close> is the TypeError of a value that
  has no string form.
\<close>

definition fullPromptOf :: "env \<Rightarrow> jsval \<Rightarrow> jsval \<Rightarrow> jsval option" where
  "fullPromptOf e prompt_v style_v =
     (if truthy style_v then
        (case (toStr e style_v, toStr e prompt_v) of
           (Some s, Some p) \<Rightarrow> Some (JStr (asc ''[Style: '' @ s @ asc ''] '' @ p))
         | _ \<Rightarrow> None)
      else Some prompt_v)"

text \<open>generateImageOpenAI, lines 420-453.\<close>

definition openAISize :: "settings \<Rightarrow> genOptions \<Rightarrow> jsstring" where
  "openAISize st opts =
     (if truthy (opt_aspectRatio opts) then
        (if opt_aspectRatio opts = JStr (asc ''16:9'') then asc ''1792x1024''
         else if opt_aspectRatio opts = JStr (asc ''9:16'') then asc ''1024x1792''
         else if opt_aspectRatio opts = JStr (asc ''1:1'') then asc ''1024x1024''
         else set_size st)
      else set_size st)"

definition generateImageOpenAI ::
    "env \<Rightarrow> settings \<Rightarrow> jsval \<Rightarrow> jsval \<Rightarrow> jsstring list \<Rightarrow> genOptions \<Rightarrow> thrown + request" where
  "generateImageOpenAI e st prompt_v style_v referenceImages opts =
     (case fullPromptOf e prompt_v style_v of
        None \<Rightarrow> Inl (Thrown (typeErrorMessage e))
      | Some fullPrompt \<Rightarrow>
          Inr (OpenAIRequest
                 (stripSlash (endpoint st) @ asc ''/v1/images/generations'')
                 (apiKey st)
                 (model st)
                 fullPrompt
                 (openAISize st opts)
                 (if truthy (opt_quality opts) then opt_quality opts else JStr (set_quality st))
                 (case referenceImages of
                    [] \<Rightarrow> None
                  | r # _ \<Rightarrow> Some (asc ''data:image/png;base64,'' @ r))))"

text \<open>generateImageGemini, lines 477-553.\<close>

definition VALID_ASPECT_RATIOS :: "jsstring list" where
  "VALID_ASPECT_RATIOS = map asc [''1:1'', ''2:3'', ''3:2'', ''3:4'', ''4:3'', ''4:5'', ''5:4'',
                                  ''9:16'', ''16:9'', ''21:9'']"

definition VALID_IMAGE_SIZES :: "jsstring list" where
  "VALID_IMAGE_SIZES = map asc [''1K'', ''2K'', ''4K'']"

text \<open>\<open>list.includes(v)\<close> for a list of strings and any value \<open>v\<close>.\<close>

fun listIncludes :: "jsstring list \<Rightarrow> jsval \<Rightarrow> bool" where
  "listIncludes l (JStr s) = (s \<in> set l)"
| "listIncludes l _ = False"

text \<open>
  Lines 485-488 and 490-493:
  \<^verbatim>\<open>
  let aspectRatio = options.aspectRatio || settings.aspectRatio || '1:1';
  if (!VALID_ASPECT_RATIOS.includes(aspectRatio)) {
      aspectRatio = VALID_ASPECT_RATIOS.includes(settings.aspectRatio) ? settings.aspectRatio : '1:1';
  }
  \<close>
\<close>

definition validated :: "jsstring list \<Rightarrow> jsval \<Rightarrow> jsstring \<Rightarrow> jsstring \<Rightarrow> jsstring" where
  "validated allowed opt stored dflt =
     (let v = (if truthy opt then opt else if stored \<noteq> [] then JStr stored else JStr dflt)
      in if \<not> listIncludes allowed v then (if stored \<in> set allowed then stored else dflt)
         else (case v of JStr s \<Rightarrow> s | _ \<Rightarrow> dflt))"

text \<open>The decimal digits of a natural number, for \<open>${referenceImages.length}\<close>.\<close>

fun digits :: "nat \<Rightarrow> nat \<Rightarrow> jsstring" where
  "digits 0 n = []"
| "digits (Suc fuel) n = (if n < 10 then [48 + n] else digits fuel (n div 10) @ [48 + n mod 10])"

definition natToString :: "nat \<Rightarrow> jsstring" where
  "natToString n = digits (Suc n) n"

definition refInstruction :: "nat \<Rightarrow> jsstring" where
  "refInstruction n =
     asc ''[CRITICAL REFERENCE INSTRUCTIONS:'' @ [10] @
     asc ''You are provided with '' @ natToString n @
     asc '' reference image(s). These MUST be used as follows:'' @ [10] @
     asc ''- Reference 1: This is the PRIMARY STYLE/CHARACTER reference. Copy the exact art style, color palette, lighting, and if a character - their complete appearance (face, hair, body, clothing).'' @ [10] @
     (if n \<ge> 2 then asc ''- Reference 2+: Additional character references or previous images from this scene. Maintain EXACT visual consistency with these.'' else []) @ [10] @
     [10] @
     asc ''MANDATORY:'' @ [10] @
     asc ''- Match the art style EXACTLY (brushwork, colors, rendering technique)'' @ [10] @
     asc ''- Character faces MUST look identical to references'' @ [10] @
     asc ''- Clothing and accessories MUST match unless explicitly changed in prompt'' @ [10] @
     asc ''- Maintain the same level of detail and quality'' @ [10] @
     [10] @
     asc ''DO NOT: Create generic/different looking characters. Every named character MUST match their reference exactly.]'' @ [10] @
     [10]"

text \<open>\<open>refInstruction + fullPrompt\<close>: the concatenation turns the prompt into a string.\<close>

definition geminiText :: "env \<Rightarrow> jsval \<Rightarrow> jsval \<Rightarrow> nat \<Rightarrow> jsval option" where
  "geminiText e prompt_v style_v nrefs =
     (case fullPromptOf e prompt_v style_v of
        None \<Rightarrow> None
      | Some fullPrompt \<Rightarrow>
          (if nrefs > 0 then
             (case toStr e fullPrompt of
                None \<Rightarrow> None
              | Some p \<Rightarrow> Some (JStr (refInstruction nrefs @ p)))
           else Some fullPrompt))"

text \<open>
  \<open>${fullPrompt.length}\<close> in the log call of line 530, which comes before the request is
  sent: reading a property of \<open>null\<close> throws a TypeError; a string and an array have a
  number as length, a number and a boolean have none (\<open>undefined\<close>), and an object has
  its member \<open>length\<close>, whose string form the template literal asks for.
\<close>

fun lengthInTemplate :: "env \<Rightarrow> jsval \<Rightarrow> bool" where
  "lengthInTemplate e JNull = False"
| "lengthInTemplate e (JObj ms) =
     (case getProp (JObj ms) (asc ''length'') of None \<Rightarrow> True | Some v \<Rightarrow> toStr e v \<noteq> None)"
| "lengthInTemplate e _ = True"

definition generateImageGemini ::
    "env \<Rightarrow> settings \<Rightarrow> jsval \<Rightarrow> jsval \<Rightarrow> jsstring list \<Rightarrow> genOptions \<Rightarrow> thrown + request" where
  "generateImageGemini e st prompt_v style_v referenceImages opts =
     (let aspectRatio = validated VALID_ASPECT_RATIOS (opt_aspectRatio opts) (set_aspectRatio st) (asc ''1:1'');
          imageSize = validated VALID_IMAGE_SIZES (opt_imageSize opts) (set_imageSize st) (asc ''1K'');
          imageParts = map (InlineData (asc ''image/png'')) (take 4 referenceImages)
      in case geminiText e prompt_v style_v (length referenceImages) of
           None \<Rightarrow> Inl (Thrown (typeErrorMessage e))
         | Some fullPrompt \<Rightarrow>
             (if \<not> lengthInTemplate e fullPrompt then Inl (Thrown (typeErrorMessage e))
              else
                Inr (GeminiRequest
                       (stripSlash (endpoint st) @ asc ''/v1beta/models/'' @ model st @ asc '':generateContent'')
                       (apiKey st)
                       (imageParts @ [TextPart fullPrompt])
                       aspectRatio
                       imageSize)))"

text \<open>generateImageNaistera, lines 581-606. \<open>referenceImages\<close> is the list that
  \<open>generateImageWithRetry\<close> puts into the options.\<close>

definition endsWith :: "jsstring \<Rightarrow> jsstring \<Rightarrow> bool" where
  "endsWith s suf = suffix suf s"

definition generateImageNaistera ::
    "env \<Rightarrow> settings \<Rightarrow> jsval \<Rightarrow> jsval \<Rightarrow> jsstring list \<Rightarrow> genOptions \<Rightarrow> thrown + request" where
  "generateImageNaistera e st prompt_v style_v referenceImages opts =
     (let ep = stripSlash (endpoint st);
          url = (if endsWith ep (asc ''/api/generate'') then ep else ep @ asc ''/api/generate'')
      in case fullPromptOf e prompt_v style_v of
           None \<Rightarrow> Inl (Thrown (typeErrorMessage e))
         | Some fullPrompt \<Rightarrow>
             Inr (NaisteraRequest url (apiKey st) fullPrompt
                    (if truthy (opt_aspectRatio opts) then opt_aspectRatio opts
                     else if naisteraAspectRatio st \<noteq> [] then JStr (naisteraAspectRatio st)
                     else JStr (asc ''1:1''))
                    (if truthy (opt_preset opts) then Some (opt_preset opts)
                     else if naisteraPreset st \<noteq> [] then Some (JStr (naisteraPreset st))
                     else None)
                    (if referenceImages = [] then None else Some (take 4 referenceImages))))"

subsection \<open>generateImageWithRetry, lines 646-747\<close>

text \<open>validateSettings, lines 621-638: the settings that are missing, in the order of the
  checks. The function throws when the list is not empty; the message of its error is
  \<open>configMessage\<close> of the list.\<close>

datatype configError = MissingEndpoint | MissingApiKey | MissingModel

definition validateSettings :: "settings \<Rightarrow> configError list" where
  "validateSettings st =
     (if endpoint st = [] then [MissingEndpoint] else []) @
     (if apiKey st = [] then [MissingApiKey] else []) @
     (if apiType st \<noteq> asc ''naistera'' \<and> model st = [] then [MissingModel] else [])"

definition isGeminiModel :: "env \<Rightarrow> jsstring \<Rightarrow> bool" where
  "isGeminiModel e modelId = str_includes (toLowerCase e modelId) (asc ''nano-banana'')"

text \<open>\<open>dataUrl.split(',')[1]\<close>, and the \<open>if (b64)\<close> that follows it.\<close>

definition splitSecond :: "jsstring \<Rightarrow> jsstring option" where
  "splitSecond s =
     (case dropWhile (\<lambda>c. c \<noteq> 44) s of
        [] \<Rightarrow> None
      | _ # r \<Rightarrow> (let b = takeWhile (\<lambda>c. c \<noteq> 44) r in if b = [] then None else Some b))"

text \<open>A \<open>for\<close> loop that pushes while the list has fewer than four entries.\<close>

fun pushUpTo4 :: "jsstring list \<Rightarrow> jsstring option list \<Rightarrow> jsstring list" where
  "pushUpTo4 acc [] = acc"
| "pushUpTo4 acc (x # xs) =
     (if length acc \<ge> 4 then acc
      else pushUpTo4 (case x of None \<Rightarrow> acc | Some b \<Rightarrow> acc @ [b]) xs)"

definition optList :: "'a option \<Rightarrow> 'a list" where
  "optList x = (case x of None \<Rightarrow> [] | Some v \<Rightarrow> [v])"

text \<open>Lines 659-687, the base64 list of the Gemini adapter.\<close>

definition geminiReferences :: "env \<Rightarrow> settings \<Rightarrow> references \<Rightarrow> jsstring list" where
  "geminiReferences e st chatRefs =
     (if apiType st = asc ''gemini'' \<or> isGeminiModel e (model st) then
        (let r1 = (if sendCharAvatar st then optList (truthyUrl (getCharacterAvatarBase64 e)) else []);
             r2 = r1 @ (if sendUserAvatar st then optList (truthyUrl (getUserAvatarBase64 e)) else []);
             r3 = r2 @ (case style_ref chatRefs of None \<Rightarrow> [] | Some s \<Rightarrow> optList (splitSecond s));
             r4 = pushUpTo4 r3 (map splitSecond (previous chatRefs))
         in pushUpTo4 r4 (map splitSecond (npcs chatRefs)))
      else [])"

text \<open>Lines 689-710, the data URL list of the Naistera adapter.\<close>

definition naisteraReferences :: "env \<Rightarrow> settings \<Rightarrow> references \<Rightarrow> jsstring list" where
  "naisteraReferences e st chatRefs =
     (if apiType st = asc ''naistera'' then
        (let r1 = (if naisteraSendCharAvatar st then optList (truthyUrl (getCharacterAvatarDataUrl e)) else []);
             r2 = r1 @ (if naisteraSendUserAvatar st then optList (truthyUrl (getUserAvatarDataUrl e)) else []);
             r3 = r2 @ optList (style_ref chatRefs);
             r4 = pushUpTo4 r3 (map Some (previous chatRefs))
         in pushUpTo4 r4 (map Some (npcs chatRefs)))
      else [])"

text \<open>The choice of lines 718-724 and the adapter's call; \<open>respond\<close> gives the outcome of
  the \<open>attempt\<close>-th request.\<close>

definition buildRequest ::
    "env \<Rightarrow> settings \<Rightarrow> jsval \<Rightarrow> jsval \<Rightarrow> jsstring list \<Rightarrow> jsstring list \<Rightarrow> genOptions \<Rightarrow> thrown + request" where
  "buildRequest e st prompt_v style_v referenceImages referenceDataUrls opts =
     (if apiType st = asc ''naistera''
      then generateImageNaistera e st prompt_v style_v referenceDataUrls opts
      else if apiType st = asc ''gemini'' \<or> isGeminiModel e (model st)
      then generateImageGemini e st prompt_v style_v referenceImages opts
      else generateImageOpenAI e st prompt_v style_v referenceImages opts)"

definition callBackend ::
    "env \<Rightarrow> settings \<Rightarrow> jsval \<Rightarrow> jsval \<Rightarrow> jsstring list \<Rightarrow> jsstring list \<Rightarrow> genOptions \<Rightarrow> nat \<Rightarrow> thrown + jsstring" where
  "callBackend e st prompt_v style_v referenceImages referenceDataUrls opts attempt =
     (case buildRequest e st prompt_v style_v referenceImages referenceDataUrls opts of
        Inl err \<Rightarrow> Inl err
      | Inr req \<Rightarrow> respond e attempt req)"

text \<open>Lines 727-732, for the message of the error.\<close>

definition isRetryable :: "jsstring \<Rightarrow> bool" where
  "isRetryable msg =
     (str_includes msg (asc ''429'') \<or> str_includes msg (asc ''503'') \<or>
      str_includes msg (asc ''502'') \<or> str_includes msg (asc ''504'') \<or>
      str_includes msg (asc ''timeout'') \<or> str_includes msg (asc ''network''))"

text \<open>What the caller can observe of a generation: the status texts handed to
  \<open>onStatusUpdate\<close>, the backend calls, the error log lines (with the number of the
  attempt and the message of the error) and the sleeps.\<close>

datatype status = CollectingReferences | Generating nat int | RetryIn nat

datatype event =
    Status status
  | BackendCall nat
  | AttemptFailed nat jsstring
  | Sleep nat

text \<open>
  The loop of lines 712-746, from \<open>attempt\<close> on; \<open>call k\<close> is the outcome of the \<open>k\<close>-th
  backend call. Left of the result is what the function throws; \<open>lastError\<close> is handed
  along, \<open>undefined\<close> at the start. When the backend call throws \<open>undefined\<close>, reading
  \<open>error.message\<close> for the log line of the \<open>catch\<close> block throws a TypeError, with the
  engine's message \<open>tem\<close>, and that leaves the function.
\<close>

function retryLoop ::
    "jsstring \<Rightarrow> (nat \<Rightarrow> thrown + jsstring) \<Rightarrow> int \<Rightarrow> nat \<Rightarrow> thrown \<Rightarrow> nat \<Rightarrow>
     event list \<times> (thrown + jsstring)" where
  "retryLoop tem call maxR baseD lastError attempt =
     (if int attempt \<le> maxR then
        (case call attempt of
           Inr dataUrl \<Rightarrow> ([Status (Generating attempt maxR), BackendCall attempt], Inr dataUrl)
         | Inl error \<Rightarrow>
             (case error of
                ThrownUndefined \<Rightarrow>
                  ([Status (Generating attempt maxR), BackendCall attempt], Inl (Thrown tem))
              | Thrown msg \<Rightarrow>
                  (if \<not> isRetryable msg \<or> int attempt = maxR
                   then ([Status (Generating attempt maxR), BackendCall attempt,
                          AttemptFailed (attempt + 1) msg], Inl (Thrown msg))
                   else
                     (let delay = baseD * 2 ^ attempt
                      in case retryLoop tem call maxR baseD (Thrown msg) (attempt + 1) of
                           (evs, r) \<Rightarrow>
                             ([Status (Generating attempt maxR), BackendCall attempt,
                               AttemptFailed (attempt + 1) msg, Status (RetryIn delay), Sleep delay] @ evs,
                              r)))))
      else ([], Inl lastError))"
  by pat_completeness auto
termination
  by (relation "measure (\<lambda>(tem, call, maxR, baseD, lastError, attempt). nat (maxR + 1 - int attempt))")
     auto

declare retryLoop.simps [simp del]

definition generateImageWithRetry ::
    "env \<Rightarrow> settings \<Rightarrow> message list \<Rightarrow> jsval \<Rightarrow> jsval \<Rightarrow> genOptions \<Rightarrow>
     event list \<times> (configError list + thrown + jsstring)" where
  "generateImageWithRetry e st chat prompt_v style_v opts =
     (if validateSettings st \<noteq> [] then ([], Inl (validateSettings st))
      else
        (case collectReferenceImages e st chat prompt_v (opt_messageId opts) of
           Inl err \<Rightarrow> ([Status CollectingReferences], Inr (Inl err))
         | Inr chatRefs \<Rightarrow>
             (case retryLoop (typeErrorMessage e)
                     (callBackend e st prompt_v style_v (geminiReferences e st chatRefs)
                        (naisteraReferences e st chatRefs) opts)
                     (maxRetries st) (retryDelay st) ThrownUndefined 0 of
                (evs, r) \<Rightarrow> (Status CollectingReferences # evs, Inr r))))"

subsection \<open>Concrete hosts and settings for the examples\<close>

text \<open>The default settings of lines 39-63 with an endpoint, a key and a model filled in,
  two retries and the base delay of one second.\<close>

definition exampleSettings :: settings where
  "exampleSettings =
     \<lparr>enabled = True, apiType = asc ''openai'', endpoint = asc ''https://api.example/'',
      apiKey = asc ''key'', model = asc ''dall-e-3'', set_size = asc ''1024x1024'',
      set_quality = asc ''standard'', maxRetries = 2, retryDelay = 1000,
      sendCharAvatar = False, sendUserAvatar = False,
      set_aspectRatio = asc ''1:1'', set_imageSize = asc ''1K'',
      naisteraAspectRatio = asc ''1:1'', naisteraPreset = [],
      naisteraSendCharAvatar = False, naisteraSendUserAvatar = False,
      sendPreviousImages = True, maxPreviousImages = 2, sendStyleReference = True,
      sendNpcReferences = True, npcReferenceImages = Some []\<rparr>"

text \<open>A host whose files all exist and load as \<open>data:,\<close> followed by their path, on which
  nothing is lower-cased beyond ASCII, and whose backend answers every request with the
  given outcome and stores every image under the given path.\<close>

definition asciiLower :: "jsstring \<Rightarrow> jsstring" where
  "asciiLower s = map (\<lambda>c. if 65 \<le> c \<and> c \<le> 90 then c + 32 else c) s"

definition exampleHost :: "(thrown + jsstring) \<Rightarrow> jsstring \<Rightarrow> env" where
  "exampleHost outcome stored =
     \<lparr>fileExists = (\<lambda>p. True),
      imageUrlToDataUrl = (\<lambda>p. Some (asc ''data:,'' @ p)),
      getCharacterAvatarBase64 = None, getUserAvatarBase64 = None,
      getCharacterAvatarDataUrl = None, getUserAvatarDataUrl = None,
      toLowerCase = asciiLower,
      numToString = (\<lambda>m x. []),
      typeErrorMessage = asc ''TypeError'',
      respond = (\<lambda>k req. outcome),
      saveImageToFile = (\<lambda>d. Inr stored),
      domReady = (\<lambda>m. True)\<rparr>"

definition exampleOptions :: genOptions where
  "exampleOptions =
     \<lparr>opt_aspectRatio = JNull, opt_imageSize = JNull, opt_quality = JNull, opt_preset = JNull,
      opt_messageId = 0\<rparr>"

definition busy :: thrown where
  "busy = Thrown (asc ''API Error (429): busy'')"

text \<open>A host whose backend fails the first request with a 429, the second with a timeout
  and every later one with a 504.\<close>

definition flakyHost :: env where
  "flakyHost =
     (exampleHost (Inl busy) [])
       \<lparr>respond := (\<lambda>k req. Inl (Thrown (if k = 0 then asc ''API Error (429): busy''
                                            else if k = 1 then asc ''Request timeout''
                                            else asc ''API Error (504): late'')))\<rparr>"



subsection \<open>Words of the specification about the Gemini adapter\<close>



section \<open>Patching the message text\<close>

text \<open>
  \<open>String.prototype.replace\<close> reads its replacement string as a template (GetSubstitution
  of ECMA-262): \<open>$$\<close> is a dollar sign, \<open>$&\<close> the matched text, \<open>$`\<close> the text before the
  match, \<open>$'\<close> the text after it, \<open>$n\<close> and \<open>$nn\<close> the \<open>n\<close>-th group when there is one (a
  two-digit number that names no group is read as one digit), and any other \<open>$\<close> stands
  for itself. \<open>expandRepl repl matched before after groups\<close> is the text put in place of
  the match.
\<close>

fun expandRepl :: "jsstring \<Rightarrow> jsstring \<Rightarrow> jsstring \<Rightarrow> jsstring \<Rightarrow> jsstring list \<Rightarrow> jsstring" where
  "expandRepl [] m b a gs = []"
| "expandRepl [c] m b a gs = [c]"
| "expandRepl (c # d # ds) m b a gs =
     (if c \<noteq> dollar then c # expandRepl (d # ds) m b a gs
      else if d = dollar then dollar # expandRepl ds m b a gs
      else if d = 38 then m @ expandRepl ds m b a gs
      else if d = 96 then b @ expandRepl ds m b a gs
      else if d = squote then a @ expandRepl ds m b a gs
      else if isDigit d then
        (case ds of
           d2 # ds' \<Rightarrow>
             (if isDigit d2 \<and> 10 * (d - 48) + (d2 - 48) \<le> length gs then
                (if 1 \<le> 10 * (d - 48) + (d2 - 48)
                 then gs ! (10 * (d - 48) + (d2 - 48) - 1) @ expandRepl ds' m b a gs
                 else dollar # d # d2 # expandRepl ds' m b a gs)
              else if 1 \<le> d - 48 \<and> d - 48 \<le> length gs
              then gs ! (d - 48 - 1) @ expandRepl ds m b a gs
              else dollar # d # expandRepl ds m b a gs)
         | [] \<Rightarrow>
             (if 1 \<le> d - 48 \<and> d - 48 \<le> length gs then gs ! (d - 48 - 1) else [dollar, d]))
      else dollar # expandRepl (d # ds) m b a gs)"

text \<open>\<open>s.replace(pat, repl)\<close> with a string \<open>pat\<close>: the first occurrence only, and \<open>s\<close>
  itself when there is none.\<close>

definition replaceFirst :: "jsstring \<Rightarrow> jsstring \<Rightarrow> jsstring \<Rightarrow> jsstring" where
  "replaceFirst s pat repl =
     (case indexOf s pat 0 of
        None \<Rightarrow> s
      | Some k \<Rightarrow>
          take k s @
          expandRepl repl pat (take k s) (drop (k + length pat) s) [] @
          drop (k + length pat) s)"

text \<open>
  \<open>/src\s*=\s*(['"])[^'"]*\1/i\<close> tried at the start of \<open>cs\<close>: the length of the match and
  the quote of the group. The run \<open>[^'"]*\<close> ends at the first quote, which must be the
  opening one; a shorter run would end before a code unit that is no quote at all.
\<close>

definition isQuote :: "jschar \<Rightarrow> bool" where
  "isQuote c = (c = dquote \<or> c = squote)"

fun matchQuotedSrcAt :: "jsstring \<Rightarrow> (nat \<times> jschar) option" where
  "matchQuotedSrcAt (a # b # c # rest) =
     (if ciEq a 115 \<and> ciEq b 114 \<and> ciEq c 99 then
        (case dropWhile isReSpace rest of
           [] \<Rightarrow> None
         | e # r2 \<Rightarrow>
             (if e = 61 then
                (case dropWhile isReSpace r2 of
                   [] \<Rightarrow> None
                 | q # r4 \<Rightarrow>
                     (if isQuote q then
                        (case dropWhile (\<lambda>x. \<not> isQuote x) r4 of
                           [] \<Rightarrow> None
                         | q' # r6 \<Rightarrow>
                             (if q' = q
                              then Some (3 + length (takeWhile isReSpace rest) + 1 +
                                         length (takeWhile isReSpace r2) + 1 +
                                         length (takeWhile (\<lambda>x. \<not> isQuote x) r4) + 1, q)
                              else None))
                      else None))
              else None))
      else None)"
| "matchQuotedSrcAt _ = None"

text \<open>The leftmost match: its start, its length and the quote.\<close>

fun findQuotedSrc :: "jsstring \<Rightarrow> nat \<Rightarrow> (nat \<times> nat \<times> jschar) option" where
  "findQuotedSrc [] k = None"
| "findQuotedSrc (c # cs) k =
     (case matchQuotedSrcAt (c # cs) of
        Some (n, q) \<Rightarrow> Some (k, n, q)
      | None \<Rightarrow> findQuotedSrc cs (Suc k))"

text \<open>\<open>tag.fullMatch.replace(/src\s*=\s*(['"])[^'"]*\1/i, repl)\<close>.\<close>

definition replaceSrc :: "jsstring \<Rightarrow> jsstring \<Rightarrow> jsstring" where
  "replaceSrc fm repl =
     (case findQuotedSrc fm 0 of
        None \<Rightarrow> fm
      | Some (k, n, q) \<Rightarrow>
          take k fm @
          expandRepl repl (take n (drop k fm)) (take k fm) (drop (k + n) fm) [[q]] @
          drop (k + n) fm)"

definition ERROR_IMAGE_PATH :: jsstring where
  "ERROR_IMAGE_PATH = asc ''/scripts/extensions/third-party/sillyimages/error.svg''"

text \<open>The check mark of the completion marker, U+2713.\<close>

abbreviation checkMark :: jschar where "checkMark \<equiv> 10003"

text \<open>What a directive ends with: the stored path of its image, or the message of the
  error that ended its generation.\<close>

datatype outcome = Saved jsstring | Failed jsstring

text \<open>The text put in place of \<open>fullMatch\<close>, before the template is expanded: lines 1195,
  1198, 1211 and 1214.\<close>

fun replacementOf :: "tag \<Rightarrow> outcome \<Rightarrow> jsstring" where
  "replacementOf t (Saved imagePath) =
     (if isNewFormat t then replaceSrc (fullMatch t) (asc ''src=\"'' @ imagePath @ [dquote])
      else asc ''[IMG:'' @ [checkMark] @ [58] @ imagePath @ [rbracket])"
| "replacementOf t (Failed msg) =
     (if isNewFormat t then replaceSrc (fullMatch t) (asc ''src=\"'' @ ERROR_IMAGE_PATH @ [dquote])
      else asc ''[IMG:ERROR:'' @ substring msg 0 50 @ [rbracket])"

text \<open>\<open>message.mes = message.mes.replace(tag.fullMatch, ...)\<close>, lines 1196, 1199, 1212 and
  1215.\<close>

definition patchMessage :: "jsstring \<Rightarrow> tag \<Rightarrow> outcome \<Rightarrow> jsstring" where
  "patchMessage text t out = replaceFirst text (fullMatch t) (replacementOf t out)"

subsection \<open>Words of the specification about the patch\<close>

text \<open>
  A text of the shape the regular expression of the patch looks for: \<open>src\<close> in either
  case, white space, \<open>=\<close>, white space, a quote, any code units but quotes, the same
  quote.
\<close>

definition isSrcAssignment :: "jsstring \<Rightarrow> bool" where
  "isSrcAssignment m =
     (\<exists>a b c w1 w2 q v.
        m = [a, b, c] @ w1 @ [61] @ w2 @ [q] @ v @ [q] \<and>
        ciEq a 115 \<and> ciEq b 114 \<and> ciEq c 99 \<and>
        list_all isReSpace w1 \<and> list_all isReSpace w2 \<and> isQuote q \<and>
        list_all (\<lambda>x. \<not> isQuote x) v)"

text \<open>Such a text stands in \<open>fm\<close> at position \<open>j\<close> with length \<open>n\<close>.\<close>

definition srcAssignmentAt :: "jsstring \<Rightarrow> nat \<Rightarrow> nat \<Rightarrow> bool" where
  "srcAssignmentAt fm j n = (j + n \<le> length fm \<and> isSrcAssignment (take n (drop j fm)))"

section \<open>Processing the directives of a message\<close>

text \<open>The message of the error that \<open>validateSettings\<close> throws (line 636), as UTF-16 code
  units: the Russian prefix, then the texts of the missing settings joined by a comma and
  a space.\<close>

fun configErrorText :: "configError \<Rightarrow> jsstring" where
  "configErrorText MissingEndpoint =
     [85, 82, 76, 32, 1101, 1085, 1076, 1087, 1086, 1080, 1085, 1090, 1072, 32, 1085, 1077, 32,
      1085, 1072, 1089, 1090, 1088, 1086, 1077, 1085]"
| "configErrorText MissingApiKey =
     [65, 80, 73, 32, 1082, 1083, 1102, 1095, 32, 1085, 1077, 32, 1085, 1072, 1089, 1090, 1088,
      1086, 1077, 1085]"
| "configErrorText MissingModel =
     [1052, 1086, 1076, 1077, 1083, 1100, 32, 1085, 1077, 32, 1074, 1099, 1073, 1088, 1072, 1085,
      1072]"

definition configMessage :: "configError list \<Rightarrow> jsstring" where
  "configMessage errs =
     [1054, 1096, 1080, 1073, 1082, 1072, 32, 1085, 1072, 1089, 1090, 1088, 1086, 1077, 1082, 58, 32] @
     intersperse (asc '', '') (map configErrorText errs)"

text \<open>The options of line 1173.\<close>

definition tagOptions :: "nat \<Rightarrow> tag \<Rightarrow> genOptions" where
  "tagOptions messageId t =
     \<lparr>opt_aspectRatio = aspectRatio t, opt_imageSize = imageSize t, opt_quality = quality t,
      opt_preset = preset t, opt_messageId = messageId\<rparr>"

text \<open>
  How a call of \<open>processTag\<close> ends: with a patch of the message text for an outcome, or
  with a rejected promise and no patch.
\<close>

datatype tagResult = Patch outcome | Reject

fun isStr :: "jsval \<Rightarrow> bool" where
  "isStr (JStr s) = True"
| "isStr _ = False"

text \<open>
  Lines 1168-1219, from the result of \<open>generateImageWithRetry\<close> on. After the image is
  stored, line 1183 puts the style and the prompt in a template literal, which throws the
  TypeError of a value without a string form inside the \<open>try\<close>. In the \<open>catch\<close> block
  \<open>error.message\<close> of the \<open>undefined\<close> that an empty retry loop throws is a TypeError of
  its own, which nothing catches.
\<close>

definition afterGeneration :: "env \<Rightarrow> tag \<Rightarrow> (configError list + thrown + jsstring) \<Rightarrow> tagResult" where
  "afterGeneration e t r =
     (case r of
        Inl errs \<Rightarrow> Patch (Failed (configMessage errs))
      | Inr (Inl (Thrown msg)) \<Rightarrow> Patch (Failed msg)
      | Inr (Inl ThrownUndefined) \<Rightarrow> Reject
      | Inr (Inr dataUrl) \<Rightarrow>
          (case saveImageToFile e dataUrl of
             Inl (Thrown msg) \<Rightarrow> Patch (Failed msg)
           | Inl ThrownUndefined \<Rightarrow> Reject
           | Inr imagePath \<Rightarrow>
               (if toStr e (style t) = None \<or> toStr e (prompt t) = None
                then Patch (Failed (typeErrorMessage e))
                else Patch (Saved imagePath))))"

text \<open>
  \<open>processTag\<close>, lines 1054-1220, without the elements of the page: the events of the
  generation, when \<open>generateImageWithRetry\<close> is called at all, and the end of the call.
  For a directive of the image-element format line 1064 calls \<open>tag.prompt.substring\<close>
  outside the \<open>try\<close>, which throws when the prompt is not a string; the generation
  is then never started.
\<close>

definition processTag ::
    "env \<Rightarrow> settings \<Rightarrow> message list \<Rightarrow> nat \<Rightarrow> tag \<Rightarrow> event list option \<times> tagResult" where
  "processTag e st chat messageId t =
     (if isNewFormat t \<and> \<not> isStr (prompt t) then (None, Reject)
      else
        (case generateImageWithRetry e st chat (prompt t) (style t) (tagOptions messageId t) of
           (evs, r) \<Rightarrow> (Some evs, afterGeneration e t r)))"

subsection \<open>Calls in flight\<close>

text \<open>
  \<open>processMessageTags\<close> is an \<open>async\<close> function: a call runs until its next \<open>await\<close>,
  and other calls run before it resumes. What can be seen of the calls from outside:
  \<^item> \<open>AlreadyProcessing m\<close>: the warning of line 1022;
  \<^item> \<open>MarkerAdded m\<close>, \<open>MarkerDeleted m\<close>: \<open>processingMessages.add\<close> and \<open>.delete\<close>;
  \<^item> \<open>GenerationRun m i evs\<close>: the generation for directive \<open>i\<close> of message \<open>m\<close> with
    its events (status texts, backend calls, sleeps), recorded when its \<open>processTag\<close>
    ends;
  \<^item> \<open>TextPatched m i txt\<close>: \<open>message.mes\<close> of message \<open>m\<close> set to \<open>txt\<close>;
  \<^item> \<open>SaveChatCalled texts\<close>: \<open>saveChat\<close> called, with the texts of the chat at that
    moment; \<open>SaveChatDone\<close>: its promise resolved.
\<close>

datatype effect =
    AlreadyProcessing nat
  | MarkerAdded nat
  | MarkerDeleted nat
  | GenerationRun nat nat "event list"
  | TextPatched nat nat jsstring
  | SaveChatCalled "jsstring list"
  | SaveChatDone

text \<open>
  Where a call is suspended:
  \<^item> \<open>AwaitParse m tags\<close>: at line 1029, on the scan that will deliver \<open>tags\<close>;
  \<^item> \<open>AwaitBatch m pending joined\<close>: the calls of \<open>processTag\<close> of line 1223 that have not
    ended yet, each with its index, its directive and what it will end with; \<open>joined\<close>
    holds while \<open>processMessageTags\<close> still waits for them, and no longer once one of
    them was rejected and the function has left through its \<open>finally\<close> block;
  \<^item> \<open>AwaitSave m\<close>: at line 1224, on \<open>saveChat\<close>;
  \<^item> \<open>Finished\<close>: the call has returned.
\<close>

datatype pc =
    AwaitParse nat "tag list"
  | AwaitBatch nat "(nat \<times> tag \<times> event list option \<times> tagResult) list" bool
  | AwaitSave nat
  | Finished

text \<open>The set \<open>processingMessages\<close> of line 3, the chat of the host, what has happened so
  far, and the calls made so far.\<close>

record sys =
  processingMessages :: "nat set"
  messages :: "message list"
  trace :: "effect list"
  tasks :: "pc list"

definition emit :: "effect list \<Rightarrow> sys \<Rightarrow> sys" where
  "emit evs s = s\<lparr>trace := trace s @ evs\<rparr>"

text \<open>The generation of a directive in the trace, when there was one.\<close>

fun generationEffect :: "nat \<Rightarrow> nat \<Rightarrow> event list option \<Rightarrow> effect list" where
  "generationEffect m i None = []"
| "generationEffect m i (Some evs) = [GenerationRun m i evs]"

text \<open>\<open>message.mes = message.mes.replace(...)\<close> on the message \<open>m\<close> of the chat.\<close>

definition setMes :: "nat \<Rightarrow> jsstring \<Rightarrow> sys \<Rightarrow> sys" where
  "setMes m txt s = s\<lparr>messages := (messages s)[m := (messages s ! m)\<lparr>mes := txt\<rparr>]\<rparr>"

text \<open>
  Lines 1015-1029: a new call, up to its first \<open>await\<close>. The scan gets the text the
  message has at this moment and asks the host whether files exist.
\<close>

definition processMessageTags_start :: "env \<Rightarrow> settings \<Rightarrow> nat \<Rightarrow> sys \<Rightarrow> sys \<times> pc" where
  "processMessageTags_start e st messageId s =
     (if \<not> enabled st then (s, Finished)
      else if messageId \<in> processingMessages s then (emit [AlreadyProcessing messageId] s, Finished)
      else if messageId \<ge> length (messages s) \<or> is_user (messages s ! messageId) then (s, Finished)
      else (s, AwaitParse messageId
                 (fst (parseImageTags (fileExists e) (mes (messages s ! messageId))
                         \<lparr>checkExistence = True, forceAll = False\<rparr>))))"

text \<open>\<open>tags.map((tag, index) => ...)\<close>: the directives with their indices.\<close>

definition indexed :: "'a list \<Rightarrow> (nat \<times> 'a) list" where
  "indexed xs = zip [0 ..< length xs] xs"

text \<open>
  A suspended call goes on to its next \<open>await\<close>.
  \<^item> After the scan (lines 1030-1223): without directives the call returns. Else the
    marker is added, and, when the page holds the message, every \<open>processTag\<close> is
    called; each reads the chat at this moment for its reference images.
  \<^item> In the batch, the first pending \<open>processTag\<close> ends (the directives of a batch end in
    the order of their indices here; the network decides in the program). Its patch is
    applied to the text the message has by then. A rejection makes \<open>Promise.all\<close>
    reject: the function leaves through \<open>finally\<close>, which deletes the marker, while
    the other calls of \<open>processTag\<close> go on. When the last one has ended and none was
    rejected, \<open>saveChat\<close> is called (line 1224).
  \<^item> After \<open>saveChat\<close> (taken to succeed) the \<open>finally\<close> block deletes the marker.
\<close>

fun processMessageTags_resume :: "env \<Rightarrow> settings \<Rightarrow> pc \<Rightarrow> sys \<Rightarrow> sys \<times> pc" where
  "processMessageTags_resume e st (AwaitParse m tags) s =
     (if tags = [] then (s, Finished)
      else
        (let s1 = emit [MarkerAdded m] (s\<lparr>processingMessages := insert m (processingMessages s)\<rparr>)
         in if \<not> domReady e m
            then (emit [MarkerDeleted m] (s1\<lparr>processingMessages := processingMessages s1 - {m}\<rparr>),
                  Finished)
            else (s1, AwaitBatch m
                        (map (\<lambda>(i, t). (i, t, processTag e st (messages s) m t)) (indexed tags))
                        True)))"
| "processMessageTags_resume e st (AwaitBatch m [] joined) s = (s, Finished)"
| "processMessageTags_resume e st (AwaitBatch m ((i, t, evs, r) # rest) joined) s =
     (case r of
        Patch out \<Rightarrow>
          (let txt = patchMessage (mes (messages s ! m)) t out;
               s1 = emit (generationEffect m i evs @ [TextPatched m i txt]) (setMes m txt s)
           in if rest \<noteq> [] then (s1, AwaitBatch m rest joined)
              else if joined then (emit [SaveChatCalled (map mes (messages s1))] s1, AwaitSave m)
              else (s1, Finished))
      | Reject \<Rightarrow>
          (let s1 = emit (generationEffect m i evs) s;
               s2 = (if joined
                     then emit [MarkerDeleted m] (s1\<lparr>processingMessages := processingMessages s1 - {m}\<rparr>)
                     else s1)
           in (s2, if rest \<noteq> [] then AwaitBatch m rest False else Finished)))"
| "processMessageTags_resume e st (AwaitSave m) s =
     (emit [SaveChatDone, MarkerDeleted m] (s\<lparr>processingMessages := processingMessages s - {m}\<rparr>),
      Finished)"
| "processMessageTags_resume e st Finished s = (s, Finished)"

text \<open>What the event loop does next: the host triggers \<open>processMessageTags\<close> for a
  message, or the \<open>k\<close>-th call made so far resumes.\<close>

datatype action = Trigger nat | Resume nat

fun perform :: "env \<Rightarrow> settings \<Rightarrow> sys \<Rightarrow> action \<Rightarrow> sys" where
  "perform e st s (Trigger m) =
     (case processMessageTags_start e st m s of (s1, p) \<Rightarrow> s1\<lparr>tasks := tasks s1 @ [p]\<rparr>)"
| "perform e st s (Resume k) =
     (if k < length (tasks s)
      then (case processMessageTags_resume e st (tasks s ! k) s of
              (s1, p) \<Rightarrow> s1\<lparr>tasks := (tasks s1)[k := p]\<rparr>)
      else s)"

definition runSchedule :: "env \<Rightarrow> settings \<Rightarrow> action list \<Rightarrow> sys \<Rightarrow> sys" where
  "runSchedule e st acts s = foldl (perform e st) s acts"

text \<open>A chat at rest: no call in flight, nothing has happened.\<close>

definition idle :: "message list \<Rightarrow> sys" where
  "idle chat = \<lparr>processingMessages = {}, messages = chat, trace = [], tasks = []\<rparr>"

text \<open>The calls of the backend, the patches and the calls of \<open>saveChat\<close> in a trace.\<close>

fun isSideEffect :: "effect \<Rightarrow> bool" where
  "isSideEffect (GenerationRun m i evs) = True"
| "isSideEffect (TextPatched m i txt) = True"
| "isSideEffect (SaveChatCalled texts) = True"
| "isSideEffect _ = False"

subsection \<open>Concrete messages and hosts for the examples\<close>

text \<open>The message of the scenario with the generic backend, and the directive the scan
  finds in it.\<close>

definition scenarioText :: jsstring where
  \<open>scenarioText = asc ''The image [IMG:GEN:{"prompt":"a cat","style":"anime"}] appears.''\<close>

definition scenarioTag :: tag where
  \<open>scenarioTag =
     mkTag (JObj [(asc ''prompt'', JStr (asc ''a cat'')), (asc ''style'', JStr (asc ''anime''))])
       (asc ''[IMG:GEN:{"prompt":"a cat","style":"anime"}]'') 10 False None\<close>

text \<open>A host that stores every image in the folder of a character named \<open>Ca$$h\<close>.\<close>

definition cashHost :: env where
  "cashHost = exampleHost (Inr (asc ''data:image/png;base64,AAAA'')) (asc ''/user/images/Ca$$h/iig_1.png'')"

text \<open>A message that is one directive of the image-element format whose \<open>src\<close> names a
  file, that directive, and a host that has no such file (so that the scan waits for the
  answer of \<open>checkFileExists\<close>) and whose backend answers with an image.\<close>

definition twiceText :: jsstring where
  \<open>twiceText = asc ''<img data-iig-instruction='{"prompt":"a"}' src="/user/images/x.png">''\<close>

definition twiceTag :: tag where
  \<open>twiceTag =
     mkTag (JObj [(asc ''prompt'', JStr (asc ''a''))])
       (asc ''<img data-iig-instruction='{"prompt":"a"}' src="/user/images/x.png">'') 0 True
       (Some (asc ''/user/images/x.png''))\<close>

definition twiceHost :: env where
  "twiceHost =
     (exampleHost (Inr (asc ''data:image/png;base64,AAAA'')) (asc ''/user/images/iig_1.png''))
       \<lparr>fileExists := (\<lambda>p. False)\<rparr>"

section \<open>The scan is string-literal-aware\<close>

lemma renderItems_simps [simp]:
  "renderItems [] = []"
  "renderItems (it # its) = renderItem it @ renderItems its"
  by (simp_all add: renderItems_def)

lemma renderSegs_simps [simp]:
  "renderSegs [] = []"
  "renderSegs (s # segs) = renderSeg s @ renderSegs segs"
  by (simp_all add: renderSegs_def)

lemma scanBraces_in_string:
  "list_all wf_item its \<Longrightarrow>
   scanBraces (renderItems its @ dquote # rest) i d True False =
   scanBraces rest (i + length (renderItems its) + 1) d False False"
proof (induction its arbitrary: i)
  case Nil
  then show ?case by simp
next
  case (Cons it its)
  then show ?case by (cases it) simp_all
qed

lemma scanBraces_open_string:
  "list_all wf_item its \<Longrightarrow> scanBraces (renderItems its) i d True False = None"
proof (induction its arbitrary: i)
  case Nil
  then show ?case by simp
next
  case (Cons it its)
  then show ?case
    by (cases it; cases its) simp_all
qed

lemma scanBraces_open_string_backslash:
  "list_all wf_item its \<Longrightarrow> scanBraces (renderItems its @ [backslash]) i d True False = None"
proof (induction its arbitrary: i)
  case Nil
  then show ?case by simp
next
  case (Cons it its)
  then show ?case by (cases it) simp_all
qed

lemma scanBraces_segs:
  "list_all wf_seg segs \<Longrightarrow>
   scanBraces (renderSegs segs @ tail) i d False False =
   (case specScan d segs i of
      Some e \<Rightarrow> Some e
    | None \<Rightarrow> scanBraces tail (i + length (renderSegs segs)) (segDepth d segs) False False)"
proof (induction segs arbitrary: i d)
  case Nil
  then show ?case by simp
next
  case (Cons s segs)
  show ?case
  proof (cases s)
    case (Out c)
    with Cons show ?thesis by (simp split: option.splits)
  next
    case (StrLit its)
    with Cons.prems have wf: "list_all wf_item its" and wfs: "list_all wf_seg segs" by simp_all
    have "scanBraces (renderSegs (s # segs) @ tail) i d False False =
          scanBraces (renderItems its @ dquote # (renderSegs segs @ tail)) (Suc i) d True False"
      using StrLit by simp
    also have "\<dots> = scanBraces (renderSegs segs @ tail) (Suc i + length (renderItems its) + 1) d False False"
      using wf by (rule scanBraces_in_string)
    finally show ?thesis
      using Cons.IH [OF wfs] StrLit by (simp add: add.commute add.left_commute split: option.splits)
  qed
qed

lemma specScan_closing_brace:
  "specScan d segs k = Some e \<Longrightarrow>
   \<exists>s1 s2. segs = s1 @ Out rbrace # s2 \<and> e = k + length (renderSegs s1) + 1 \<and>
           segDepth d s1 = 1 \<and> specScan d s1 k = None"
proof (induction segs arbitrary: d k)
  case Nil
  then show ?case by simp
next
  case (Cons s segs)
  show ?case
  proof (cases s)
    case (StrLit its)
    with Cons.prems have "specScan d segs (k + length (renderSeg (StrLit its))) = Some e" by simp
    from Cons.IH [OF this] obtain s1 s2 where
      h: "segs = s1 @ Out rbrace # s2" "e = k + length (renderSeg (StrLit its)) + length (renderSegs s1) + 1"
         "segDepth d s1 = 1" "specScan d s1 (k + length (renderSeg (StrLit its))) = None"
      by blast
    have "s # segs = (s # s1) @ Out rbrace # s2" using h(1) by simp
    moreover have "e = k + length (renderSegs (s # s1)) + 1"
      using h(2) StrLit by simp
    moreover have "segDepth d (s # s1) = 1" using h(3) StrLit by simp
    moreover have "specScan d (s # s1) k = None" using h(4) StrLit by simp
    ultimately show ?thesis by blast
  next
    case (Out c)
    show ?thesis
    proof (cases "c = rbrace \<and> d - 1 = 0")
      case True
      with Cons.prems Out have "e = Suc k" by simp
      then have "s # segs = [] @ Out rbrace # segs \<and> e = k + length (renderSegs []) + 1 \<and>
                 segDepth d [] = 1 \<and> specScan d [] k = None"
        using True Out by simp
      then show ?thesis by blast
    next
      case False
      define d' where "d' = (if c = lbrace then d + 1 else if c = rbrace then d - 1 else d)"
      from False Cons.prems Out have "specScan d' segs (Suc k) = Some e"
        by (auto simp: d'_def split: if_splits)
      from Cons.IH [OF this] obtain s1 s2 where
        h: "segs = s1 @ Out rbrace # s2" "e = Suc k + length (renderSegs s1) + 1"
           "segDepth d' s1 = 1" "specScan d' s1 (Suc k) = None"
        by blast
      have "s # segs = (s # s1) @ Out rbrace # s2" using h(1) by simp
      moreover have "e = k + length (renderSegs (s # s1)) + 1"
        using h(2) Out by simp
      moreover have "segDepth d (s # s1) = 1" using h(3) Out by (simp add: d'_def)
      moreover have "specScan d (s # s1) k = None"
        using h(4) Out False by (auto simp: d'_def)
      ultimately show ?thesis by blast
    qed
  qed
qed

lemma renderItems_append [simp]: "renderItems (a @ b) = renderItems a @ renderItems b"
  by (simp add: renderItems_def)

lemma renderSegs_append [simp]: "renderSegs (a @ b) = renderSegs a @ renderSegs b"
  by (simp add: renderSegs_def)

text \<open>Every text reads in exactly the way the specification assumes: segments, then
  nothing or a string literal that is still open at the end of the text.\<close>

lemma text_has_segments:
  "\<exists>segs its tail. list_all wf_seg segs \<and> list_all wf_item its \<and>
     (tail = [] \<or> tail = dquote # renderItems its \<or> tail = dquote # renderItems its @ [backslash]) \<and>
     cs = renderSegs segs @ tail"
proof (induction cs rule: rev_induct)
  case Nil
  have "list_all wf_seg [] \<and> list_all wf_item [] \<and> ([] = ([]::jsstring)) \<and> [] = renderSegs [] @ []"
    by simp
  then show ?case by blast
next
  case (snoc c cs)
  then obtain segs its tail where wf: "list_all wf_seg segs" "list_all wf_item its"
    and tl: "tail = [] \<or> tail = dquote # renderItems its \<or> tail = dquote # renderItems its @ [backslash]"
    and cs: "cs = renderSegs segs @ tail" by blast
  from tl consider (closed) "tail = []" | (open_lit) "tail = dquote # renderItems its"
    | (open_esc) "tail = dquote # renderItems its @ [backslash]" by blast
  then show ?case
  proof cases
    case closed
    show ?thesis
    proof (cases "c = dquote")
      case True
      have "list_all wf_seg segs \<and> list_all wf_item [] \<and> [dquote] = dquote # renderItems [] \<and>
            cs @ [c] = renderSegs segs @ [dquote]"
        using wf cs closed True by simp
      then show ?thesis by blast
    next
      case False
      have "list_all wf_seg (segs @ [Out c]) \<and> list_all wf_item [] \<and> ([]::jsstring) = [] \<and>
            cs @ [c] = renderSegs (segs @ [Out c]) @ []"
        using wf cs closed False by simp
      then show ?thesis by blast
    qed
  next
    case open_lit
    consider (q) "c = dquote" | (s) "c = backslash" | (p) "c \<noteq> dquote" "c \<noteq> backslash" by blast
    then show ?thesis
    proof cases
      case q
      have "list_all wf_seg (segs @ [StrLit its]) \<and> list_all wf_item [] \<and> ([]::jsstring) = [] \<and>
            cs @ [c] = renderSegs (segs @ [StrLit its]) @ []"
        using wf cs open_lit q by simp
      then show ?thesis by blast
    next
      case s
      have "list_all wf_seg segs \<and> list_all wf_item its \<and>
            tail @ [c] = dquote # renderItems its @ [backslash] \<and>
            cs @ [c] = renderSegs segs @ (tail @ [c])"
        using wf cs open_lit s by simp
      then show ?thesis by blast
    next
      case p
      have "list_all wf_seg segs \<and> list_all wf_item (its @ [Plain c]) \<and>
            tail @ [c] = dquote # renderItems (its @ [Plain c]) \<and>
            cs @ [c] = renderSegs segs @ (tail @ [c])"
        using wf cs open_lit p by simp
      then show ?thesis by blast
    qed
  next
    case open_esc
    have "list_all wf_seg segs \<and> list_all wf_item (its @ [Escaped c]) \<and>
          tail @ [c] = dquote # renderItems (its @ [Escaped c]) \<and>
          cs @ [c] = renderSegs segs @ (tail @ [c])"
      using wf cs open_esc by simp
    then show ?thesis by blast
  qed
qed
text \<open>
  C3. For every text that continues, from \<open>jsonStart\<close> on, with code units outside
  strings and complete double-quoted string literals (and possibly ends in a literal
  that is never closed), the scan of both formats returns the specified end: the
  content of a string literal, closing braces and escaped quotes included, never
  closes the payload, and a returned end is one past a closing brace that stands
  outside every literal and brings the depth counted outside literals back to zero,
  no earlier closing brace doing so.
\<close>

theorem scanBraces_string_literal_aware:
  assumes "list_all wf_seg segs" and "list_all wf_item its"
    and "tail = [] \<or> tail = dquote # renderItems its \<or> tail = dquote # renderItems its @ [backslash]"
  shows "findJsonEnd (pre @ renderSegs segs @ tail) (length pre) = specScan 0 segs (length pre) \<and>
         (\<forall>e. specScan 0 segs (length pre) = Some e \<longrightarrow>
            (\<exists>s1 s2. segs = s1 @ Out rbrace # s2 \<and> e = length pre + length (renderSegs s1) + 1 \<and>
                     segDepth 0 s1 = 1 \<and> specScan 0 s1 (length pre) = None))"
proof -
  have t: "scanBraces tail k d False False = None" for k d
    using assms(2,3) scanBraces_open_string [of its] scanBraces_open_string_backslash [of its]
    by auto
  have "findJsonEnd (pre @ renderSegs segs @ tail) (length pre) =
        scanBraces (renderSegs segs @ tail) (length pre) 0 False False"
    by (simp add: findJsonEnd_def)
  also have "\<dots> = specScan 0 segs (length pre)"
    using scanBraces_segs [OF assms(1), of tail "length pre" 0] t
    by (simp split: option.splits)
  finally show ?thesis using specScan_closing_brace by blast
qed

theorem scanBraces_string_literal_aware_witness:
  \<open>findJsonEnd (asc ''x{"p":"a } '' @ [backslash, dquote] @ asc '' }"} y'') 1 = Some 17\<close>
proof -
  let ?segs = "[Out lbrace, StrLit [Plain 112], Out 58,
                StrLit [Plain 97, Plain 32, Plain rbrace, Plain 32, Escaped dquote, Plain 32, Plain rbrace],
                Out rbrace, Out 32, Out 121]"
  have "list_all wf_seg ?segs" by simp
  moreover have "list_all wf_item []" by simp
  ultimately have "findJsonEnd ([120] @ renderSegs ?segs @ []) (length [120::nat]) =
                   specScan 0 ?segs (length [120::nat])"
    using scanBraces_string_literal_aware [of ?segs "[]" "[]" "[120]"] by blast
  then show ?thesis by (simp add: asc_def)
qed

section \<open>The legacy candidate and its closing bracket\<close>

lemma substring_take_drop:
  "a \<le> b \<Longrightarrow> b \<le> length s \<Longrightarrow> substring s a b = take (b - a) (drop a s)"
  by (simp add: substring_def Let_def min_def max_def)

lemma replaceAllChar_single:
  "replaceAllChar c [d] s = map (\<lambda>x. if x = c then d else x) s"
  by (induction s) (simp_all add: replaceAllChar_def)

lemma tryPush_tags:
  "t \<in> set (fst (tryPush parsed mk ip wm)) \<Longrightarrow> \<exists>data. parsed = Some data \<and> t = mk data"
  by (auto simp: tryPush_def split: option.splits if_splits)

lemma text_split3:
  assumes "a \<le> b" "b < length s"
  shows "s = take a s @ take (b - a) (drop a s) @ s ! b # drop (b + 1) s"
proof -
  have "drop a s = take (b - a) (drop a s) @ drop (b - a) (drop a s)"
    by (rule append_take_drop_id [symmetric])
  also have "drop (b - a) (drop a s) = drop b s" using assms by simp
  also have "drop b s = s ! b # drop (b + 1) s" using assms by (simp add: Cons_nth_drop_Suc)
  finally have "drop a s = take (b - a) (drop a s) @ s ! b # drop (b + 1) s" .
  then have "take a s @ drop a s = take a s @ take (b - a) (drop a s) @ s ! b # drop (b + 1) s"
    by simp
  then show ?thesis by simp
qed

lemma legacy_payload_shape:
  assumes mi: "indexOf text marker searchStart = Some markerIndex"
    and je: "findJsonEnd text (markerIndex + length marker) = Some jsonEnd"
    and br: "jsonEnd < length text"
  shows "text = take markerIndex text @ marker @
                substring text (markerIndex + length marker) jsonEnd @ text ! jsonEnd # drop (jsonEnd + 1) text"
    and "substring text markerIndex (jsonEnd + 1) =
         marker @ substring text (markerIndex + length marker) jsonEnd @ [text ! jsonEnd]"
    and "substring text (markerIndex + length marker) jsonEnd \<noteq> []"
    and "last (substring text (markerIndex + length marker) jsonEnd) = rbrace"
proof -
  from indexOf_Some [OF mi] have m: "markerIndex + 9 \<le> length text"
    "take 9 (drop markerIndex text) = marker" by simp_all
  from findJsonEnd_Some [OF je] have j: "markerIndex + 9 < jsonEnd" "jsonEnd \<le> length text"
    "text ! (jsonEnd - 1) = rbrace" by simp_all
  let ?p = "substring text (markerIndex + length marker) jsonEnd"
  have p: "?p = take (jsonEnd - (markerIndex + 9)) (drop (markerIndex + 9) text)"
    using j by (simp add: substring_take_drop)
  have mid: "take (jsonEnd - markerIndex) (drop markerIndex text) = marker @ ?p"
  proof -
    have "jsonEnd - markerIndex = 9 + (jsonEnd - (markerIndex + 9))" using j by arith
    then have "take (jsonEnd - markerIndex) (drop markerIndex text) =
               take 9 (drop markerIndex text) @
               take (jsonEnd - (markerIndex + 9)) (drop 9 (drop markerIndex text))"
      by (simp only: take_add)
    then show ?thesis using m p by (simp add: add.commute)
  qed
  have "text = take markerIndex text @ take (jsonEnd - markerIndex) (drop markerIndex text) @
               text ! jsonEnd # drop (jsonEnd + 1) text"
    using text_split3 [of markerIndex jsonEnd "text"] j br by simp
  then show "text = take markerIndex text @ marker @ ?p @ text ! jsonEnd # drop (jsonEnd + 1) text"
    using mid by simp
  have "substring text markerIndex (jsonEnd + 1) = take (jsonEnd + 1 - markerIndex) (drop markerIndex text)"
    using j br by (simp add: substring_take_drop)
  also have "jsonEnd + 1 - markerIndex = (jsonEnd - markerIndex) + 1" using j by arith
  also have "take ((jsonEnd - markerIndex) + 1) (drop markerIndex text) =
             take (jsonEnd - markerIndex) (drop markerIndex text) @
             take 1 (drop (jsonEnd - markerIndex) (drop markerIndex text))"
    by (simp only: take_add)
  also have "drop (jsonEnd - markerIndex) (drop markerIndex text) = drop jsonEnd text"
    using j by simp
  also have "take 1 (drop jsonEnd text) = [text ! jsonEnd]"
    using br by (simp add: Cons_nth_drop_Suc [symmetric])
  finally show "substring text markerIndex (jsonEnd + 1) = marker @ ?p @ [text ! jsonEnd]"
    using mid by simp
  have len: "length ?p = jsonEnd - (markerIndex + 9)" using p j by simp
  then show ne: "?p \<noteq> []" using j by auto
  have "last ?p = ?p ! (length ?p - 1)" using ne by (rule last_conv_nth)
  also have "\<dots> = drop (markerIndex + 9) text ! (jsonEnd - (markerIndex + 9) - 1)"
    using len j p by simp
  also have "\<dots> = text ! (markerIndex + 9 + (jsonEnd - (markerIndex + 9) - 1))"
    using j by simp
  also have "markerIndex + 9 + (jsonEnd - (markerIndex + 9) - 1) = jsonEnd - 1" using j by arith
  finally show "last ?p = rbrace" using j by simp
qed

text \<open>One round of the legacy loop, once the marker and the end of the scan are known.\<close>

lemma legacyStep_found:
  assumes "indexOf text marker searchStart = Some markerIndex"
    and "findJsonEnd text (markerIndex + length marker) = Some jsonEnd"
  shows "legacyStep text searchStart =
         (if jsonEnd < length text \<and> text ! jsonEnd = rbracket then
            (case tryPush (JSON_parse (normalizeQuotes (substring text (markerIndex + length marker) jsonEnd)))
                    (\<lambda>data. mkTag data (substring text markerIndex (jsonEnd + 1)) markerIndex False None)
                    (asc ''Found LEGACY format tag: '')
                    (asc ''Failed to parse legacy tag JSON: '' @
                       substring (substring text (markerIndex + length marker) jsonEnd) 0 100) of
               (ts, ls) \<Rightarrow> Continue (jsonEnd + 1) ts ls)
          else Continue jsonEnd [] [])"
  using assms
  by (simp add: legacyStep_def Let_def startsWith_substring_rest replaceAllChar_single normalizeQuotes_def)


lemma tryPush_None [simp]: "tryPush None mk ip wm = ([], [(WARN, wm)])"
  by (simp add: tryPush_def)

text \<open>
  C8. Take a legacy candidate: the marker \<open>[IMG:GEN:\<close> found at \<open>markerIndex\<close>, the scan
  from just after it ending at \<open>jsonEnd\<close>, and the payload the text in between (it ends
  with the closing brace). If the code unit at \<open>jsonEnd\<close> is not \<open>]\<close> (or the text ends
  there), the round pushes nothing, logs nothing, and the search goes on from \<open>jsonEnd\<close>.
  If it is \<open>]\<close>, the text reads marker, payload, \<open>]\<close> at that place, what is parsed is
  the payload with every single quote turned into a double quote, the search goes on
  after the \<open>]\<close>, and every directive of the round has the marker through the \<open>]\<close> as
  its \<open>fullMatch\<close> and comes from a successful parse.
\<close>

theorem legacy_candidate_needs_bracket:
  assumes "indexOf text marker searchStart = Some markerIndex"
    and "findJsonEnd text (markerIndex + length marker) = Some jsonEnd"
  defines "payload \<equiv> substring text (markerIndex + length marker) jsonEnd"
  defines "normalized \<equiv> normalizeQuotes payload"
  shows "(\<not> (jsonEnd < length text \<and> text ! jsonEnd = rbracket) \<longrightarrow>
            legacyStep text searchStart = Continue jsonEnd [] []) \<and>
         (jsonEnd < length text \<and> text ! jsonEnd = rbracket \<longrightarrow>
            text = take markerIndex text @ marker @ payload @ rbracket # drop (jsonEnd + 1) text \<and>
            payload \<noteq> [] \<and> last payload = rbrace \<and>
            legacyStep text searchStart =
              (case tryPush (JSON_parse normalized)
                      (\<lambda>data. mkTag data (marker @ payload @ [rbracket]) markerIndex False None)
                      (asc ''Found LEGACY format tag: '')
                      (asc ''Failed to parse legacy tag JSON: '' @ substring payload 0 100) of
                 (ts, ls) \<Rightarrow> Continue (jsonEnd + 1) ts ls) \<and>
            (\<forall>t \<in> set (stepTags (legacyStep text searchStart)).
               fullMatch t = marker @ payload @ [rbracket] \<and> index t = markerIndex \<and>
               (\<exists>data. JSON_parse normalized = Some data \<and>
                  t = mkTag data (marker @ payload @ [rbracket]) markerIndex False None)))"
proof (intro conjI impI)
  assume "\<not> (jsonEnd < length text \<and> text ! jsonEnd = rbracket)"
  then show "legacyStep text searchStart = Continue jsonEnd [] []"
    using assms(1,2) by (simp add: legacyStep_def Let_def startsWith_substring_rest)
next
  assume br: "jsonEnd < length text \<and> text ! jsonEnd = rbracket"
  note shape = legacy_payload_shape [OF assms(1,2), folded payload_def]
  from br shape(1) show "text = take markerIndex text @ marker @ payload @ rbracket # drop (jsonEnd + 1) text"
    by simp
  from br shape(3) show "payload \<noteq> []" by simp
  from br shape(4) show "last payload = rbrace" by simp
  have full: "substring text markerIndex (jsonEnd + 1) = marker @ payload @ [rbracket]"
    using br shape(2) by simp
  show step: "legacyStep text searchStart =
              (case tryPush (JSON_parse normalized)
                      (\<lambda>data. mkTag data (marker @ payload @ [rbracket]) markerIndex False None)
                      (asc ''Found LEGACY format tag: '')
                      (asc ''Failed to parse legacy tag JSON: '' @ substring payload 0 100) of
                 (ts, ls) \<Rightarrow> Continue (jsonEnd + 1) ts ls)"
    using assms(1,2) br full unfolding payload_def normalized_def
    by (simp add: legacyStep_def Let_def startsWith_substring_rest replaceAllChar_single normalizeQuotes_def)
  show "\<forall>t \<in> set (stepTags (legacyStep text searchStart)).
          fullMatch t = marker @ payload @ [rbracket] \<and> index t = markerIndex \<and>
          (\<exists>data. JSON_parse normalized = Some data \<and>
             t = mkTag data (marker @ payload @ [rbracket]) markerIndex False None)"
  proof
    fix t assume t: "t \<in> set (stepTags (legacyStep text searchStart))"
    obtain ts ls where tp: "tryPush (JSON_parse normalized)
        (\<lambda>data. mkTag data (marker @ payload @ [rbracket]) markerIndex False None)
        (asc ''Found LEGACY format tag: '')
        (asc ''Failed to parse legacy tag JSON: '' @ substring payload 0 100) = (ts, ls)"
      by (cases "tryPush (JSON_parse normalized)
        (\<lambda>data. mkTag data (marker @ payload @ [rbracket]) markerIndex False None)
        (asc ''Found LEGACY format tag: '')
        (asc ''Failed to parse legacy tag JSON: '' @ substring payload 0 100)") auto
    with step t have "t \<in> set (fst (tryPush (JSON_parse normalized)
        (\<lambda>data. mkTag data (marker @ payload @ [rbracket]) markerIndex False None)
        (asc ''Found LEGACY format tag: '')
        (asc ''Failed to parse legacy tag JSON: '' @ substring payload 0 100)))" by simp
    from tryPush_tags [OF this] obtain data where
      d: "JSON_parse normalized = Some data"
         "t = mkTag data (marker @ payload @ [rbracket]) markerIndex False None" by blast
    then show "fullMatch t = marker @ payload @ [rbracket] \<and> index t = markerIndex \<and>
          (\<exists>data. JSON_parse normalized = Some data \<and>
             t = mkTag data (marker @ payload @ [rbracket]) markerIndex False None)"
      by (auto simp: mkTag_def)
  qed
qed

theorem legacy_candidate_needs_bracket_witness:
  "legacyStep (asc ''a[IMG:GEN:{'p':'q'}]b'') 0 =
     Continue 20
       [mkTag (JObj [(asc ''p'', JStr (asc ''q''))]) (asc ''[IMG:GEN:{'p':'q'}]'') 1 False None]
       [(INFO, asc ''Found LEGACY format tag: undefined'')] \<and>
   legacyStep (asc ''a[IMG:GEN:{'p':'q'}b'') 0 = Continue 19 [] []"
proof -
  let ?T = "asc ''a[IMG:GEN:{'p':'q'}]b''"
  let ?U = "asc ''a[IMG:GEN:{'p':'q'}b''"
  have t1: "indexOf ?T marker 0 = Some 1" by code_simp
  have t2: "findJsonEnd ?T (1 + length marker) = Some 19" by code_simp
  have t3: "19 < length ?T \<and> ?T ! 19 = rbracket" by code_simp
  have t4: "tryPush (JSON_parse (normalizeQuotes (substring ?T (1 + length marker) 19)))
              (\<lambda>data. mkTag data (marker @ substring ?T (1 + length marker) 19 @ [rbracket]) 1 False None)
              (asc ''Found LEGACY format tag: '')
              (asc ''Failed to parse legacy tag JSON: '' @ substring (substring ?T (1 + length marker) 19) 0 100)
            = ([mkTag (JObj [(asc ''p'', JStr (asc ''q''))]) (asc ''[IMG:GEN:{'p':'q'}]'') 1 False None],
               [(INFO, asc ''Found LEGACY format tag: undefined'')])"
    by code_simp
  have a: "legacyStep ?T 0 = Continue 20
       [mkTag (JObj [(asc ''p'', JStr (asc ''q''))]) (asc ''[IMG:GEN:{'p':'q'}]'') 1 False None]
       [(INFO, asc ''Found LEGACY format tag: undefined'')]"
    using legacy_candidate_needs_bracket [OF t1 t2] t3 t4 by simp
  have u1: "indexOf ?U marker 0 = Some 1" by code_simp
  have u2: "findJsonEnd ?U (1 + length marker) = Some 19" by code_simp
  have u3: "\<not> (19 < length ?U \<and> ?U ! 19 = rbracket)" by code_simp
  have b: "legacyStep ?U 0 = Continue 19 [] []"
    using legacy_candidate_needs_bracket [OF u1 u2] u3 by blast
  from a b show ?thesis by blast
qed

section \<open>Facts about the JSON parser\<close>

lemma jsonRun_simps [simp]:
  "jsonRun s [] = s"
  "jsonRun s (c # cs) = jsonRun (jsonStep s c) cs"
  by (simp_all add: jsonRun_def)

lemma jsonRun_append: "jsonRun s (a @ b) = jsonRun (jsonRun s a) b"
  by (simp add: jsonRun_def)

lemma jsonStep_failed [simp]: "jsonStep (PS MFail st r) c = failed"
  by simp

lemma jsonRun_failed [simp]: "jsonRun failed cs = failed"
  by (induction cs) simp_all

lemma jsonRun_MFail: "pmode s = MFail \<Longrightarrow> jsonFinish (jsonRun s cs) = None"
proof (cases s)
  case (PS m st r)
  assume "pmode s = MFail"
  with PS have "jsonRun s cs = failed \<or> cs = []" by (cases cs) simp_all
  with PS \<open>pmode s = MFail\<close> show ?thesis by auto
qed

text \<open>A single quote is read only inside a string.\<close>

lemma afterValue_squote [simp]: "afterValue squote st r = failed"
  by (cases "(squote, st, r)" rule: afterValue.cases) (simp_all add: isWs_def)

lemma endNum_squote [simp]: "endNum a squote st r = failed"
  by (cases "(numVal a, st, r)" rule: deliver.cases) (simp_all add: endNum_def)

lemma numStep_squote [simp]: "numStep ns a squote st r = failed"
  by (cases ns) (simp_all add: isDigit_def isExpMark_def)

lemma litText_no_squote: "n < length (litText l) \<Longrightarrow> litText l ! n \<noteq> squote"
proof (cases l)
  case LTrue
  assume "n < length (litText l)"
  with LTrue have "n < 4" by (simp add: asc_def)
  then consider "n = 0" | "n = 1" | "n = 2" | "n = 3" by arith
  then show ?thesis using LTrue by cases (simp_all add: asc_def)
next
  case LFalse
  assume "n < length (litText l)"
  with LFalse have "n < 5" by (simp add: asc_def)
  then consider "n = 0" | "n = 1" | "n = 2" | "n = 3" | "n = 4" by arith
  then show ?thesis using LFalse by cases (simp_all add: asc_def)
next
  case LNull
  assume "n < length (litText l)"
  with LNull have "n < 4" by (simp add: asc_def)
  then consider "n = 0" | "n = 1" | "n = 2" | "n = 3" by arith
  then show ?thesis using LNull by cases (simp_all add: asc_def)
qed

lemma jsonStep_squote:
  assumes "pmode (jsonStep s squote) \<noteq> MFail"
  shows "\<exists>k acc st r. s = PS (MStr k acc) st r"
proof (cases s)
  case (PS m st r)
  show ?thesis
  proof (cases m)
    case (MLit l n)
    with PS assms litText_no_squote [of n l] show ?thesis by (auto split: if_splits)
  next
    case (MStr k acc)
    with PS show ?thesis by simp
  qed (use PS assms in \<open>simp_all add: isWs_def startValue_def isDigit_def escChar_def hexVal_def\<close>)
qed

text \<open>After the double quote that closes a string only white space, a comma, a colon or a
  closing bracket can follow.\<close>

lemma deliver_mode: "pmode (deliver v st r) = MAfter \<or> pmode (deliver v st r) = MFail"
  by (cases "(v, st, r)" rule: deliver.cases) simp_all

lemma closeStr_mode:
  "pmode (closeStr k acc st r) \<in> {MColon, MAfter, MFail}"
  using deliver_mode [of "JStr (rev acc)" st r]
  by (cases "(k, acc, st, r)" rule: closeStr.cases) auto

lemma jsonStep_after_string:
  assumes "pmode s \<in> {MColon, MAfter, MFail}" and "\<not> afterStringOk c"
  shows "jsonStep s c = failed"
proof (cases s)
  case (PS m st r)
  with assms(1) consider "m = MColon" | "m = MAfter" | "m = MFail" by auto
  then show ?thesis
  proof cases
    case 1
    with PS assms(2) show ?thesis by (simp add: afterStringOk_def)
  next
    case 2
    with PS assms(2) show ?thesis
      by (cases "(c, st, r)" rule: afterValue.cases) (simp_all add: afterStringOk_def)
  next
    case 3
    with PS show ?thesis by simp
  qed
qed

text \<open>A text that parses and holds a single quote has its first single quote inside a
  string. With that quote turned into a double quote the string ends there, and the text
  no longer parses unless what follows may follow a string.\<close>

lemma apostrophe_breaks_json:
  assumes ok: "JSON_parse (a @ squote # c # r) \<noteq> None"
    and first: "squote \<notin> set a"
    and c: "c = squote \<or> \<not> afterStringOk c"
  shows "JSON_parse (normalizeQuotes (a @ squote # c # r)) = None"
proof -
  let ?s = "jsonRun (PS MValue [] None) a"
  have "pmode (jsonStep ?s squote) \<noteq> MFail"
  proof
    assume "pmode (jsonStep ?s squote) = MFail"
    from jsonRun_MFail [OF this, of "c # r"] have "JSON_parse (a @ squote # c # r) = None"
      by (simp add: JSON_parse_def jsonRun_append)
    with ok show False by simp
  qed
  from jsonStep_squote [OF this] obtain k acc st r0 where s: "?s = PS (MStr k acc) st r0" by blast
  have na: "normalizeQuotes a = a" using first by (induction a) (auto simp: normalizeQuotes_def)
  let ?c = "if c = squote then dquote else c"
  have nc: "\<not> afterStringOk ?c" using c by (auto simp: afterStringOk_def isWs_def)
  have "jsonStep ?s dquote = closeStr k acc st r0" using s by simp
  then have "pmode (jsonStep ?s dquote) \<in> {MColon, MAfter, MFail}" using closeStr_mode by simp
  from jsonStep_after_string [OF this nc] have f: "jsonStep (jsonStep ?s dquote) ?c = failed" .
  have "normalizeQuotes (a @ squote # c # r) = a @ dquote # ?c # normalizeQuotes r"
    using na by (simp add: normalizeQuotes_def)
  then have "jsonRun (PS MValue [] None) (normalizeQuotes (a @ squote # c # r)) =
             jsonRun (jsonStep (jsonStep ?s dquote) ?c) (normalizeQuotes r)"
    by (simp add: jsonRun_append)
  with f show ?thesis by (simp add: JSON_parse_def)
qed

section \<open>Single quotes inside a legacy payload\<close>

lemma tryPush_tags_empty:
  "fst (tryPush parsed mk ip wm) = [] \<longleftrightarrow> parsed = None \<or> parsed = Some JNull"
  by (auto simp: tryPush_def split: option.splits)

lemma tryPush_tags_data:
  "data \<noteq> JNull \<Longrightarrow> fst (tryPush (Some data) mk ip wm) = [mk data]"
  by (auto simp: tryPush_def split: option.splits)

text \<open>
  C10, as stated, fails: a payload that is well-formed JSON and has single quotes inside
  a string value can still be well-formed after the normalization, and then the
  directive is produced, from the altered payload.
\<close>

theorem legacy_apostrophe_counterexample:
  \<open>JSON_parse (asc ''{"prompt":"a','style':'b"}'') =
     Some (JObj [(asc ''prompt'', JStr (asc ''a','style':'b''))]) \<and>
   parseImageTags hostAllFiles (asc ''[IMG:GEN:{"prompt":"a','style':'b"}]'') processOptions =
     ([mkTag (JObj [(asc ''prompt'', JStr (asc ''a'')), (asc ''style'', JStr (asc ''b''))])
         (asc ''[IMG:GEN:{"prompt":"a','style':'b"}]'') 0 False None],
      [(INFO, asc ''Found LEGACY format tag: a'')])\<close>
  by code_simp

text \<open>
  C10, amended. Take a legacy candidate with its closing bracket, and let the payload be
  the text from just after the marker through the closing brace. The text handed to
  \<open>JSON.parse\<close> is the payload with every single quote, also those inside double-quoted
  string values, replaced by a double quote.
  \<^item> When that text is not valid JSON, the round produces no directive, logs the
    warning, and the search goes on after the bracket.
  \<^item> When that text is valid JSON (and not \<open>null\<close>), the candidate is not dropped: the
    round produces the directive built from the altered payload.
  \<^item> So the candidate is dropped exactly when the altered payload does not parse (or is
    \<open>null\<close>).
  \<^item> The altered payload does not parse whenever the payload itself is well-formed
    JSON and its first single quote is followed by another single quote or by a code
    unit that may not follow the end of a JSON string (anything but white space, a
    comma, a colon, a closing brace or bracket; the \<open>s\<close> of \<open>it's\<close>, say).
\<close>

theorem legacy_apostrophe_dropped:
  assumes "indexOf text marker searchStart = Some markerIndex"
    and "findJsonEnd text (markerIndex + length marker) = Some jsonEnd"
    and "jsonEnd < length text" and "text ! jsonEnd = rbracket"
    and "payload = substring text (markerIndex + length marker) jsonEnd"
  shows "replaceAllChar squote [dquote] payload = map (\<lambda>c. if c = squote then dquote else c) payload \<and>
         (JSON_parse (map (\<lambda>c. if c = squote then dquote else c) payload) = None \<longrightarrow>
            legacyStep text searchStart =
              Continue (jsonEnd + 1) []
                [(WARN, asc ''Failed to parse legacy tag JSON: '' @ substring payload 0 100)]) \<and>
         (\<forall>data. JSON_parse (map (\<lambda>c. if c = squote then dquote else c) payload) = Some data \<longrightarrow>
                 data \<noteq> JNull \<longrightarrow>
                 stepTags (legacyStep text searchStart) =
                   [mkTag data (substring text markerIndex (jsonEnd + 1)) markerIndex False None]) \<and>
         (stepTags (legacyStep text searchStart) = [] \<longleftrightarrow>
            JSON_parse (map (\<lambda>c. if c = squote then dquote else c) payload) = None \<or>
            JSON_parse (map (\<lambda>c. if c = squote then dquote else c) payload) = Some JNull) \<and>
         (\<forall>a c r. payload = a @ squote # c # r \<longrightarrow> squote \<notin> set a \<longrightarrow>
                  JSON_parse payload \<noteq> None \<longrightarrow> c = squote \<or> \<not> afterStringOk c \<longrightarrow>
                  JSON_parse (map (\<lambda>c. if c = squote then dquote else c) payload) = None)"
proof -
  let ?n = "map (\<lambda>c. if c = squote then dquote else c) payload"
  have n: "normalizeQuotes payload = ?n" by (simp add: normalizeQuotes_def)
  obtain ts ls where tp:
    "tryPush (JSON_parse ?n)
       (\<lambda>data. mkTag data (substring text markerIndex (jsonEnd + 1)) markerIndex False None)
       (asc ''Found LEGACY format tag: '')
       (asc ''Failed to parse legacy tag JSON: '' @ substring payload 0 100) = (ts, ls)"
    by (cases "tryPush (JSON_parse ?n)
       (\<lambda>data. mkTag data (substring text markerIndex (jsonEnd + 1)) markerIndex False None)
       (asc ''Found LEGACY format tag: '')
       (asc ''Failed to parse legacy tag JSON: '' @ substring payload 0 100)")
  have pl: "substring text (markerIndex + length marker) jsonEnd = payload"
    using assms(5) by simp
  have st: "legacyStep text searchStart = Continue (jsonEnd + 1) ts ls"
    using legacyStep_found [OF assms(1,2), unfolded pl n] assms(3,4) tp by simp
  have 1: "replaceAllChar squote [dquote] payload = ?n" by (rule replaceAllChar_single)
  have 2: "JSON_parse ?n = None \<longrightarrow>
            legacyStep text searchStart =
              Continue (jsonEnd + 1) []
                [(WARN, asc ''Failed to parse legacy tag JSON: '' @ substring payload 0 100)]"
    using st tp by auto
  have 3: "\<forall>data. JSON_parse ?n = Some data \<longrightarrow> data \<noteq> JNull \<longrightarrow>
                 stepTags (legacyStep text searchStart) =
                   [mkTag data (substring text markerIndex (jsonEnd + 1)) markerIndex False None]"
    using st tp tryPush_tags_data by (auto simp: fst_conv dest!: arg_cong [where f = fst])
  have 4: "stepTags (legacyStep text searchStart) = [] \<longleftrightarrow>
            JSON_parse ?n = None \<or> JSON_parse ?n = Some JNull"
  proof -
    have "ts = fst (tryPush (JSON_parse ?n)
       (\<lambda>data. mkTag data (substring text markerIndex (jsonEnd + 1)) markerIndex False None)
       (asc ''Found LEGACY format tag: '')
       (asc ''Failed to parse legacy tag JSON: '' @ substring payload 0 100))"
      using tp by simp
    then have "ts = [] \<longleftrightarrow> JSON_parse ?n = None \<or> JSON_parse ?n = Some JNull"
      by (simp only: tryPush_tags_empty)
    with st show ?thesis by simp
  qed
  have 5: "\<forall>a c r. payload = a @ squote # c # r \<longrightarrow> squote \<notin> set a \<longrightarrow>
                  JSON_parse payload \<noteq> None \<longrightarrow> c = squote \<or> \<not> afterStringOk c \<longrightarrow>
                  JSON_parse ?n = None"
  proof (intro allI impI)
    fix a c r
    assume p: "payload = a @ squote # c # r" and first: "squote \<notin> set a"
      and ok: "JSON_parse payload \<noteq> None" and c: "c = squote \<or> \<not> afterStringOk c"
    from ok have "JSON_parse (a @ squote # c # r) \<noteq> None" unfolding p .
    from apostrophe_breaks_json [OF this first c]
    have "JSON_parse (normalizeQuotes payload) = None" unfolding p .
    then show "JSON_parse ?n = None" unfolding n .
  qed
  from 1 2 3 4 5 show ?thesis by blast
qed

theorem legacy_apostrophe_dropped_witness:
  \<open>legacyStep (asc ''[IMG:GEN:{"prompt":"it's raining"}]'') 0 =
     Continue 35 [] [(WARN, asc ''Failed to parse legacy tag JSON: {"prompt":"it's raining"}'')] \<and>
   legacyStep (asc ''[IMG:GEN:{"prompt":"the cats' toys"}]'') 0 =
     Continue 37 [] [(WARN, asc ''Failed to parse legacy tag JSON: {"prompt":"the cats' toys"}'')]\<close>
proof -
  let ?T = \<open>asc ''[IMG:GEN:{"prompt":"it's raining"}]''\<close>
  let ?P = \<open>asc ''{"prompt":"it'' @ squote # 115 # asc '' raining"}''\<close>
  have h1: "indexOf ?T marker 0 = Some 0" by code_simp
  have h2: "findJsonEnd ?T (0 + length marker) = Some 34" by code_simp
  have h3: "34 < length ?T" by code_simp
  have h4: "?T ! 34 = rbracket" by code_simp
  have h5: "?P = substring ?T (0 + length marker) 34" by code_simp
  note T = legacy_apostrophe_dropped [OF h1 h2 h3 h4 h5]
  have a1: \<open>squote \<notin> set (asc ''{"prompt":"it'')\<close> by code_simp
  have a2: "JSON_parse ?P \<noteq> None" by code_simp
  have a3: "115 = squote \<or> \<not> afterStringOk 115" by code_simp
  have none: "JSON_parse (map (\<lambda>c. if c = squote then dquote else c) ?P) = None"
    using T [THEN conjunct2, THEN conjunct2, THEN conjunct2, THEN conjunct2, rule_format, OF refl a1 a2 a3] .
  have w: \<open>asc ''Failed to parse legacy tag JSON: '' @ substring ?P 0 100 =
            asc ''Failed to parse legacy tag JSON: {"prompt":"it's raining"}''\<close>
    by code_simp
  have A: \<open>legacyStep ?T 0 =
     Continue 35 [] [(WARN, asc ''Failed to parse legacy tag JSON: {"prompt":"it's raining"}'')]\<close>
    using T [THEN conjunct2, THEN conjunct1, rule_format, OF none] unfolding w by simp
  let ?U = \<open>asc ''[IMG:GEN:{"prompt":"the cats' toys"}]''\<close>
  let ?Q = \<open>asc ''{"prompt":"the cats' toys"}''\<close>
  have k1: "indexOf ?U marker 0 = Some 0" by code_simp
  have k2: "findJsonEnd ?U (0 + length marker) = Some 36" by code_simp
  have k3: "36 < length ?U" by code_simp
  have k4: "?U ! 36 = rbracket" by code_simp
  have k5: "?Q = substring ?U (0 + length marker) 36" by code_simp
  have k6: "JSON_parse (map (\<lambda>c. if c = squote then dquote else c) ?Q) = None" by code_simp
  have v: \<open>asc ''Failed to parse legacy tag JSON: '' @ substring ?Q 0 100 =
            asc ''Failed to parse legacy tag JSON: {"prompt":"the cats' toys"}''\<close>
    by code_simp
  have B: \<open>legacyStep ?U 0 =
     Continue 37 [] [(WARN, asc ''Failed to parse legacy tag JSON: {"prompt":"the cats' toys"}'')]\<close>
    using legacy_apostrophe_dropped [OF k1 k2 k3 k4 k5, THEN conjunct2, THEN conjunct1, rule_format, OF k6]
    unfolding v by simp
  from A B show ?thesis by blast
qed

section \<open>Malformed candidates\<close>

lemma taggedStep_found:
  assumes "indexOf text imgTagMarker searchPos = Some markerPos"
    and "lastIndexOf text (asc ''<img'') markerPos = Some imgStart"
    and "markerPos - imgStart \<le> 500"
    and "indexOf text [lbrace] (markerPos + length imgTagMarker) = Some jsonStart"
    and "jsonStart \<le> markerPos + length imgTagMarker + 10"
  shows "taggedStep fe opts text searchPos =
         (case findJsonEnd text jsonStart of
            None \<Rightarrow> Continue (markerPos + 1) [] []
          | Some jsonEnd \<Rightarrow>
              (case indexOf text [62] jsonEnd of
                 None \<Rightarrow> Continue (markerPos + 1) [] []
               | Some gt \<Rightarrow>
                   (case decide fe opts (srcValueOf (substring text imgStart (gt + 1))) of
                      Skip \<Rightarrow> Continue (gt + 1) [] []
                    | Generate pre \<Rightarrow>
                        (case tryPush (JSON_parse (normalizeInstruction (substring text jsonStart jsonEnd)))
                                (\<lambda>data. mkTag data (substring text imgStart (gt + 1)) imgStart True
                                   (if hasPathOf (srcValueOf (substring text imgStart (gt + 1)))
                                    then Some (srcValueOf (substring text imgStart (gt + 1))) else None))
                                (asc ''Found NEW format tag: '')
                                (asc ''Failed to parse instruction JSON: '' @
                                   substring (substring text jsonStart jsonEnd) 0 100) of
                           (ts, ls) \<Rightarrow> Continue (gt + 1) ts (pre @ ls)))))"
  using assms
  by (simp add: taggedStep_def Let_def split: option.splits decision.splits prod.splits)


lemma taggedLoop_Continue:
  "taggedStep fe opts text s = Continue n ts ls \<Longrightarrow>
   taggedLoop fe opts text s =
     (ts @ fst (taggedLoop fe opts text n), ls @ snd (taggedLoop fe opts text n))"
  by (simp add: taggedLoop.simps [of fe opts "text" s] split: prod.splits)

lemma legacyLoop_Stop: "indexOf text marker s = None \<Longrightarrow> legacyLoop text s = ([], [])"
  by (simp add: legacyLoop.simps [of "text" s] legacyStep_def)

lemma taggedLoop_Stop:
  "indexOf text imgTagMarker s = None \<Longrightarrow> taggedLoop fe opts text s = ([], [])"
  by (simp add: taggedLoop.simps [of fe opts "text" s] taggedStep_def)






section \<open>Retry with exponential backoff\<close>

text \<open>\<open>includes\<close> finds a text exactly when it stands somewhere in the string.\<close>

lemma indexOf_aux_sublist: "(indexOf_aux pat cs k \<noteq> None) = sublist pat cs"
  by (induction cs arbitrary: k) (auto simp: sublist_Cons_right)

lemma str_includes_sublist: "str_includes s pat = sublist pat s"
  using indexOf_aux_sublist [of pat s 0] by (auto simp: str_includes_def indexOf_def)

lemma isRetryable_marks:
  "isRetryable msg =
     (\<exists>mark \<in> {asc ''429'', asc ''502'', asc ''503'', asc ''504'', asc ''timeout'', asc ''network''}.
        sublist mark msg)"
  by (auto simp: isRetryable_def str_includes_sublist)

lemma retryLoop_give_up:
  assumes "int attempt \<le> maxR" and "call attempt = Inl (Thrown msg)"
    and "\<not> isRetryable msg \<or> int attempt = maxR"
  shows "retryLoop tem call maxR baseD lastError attempt =
         ([Status (Generating attempt maxR), BackendCall attempt, AttemptFailed (attempt + 1) msg],
          Inl (Thrown msg))"
  using assms by (simp add: retryLoop.simps [of tem call maxR baseD lastError attempt])

lemma retryLoop_again:
  assumes "int attempt < maxR" and "call attempt = Inl (Thrown msg)" and "isRetryable msg"
  shows "retryLoop tem call maxR baseD lastError attempt =
         ([Status (Generating attempt maxR), BackendCall attempt, AttemptFailed (attempt + 1) msg,
           Status (RetryIn (baseD * 2 ^ attempt)), Sleep (baseD * 2 ^ attempt)] @
          fst (retryLoop tem call maxR baseD (Thrown msg) (attempt + 1)),
          snd (retryLoop tem call maxR baseD (Thrown msg) (attempt + 1)))"
  using assms
  by (simp add: retryLoop.simps [of tem call maxR baseD lastError attempt] Let_def split: prod.splits)

text \<open>
  C2. An error message is retryable when one of the texts \<open>429\<close>, \<open>502\<close>, \<open>503\<close>,
  \<open>504\<close>, \<open>timeout\<close>, \<open>network\<close> stands somewhere in it.
  \<^item> Let the settings be valid, with two retries and a base delay of 1000 ms, and let
    each of the three backend calls of a generation fail with a retryable message. Then
    the generation makes exactly the calls 0, 1 and 2, sleeps 1000 ms after the first
    failure and 2000 ms after the second, each sleep announced to the status callback,
    and throws the error of the third call.
  \<^item> In every state of the loop, a call that fails with a retryable message while
    attempts remain is followed by a sleep of \<open>baseDelay * 2^attempt\<close> and the next
    attempt.
  \<^item> In every state of the loop, a call that fails with a message that is not retryable
    ends the loop at once with that error: no sleep and no further call.
\<close>

theorem retry_backoff_three_attempts:
  assumes "validateSettings st = []" and "maxRetries st = 2" and "retryDelay st = 1000"
    and "collectReferenceImages e st chat p (opt_messageId opts) = Inr refs"
    and "\<forall>k \<le> 2. callBackend e st p s (geminiReferences e st refs) (naisteraReferences e st refs) opts k
                   = Inl (Thrown (msg k)) \<and>
                 (\<exists>mark \<in> {asc ''429'', asc ''502'', asc ''503'', asc ''504'', asc ''timeout'',
                              asc ''network''}. sublist mark (msg k))"
  shows "generateImageWithRetry e st chat p s opts =
           ([Status CollectingReferences,
             Status (Generating 0 2), BackendCall 0, AttemptFailed 1 (msg 0),
             Status (RetryIn 1000), Sleep 1000,
             Status (Generating 1 2), BackendCall 1, AttemptFailed 2 (msg 1),
             Status (RetryIn 2000), Sleep 2000,
             Status (Generating 2 2), BackendCall 2, AttemptFailed 3 (msg 2)],
            Inr (Inl (Thrown (msg 2)))) \<and>
         (\<forall>tem call maxR baseD lastError attempt m.
            int attempt < maxR \<longrightarrow> call attempt = Inl (Thrown m) \<longrightarrow>
            (\<exists>mark \<in> {asc ''429'', asc ''502'', asc ''503'', asc ''504'', asc ''timeout'',
                         asc ''network''}. sublist mark m) \<longrightarrow>
            retryLoop tem call maxR baseD lastError attempt =
              ([Status (Generating attempt maxR), BackendCall attempt, AttemptFailed (attempt + 1) m,
                Status (RetryIn (baseD * 2 ^ attempt)), Sleep (baseD * 2 ^ attempt)] @
               fst (retryLoop tem call maxR baseD (Thrown m) (attempt + 1)),
               snd (retryLoop tem call maxR baseD (Thrown m) (attempt + 1)))) \<and>
         (\<forall>tem call maxR baseD lastError attempt bad.
            int attempt \<le> maxR \<longrightarrow> call attempt = Inl (Thrown bad) \<longrightarrow>
            (\<forall>mark \<in> {asc ''429'', asc ''502'', asc ''503'', asc ''504'', asc ''timeout'',
                         asc ''network''}. \<not> sublist mark bad) \<longrightarrow>
            retryLoop tem call maxR baseD lastError attempt =
              ([Status (Generating attempt maxR), BackendCall attempt, AttemptFailed (attempt + 1) bad],
               Inl (Thrown bad)))"
proof (intro conjI)
  let ?call = "callBackend e st p s (geminiReferences e st refs) (naisteraReferences e st refs) opts"
  let ?tem = "typeErrorMessage e"
  from assms(5) have c: "?call 0 = Inl (Thrown (msg 0))" "?call 1 = Inl (Thrown (msg 1))"
      "?call 2 = Inl (Thrown (msg 2))"
    by simp_all
  from assms(5) have r: "isRetryable (msg 0)" "isRetryable (msg 1)"
    unfolding isRetryable_marks by simp_all
  have l2: "retryLoop ?tem ?call 2 1000 (Thrown (msg 1)) 2 =
            ([Status (Generating 2 2), BackendCall 2, AttemptFailed 3 (msg 2)], Inl (Thrown (msg 2)))"
    using retryLoop_give_up [of 2 2 ?call "msg 2" ?tem 1000 "Thrown (msg 1)"] c(3)
    by (simp add: numeral_2_eq_2 numeral_3_eq_3)
  have l1: "retryLoop ?tem ?call 2 1000 (Thrown (msg 0)) 1 =
            ([Status (Generating 1 2), BackendCall 1, AttemptFailed 2 (msg 1),
              Status (RetryIn 2000), Sleep 2000,
              Status (Generating 2 2), BackendCall 2, AttemptFailed 3 (msg 2)], Inl (Thrown (msg 2)))"
    using retryLoop_again [of 1 2 ?call "msg 1" ?tem 1000 "Thrown (msg 0)"] c(2) r(2) l2
    by (simp add: numeral_2_eq_2 numeral_3_eq_3)
  have l0: "retryLoop ?tem ?call 2 1000 ThrownUndefined 0 =
            ([Status (Generating 0 2), BackendCall 0, AttemptFailed 1 (msg 0),
              Status (RetryIn 1000), Sleep 1000,
              Status (Generating 1 2), BackendCall 1, AttemptFailed 2 (msg 1),
              Status (RetryIn 2000), Sleep 2000,
              Status (Generating 2 2), BackendCall 2, AttemptFailed 3 (msg 2)], Inl (Thrown (msg 2)))"
    using retryLoop_again [of 0 2 ?call "msg 0" ?tem 1000 ThrownUndefined] c(1) r(1) l1
    by (simp add: numeral_2_eq_2 numeral_3_eq_3)
  show "generateImageWithRetry e st chat p s opts =
           ([Status CollectingReferences,
             Status (Generating 0 2), BackendCall 0, AttemptFailed 1 (msg 0),
             Status (RetryIn 1000), Sleep 1000,
             Status (Generating 1 2), BackendCall 1, AttemptFailed 2 (msg 1),
             Status (RetryIn 2000), Sleep 2000,
             Status (Generating 2 2), BackendCall 2, AttemptFailed 3 (msg 2)],
            Inr (Inl (Thrown (msg 2))))"
    using assms(1-4) l0 by (simp add: generateImageWithRetry_def)
next
  show "\<forall>tem call maxR baseD lastError attempt m.
            int attempt < maxR \<longrightarrow> call attempt = Inl (Thrown m) \<longrightarrow>
            (\<exists>mark \<in> {asc ''429'', asc ''502'', asc ''503'', asc ''504'', asc ''timeout'',
                         asc ''network''}. sublist mark m) \<longrightarrow>
            retryLoop tem call maxR baseD lastError attempt =
              ([Status (Generating attempt maxR), BackendCall attempt, AttemptFailed (attempt + 1) m,
                Status (RetryIn (baseD * 2 ^ attempt)), Sleep (baseD * 2 ^ attempt)] @
               fst (retryLoop tem call maxR baseD (Thrown m) (attempt + 1)),
               snd (retryLoop tem call maxR baseD (Thrown m) (attempt + 1)))"
    using retryLoop_again unfolding isRetryable_marks by blast
next
  show "\<forall>tem call maxR baseD lastError attempt bad.
            int attempt \<le> maxR \<longrightarrow> call attempt = Inl (Thrown bad) \<longrightarrow>
            (\<forall>mark \<in> {asc ''429'', asc ''502'', asc ''503'', asc ''504'', asc ''timeout'',
                         asc ''network''}. \<not> sublist mark bad) \<longrightarrow>
            retryLoop tem call maxR baseD lastError attempt =
              ([Status (Generating attempt maxR), BackendCall attempt, AttemptFailed (attempt + 1) bad],
               Inl (Thrown bad))"
    using retryLoop_give_up unfolding isRetryable_marks by blast
qed

theorem retry_backoff_three_attempts_witness:
  "generateImageWithRetry flakyHost exampleSettings [] (JStr (asc ''a cat'')) (JStr []) exampleOptions =
     ([Status CollectingReferences,
       Status (Generating 0 2), BackendCall 0, AttemptFailed 1 (asc ''API Error (429): busy''),
       Status (RetryIn 1000), Sleep 1000,
       Status (Generating 1 2), BackendCall 1, AttemptFailed 2 (asc ''Request timeout''),
       Status (RetryIn 2000), Sleep 2000,
       Status (Generating 2 2), BackendCall 2, AttemptFailed 3 (asc ''API Error (504): late'')],
      Inr (Inl (Thrown (asc ''API Error (504): late'')))) \<and>
   retryLoop (asc ''TypeError'') (\<lambda>k. Inl (Thrown (asc ''API Error (400): bad request''))) 2 1000
     ThrownUndefined 0 =
     ([Status (Generating 0 2), BackendCall 0, AttemptFailed 1 (asc ''API Error (400): bad request'')],
      Inl (Thrown (asc ''API Error (400): bad request'')))"
proof -
  let ?e = flakyHost
  let ?refs = "\<lparr>previous = [], style_ref = None, npcs = []\<rparr>"
  let ?msg = "\<lambda>k::nat. if k = 0 then asc ''API Error (429): busy''
                       else if k = 1 then asc ''Request timeout'' else asc ''API Error (504): late''"
  let ?marks = "{asc ''429'', asc ''502'', asc ''503'', asc ''504'', asc ''timeout'', asc ''network''}"
  have h1: "validateSettings exampleSettings = []" by code_simp
  have h2: "maxRetries exampleSettings = 2" by (simp add: exampleSettings_def)
  have h3: "retryDelay exampleSettings = 1000" by (simp add: exampleSettings_def)
  have h4: "collectReferenceImages ?e exampleSettings [] (JStr (asc ''a cat'')) (opt_messageId exampleOptions)
            = Inr ?refs"
    by (simp add: collectReferenceImages_def)
  have b: "buildRequest ?e exampleSettings (JStr (asc ''a cat'')) (JStr [])
             (geminiReferences ?e exampleSettings ?refs) (naisteraReferences ?e exampleSettings ?refs)
             exampleOptions \<noteq> Inl x" for x
    by (simp add: buildRequest_def generateImageOpenAI_def generateImageGemini_def
        generateImageNaistera_def fullPromptOf_def geminiText_def Let_def split: option.splits)
  have s0: "sublist (asc ''429'') (asc ''API Error (429): busy'')"
    using str_includes_sublist [of "asc ''API Error (429): busy''" "asc ''429''"] by code_simp
  have s1: "sublist (asc ''timeout'') (asc ''Request timeout'')"
    using str_includes_sublist [of "asc ''Request timeout''" "asc ''timeout''"] by code_simp
  have s2: "sublist (asc ''504'') (asc ''API Error (504): late'')"
    using str_includes_sublist [of "asc ''API Error (504): late''" "asc ''504''"] by code_simp
  have m: "\<exists>mark \<in> ?marks. sublist mark (?msg k)" for k
    using s0 s1 s2 by auto
  have c: "callBackend ?e exampleSettings (JStr (asc ''a cat'')) (JStr [])
               (geminiReferences ?e exampleSettings ?refs) (naisteraReferences ?e exampleSettings ?refs)
               exampleOptions k = Inl (Thrown (?msg k))" for k
    using b by (auto simp: callBackend_def flakyHost_def exampleHost_def split: sum.splits)
  have h5: "\<forall>k \<le> 2. callBackend ?e exampleSettings (JStr (asc ''a cat'')) (JStr [])
               (geminiReferences ?e exampleSettings ?refs) (naisteraReferences ?e exampleSettings ?refs)
               exampleOptions k = Inl (Thrown (?msg k)) \<and> (\<exists>mark \<in> ?marks. sublist mark (?msg k))"
    using c m by blast
  have n: "\<forall>mark \<in> ?marks. \<not> sublist mark (asc ''API Error (400): bad request'')"
    using isRetryable_marks [of "asc ''API Error (400): bad request''"] by code_simp
  note T = retry_backoff_three_attempts [OF h1 h2 h3 h4 h5]
  have A: "generateImageWithRetry flakyHost exampleSettings [] (JStr (asc ''a cat'')) (JStr []) exampleOptions =
     ([Status CollectingReferences,
       Status (Generating 0 2), BackendCall 0, AttemptFailed 1 (asc ''API Error (429): busy''),
       Status (RetryIn 1000), Sleep 1000,
       Status (Generating 1 2), BackendCall 1, AttemptFailed 2 (asc ''Request timeout''),
       Status (RetryIn 2000), Sleep 2000,
       Status (Generating 2 2), BackendCall 2, AttemptFailed 3 (asc ''API Error (504): late'')],
      Inr (Inl (Thrown (asc ''API Error (504): late''))))"
    using T [THEN conjunct1] by simp
  have B: "retryLoop (asc ''TypeError'') (\<lambda>k. Inl (Thrown (asc ''API Error (400): bad request''))) 2 1000
     ThrownUndefined 0 =
     ([Status (Generating 0 2), BackendCall 0, AttemptFailed 1 (asc ''API Error (400): bad request'')],
      Inl (Thrown (asc ''API Error (400): bad request'')))"
    using T [THEN conjunct2, THEN conjunct2, rule_format,
        of 0 2 "\<lambda>k. Inl (Thrown (asc ''API Error (400): bad request''))" "asc ''API Error (400): bad request''"
           "asc ''TypeError''" 1000 ThrownUndefined] n
    by simp
  from A B show ?thesis by blast
qed

section \<open>Reference images from the chat history\<close>










section \<open>The request of the Gemini adapter\<close>







section \<open>The patch of the message text\<close>

lemma expandRepl_plain: "dollar \<notin> set repl \<Longrightarrow> expandRepl repl m b a gs = repl"
  by (induction repl m b a gs rule: expandRepl.induct) auto

lemma indexOf_aux_least:
  "indexOf_aux pat cs k = Some j \<Longrightarrow> i < j - k \<Longrightarrow> \<not> prefix pat (drop i cs)"
proof (induction cs arbitrary: k i)
  case Nil
  then show ?case by (simp split: if_splits)
next
  case (Cons c cs)
  show ?case
  proof (cases "prefix pat (c # cs)")
    case True
    with Cons.prems show ?thesis by simp
  next
    case False
    with Cons.prems have r: "indexOf_aux pat cs (Suc k) = Some j" by simp
    show ?thesis
    proof (cases i)
      case 0
      with False show ?thesis by simp
    next
      case (Suc i')
      with Cons.prems(2) have "i' < j - Suc k" by simp
      from Cons.IH [OF r this] Suc show ?thesis by simp
    qed
  qed
qed

lemma indexOf_first:
  assumes "indexOf s pat 0 = Some k"
  shows "k + length pat \<le> length s" and "s = take k s @ pat @ drop (k + length pat) s"
    and "\<forall>i < k. \<not> prefix pat (drop i s)"
proof -
  from assms have a: "indexOf_aux pat s 0 = Some k" by (simp add: indexOf_def)
  from indexOf_aux_Some [OF a] have b: "k + length pat \<le> length s" "take (length pat) (drop k s) = pat"
    by simp_all
  show "k + length pat \<le> length s" by (rule b(1))
  have "drop k s = take (length pat) (drop k s) @ drop (length pat) (drop k s)"
    by (rule append_take_drop_id [symmetric])
  with b(2) have "drop k s = pat @ drop (k + length pat) s" by (simp add: add.commute)
  then have "take k s @ drop k s = take k s @ pat @ drop (k + length pat) s" by simp
  then show "s = take k s @ pat @ drop (k + length pat) s" by simp
  show "\<forall>i < k. \<not> prefix pat (drop i s)"
    using indexOf_aux_least [OF a] by simp
qed

lemma isReSpace_not_eq [simp]: "\<not> isReSpace 61" "\<not> isReSpace dquote" "\<not> isReSpace squote"
  by (simp_all add: isReSpace_def)

lemma isQuote_not_space: "isQuote q \<Longrightarrow> \<not> isReSpace q"
  by (auto simp: isQuote_def)

lemma dropWhile_run:
  "list_all P w \<Longrightarrow> \<not> P x \<Longrightarrow> dropWhile P (w @ x # r) = x # r \<and> takeWhile P (w @ x # r) = w"
  by (induction w) auto

lemma run_split:
  "dropWhile P xs = y # ys \<Longrightarrow>
   xs = takeWhile P xs @ y # ys \<and> list_all P (takeWhile P xs) \<and> \<not> P y"
proof -
  assume a: "dropWhile P xs = y # ys"
  have "xs = takeWhile P xs @ dropWhile P xs" by simp
  with a have "xs = takeWhile P xs @ y # ys" by simp
  moreover have "list_all P (takeWhile P xs)"
    by (simp add: list_all_iff) (meson set_takeWhileD)
  moreover have "\<not> P y" using a by (metis dropWhile_eq_Cons_conv)
  ultimately show ?thesis by blast
qed

text \<open>The matcher finds exactly the texts of the specified shape.\<close>

lemma matchQuotedSrcAt_sound:
  assumes "matchQuotedSrcAt cs = Some (n, q)"
  shows "n \<le> length cs \<and> isSrcAssignment (take n cs)"
proof -
  from assms obtain a b c rest where cs: "cs = a # b # c # rest"
    by (cases cs rule: matchQuotedSrcAt.cases) auto
  from assms cs have ci: "ciEq a 115" "ciEq b 114" "ciEq c 99"
    by (auto split: if_splits)
  from assms cs ci obtain r2 where d1: "dropWhile isReSpace rest = 61 # r2"
    by (auto split: list.splits if_splits)
  from assms cs ci d1 obtain r4 where d2: "dropWhile isReSpace r2 = q # r4" and q: "isQuote q"
    by (auto split: list.splits if_splits)
  from assms cs ci d1 d2 q obtain r6 where d3: "dropWhile (\<lambda>x. \<not> isQuote x) r4 = q # r6"
    and n: "n = 3 + length (takeWhile isReSpace rest) + 1 + length (takeWhile isReSpace r2) + 1 +
                length (takeWhile (\<lambda>x. \<not> isQuote x) r4) + 1"
    by (auto split: list.splits if_splits)
  let ?w1 = "takeWhile isReSpace rest"
  let ?w2 = "takeWhile isReSpace r2"
  let ?v = "takeWhile (\<lambda>x. \<not> isQuote x) r4"
  from run_split [OF d1] have s1: "rest = ?w1 @ 61 # r2" "list_all isReSpace ?w1" by simp_all
  from run_split [OF d2] have s2: "r2 = ?w2 @ q # r4" "list_all isReSpace ?w2" by simp_all
  from run_split [OF d3] have s3: "r4 = ?v @ q # r6" "list_all (\<lambda>x. \<not> isQuote x) ?v" by simp_all
  have whole: "cs = ([a, b, c] @ ?w1 @ [61] @ ?w2 @ [q] @ ?v @ [q]) @ r6"
    using cs s1(1) s2(1) s3(1) by (metis append.assoc append_Cons append_Nil)
  have len: "length ([a, b, c] @ ?w1 @ [61] @ ?w2 @ [q] @ ?v @ [q]) = n"
    using n by simp
  have tk: "take n cs = [a, b, c] @ ?w1 @ [61] @ ?w2 @ [q] @ ?v @ [q]"
    using whole len by (metis append_eq_conv_conj)
  have "isSrcAssignment ([a, b, c] @ ?w1 @ [61] @ ?w2 @ [q] @ ?v @ [q])"
    unfolding isSrcAssignment_def using ci s1(2) s2(2) s3(2) q by blast
  moreover have "n \<le> length cs" using whole len by (metis length_append le_add1)
  ultimately show ?thesis using tk by simp
qed

lemma matchQuotedSrcAt_complete:
  assumes "isSrcAssignment m"
  shows "\<exists>q. matchQuotedSrcAt (m @ r) = Some (length m, q)"
proof -
  from assms obtain a b c w1 w2 q v where
    m: "m = [a, b, c] @ w1 @ [61] @ w2 @ [q] @ v @ [q]" and ci: "ciEq a 115" "ciEq b 114" "ciEq c 99"
    and w: "list_all isReSpace w1" "list_all isReSpace w2" and q: "isQuote q"
    and v: "list_all (\<lambda>x. \<not> isQuote x) v"
    unfolding isSrcAssignment_def by blast
  have e1: "dropWhile isReSpace (w1 @ 61 # (w2 @ q # v @ q # r)) = 61 # (w2 @ q # v @ q # r)"
           "takeWhile isReSpace (w1 @ 61 # (w2 @ q # v @ q # r)) = w1"
    using dropWhile_run [OF w(1), of 61] by simp_all
  have e2: "dropWhile isReSpace (w2 @ q # (v @ q # r)) = q # (v @ q # r)"
           "takeWhile isReSpace (w2 @ q # (v @ q # r)) = w2"
    using dropWhile_run [OF w(2), of q] isQuote_not_space [OF q] by simp_all
  have e3: "dropWhile (\<lambda>x. \<not> isQuote x) (v @ q # r) = q # r"
           "takeWhile (\<lambda>x. \<not> isQuote x) (v @ q # r) = v"
    using dropWhile_run [OF v, of q] q by simp_all
  have "m @ r = a # b # c # (w1 @ 61 # (w2 @ q # v @ q # r))" using m by simp
  then have "matchQuotedSrcAt (m @ r) = Some (length m, q)"
    using ci q e1 e2 e3 m by simp
  then show ?thesis by blast
qed

lemma srcAssignmentAt_iff:
  "srcAssignmentAt fm j n \<longleftrightarrow> (\<exists>q. matchQuotedSrcAt (drop j fm) = Some (n, q))"
proof
  assume a: "srcAssignmentAt fm j n"
  then have le: "j + n \<le> length fm" and s: "isSrcAssignment (take n (drop j fm))"
    by (simp_all add: srcAssignmentAt_def)
  have "drop j fm = take n (drop j fm) @ drop n (drop j fm)"
    by (rule append_take_drop_id [symmetric])
  moreover have "length (take n (drop j fm)) = n" using le by simp
  ultimately show "\<exists>q. matchQuotedSrcAt (drop j fm) = Some (n, q)"
    using matchQuotedSrcAt_complete [OF s, of "drop n (drop j fm)"] by metis
next
  assume "\<exists>q. matchQuotedSrcAt (drop j fm) = Some (n, q)"
  then obtain q where "matchQuotedSrcAt (drop j fm) = Some (n, q)" by blast
  from matchQuotedSrcAt_sound [OF this] have "n \<le> length (drop j fm)" "isSrcAssignment (take n (drop j fm))"
    by simp_all
  moreover have "0 < n" using \<open>matchQuotedSrcAt (drop j fm) = Some (n, q)\<close>
    by (cases "drop j fm" rule: matchQuotedSrcAt.cases) (auto split: if_splits list.splits)
  ultimately show "srcAssignmentAt fm j n" by (auto simp: srcAssignmentAt_def)
qed

lemma findQuotedSrc_None:
  "findQuotedSrc cs k = None \<Longrightarrow> matchQuotedSrcAt (drop i cs) = None"
proof (induction cs arbitrary: k i)
  case Nil
  then show ?case by simp
next
  case (Cons c cs)
  then have h: "matchQuotedSrcAt (c # cs) = None" "findQuotedSrc cs (Suc k) = None"
    by (auto split: option.splits)
  show ?case
  proof (cases i)
    case 0
    with h show ?thesis by simp
  next
    case (Suc i')
    with Cons.IH [OF h(2)] show ?thesis by simp
  qed
qed

lemma findQuotedSrc_Some:
  "findQuotedSrc cs k = Some (j, n, q) \<Longrightarrow>
   k \<le> j \<and> matchQuotedSrcAt (drop (j - k) cs) = Some (n, q) \<and>
   (\<forall>i < j - k. matchQuotedSrcAt (drop i cs) = None)"
proof (induction cs arbitrary: k)
  case Nil
  then show ?case by simp
next
  case (Cons c cs)
  show ?case
  proof (cases "matchQuotedSrcAt (c # cs)")
    case (Some nq)
    with Cons.prems show ?thesis by (cases nq) auto
  next
    case None
    with Cons.prems have r: "findQuotedSrc cs (Suc k) = Some (j, n, q)" by simp
    from Cons.IH [OF r] have h: "Suc k \<le> j" "matchQuotedSrcAt (drop (j - Suc k) cs) = Some (n, q)"
      "\<forall>i < j - Suc k. matchQuotedSrcAt (drop i cs) = None" by simp_all
    from h(1) have jk: "j - k = Suc (j - Suc k)" by arith
    have "matchQuotedSrcAt (drop i (c # cs)) = None" if "i < j - k" for i
    proof (cases i)
      case 0
      with None show ?thesis by simp
    next
      case (Suc i')
      with that jk h(3) show ?thesis by simp
    qed
    with h jk show ?thesis by simp
  qed
qed

text \<open>The replacement of the first \<open>src\<close> assignment, in the words of the specification.\<close>

lemma replaceSrc_none:
  assumes "\<forall>j n. \<not> srcAssignmentAt fm j n"
  shows "replaceSrc fm repl = fm"
proof (cases "findQuotedSrc fm 0")
  case None
  then show ?thesis by (simp add: replaceSrc_def)
next
  case (Some r)
  obtain j n q where r: "r = (j, n, q)" by (cases r) auto
  from findQuotedSrc_Some [of fm 0 j n q] Some r have "matchQuotedSrcAt (drop j fm) = Some (n, q)"
    by simp
  with assms show ?thesis using srcAssignmentAt_iff by blast
qed

lemma replaceSrc_first:
  assumes at: "srcAssignmentAt fm j n" and first: "\<forall>j' n'. j' < j \<longrightarrow> \<not> srcAssignmentAt fm j' n'"
    and plain: "dollar \<notin> set repl"
  shows "replaceSrc fm repl = take j fm @ repl @ drop (j + n) fm"
proof -
  from at obtain q where m: "matchQuotedSrcAt (drop j fm) = Some (n, q)"
    using srcAssignmentAt_iff by blast
  show ?thesis
  proof (cases "findQuotedSrc fm 0")
    case None
    from findQuotedSrc_None [OF None, of j] m show ?thesis by simp
  next
    case (Some r)
    obtain j0 n0 q0 where r: "r = (j0, n0, q0)" by (cases r) auto
    from findQuotedSrc_Some [of fm 0 j0 n0 q0] Some r
    have f: "matchQuotedSrcAt (drop j0 fm) = Some (n0, q0)"
      "\<forall>i < j0. matchQuotedSrcAt (drop i fm) = None" by simp_all
    have "\<not> j < j0" using f(2) m by auto
    moreover have "\<not> j0 < j" using first f(1) srcAssignmentAt_iff by blast
    ultimately have "j0 = j" by arith
    with f(1) m have "n0 = n" by simp
    with Some r \<open>j0 = j\<close> plain show ?thesis
      by (simp add: replaceSrc_def expandRepl_plain)
  qed
qed

lemma findQuotedSrc_first:
  assumes "findQuotedSrc fm 0 = Some (j, n, q)"
  shows "srcAssignmentAt fm j n \<and> (\<forall>j' n'. j' < j \<longrightarrow> \<not> srcAssignmentAt fm j' n')"
  using findQuotedSrc_Some [OF assms] srcAssignmentAt_iff by auto

lemma replaceFirst_absent: "indexOf s pat 0 = None \<Longrightarrow> replaceFirst s pat repl = s"
  by (simp add: replaceFirst_def)

lemma replaceFirst_present:
  "indexOf s pat 0 = Some k \<Longrightarrow>
   replaceFirst s pat repl =
     take k s @ expandRepl repl pat (take k s) (drop (k + length pat) s) [] @ drop (k + length pat) s"
  by (simp add: replaceFirst_def)

lemma error_path_plain: "dollar \<notin> set (asc ''src=\"'' @ ERROR_IMAGE_PATH @ [dquote])"
  by (simp add: ERROR_IMAGE_PATH_def asc_def)

text \<open>
  What the patch does, for every message text, directive and outcome: when \<open>fullMatch\<close>
  does not occur in the text the patch leaves the text as it is; otherwise the text reads
  \<open>before\<close>, \<open>fullMatch\<close>, \<open>after\<close> at the first occurrence, and the patched text is
  \<open>before\<close>, a replacement, \<open>after\<close>, with \<open>before\<close> and \<open>after\<close> unchanged. For a
  replacement text without a dollar sign the replacement is that text. For a directive
  of the image-element format and a path without a dollar sign, the replacement text is
  \<open>fullMatch\<close> with its first text of the shape \<open>src\<close>, \<open>=\<close>, a quoted value turned
  into \<open>src="path"\<close>, every code unit before and after that text as it was, and
  \<open>fullMatch\<close> itself when it holds no such text; after a failure the path is that of
  the error image. For a legacy directive the replacement text is the completion marker
  with the path, or the error marker with the first 50 code units of the message.
\<close>

lemma patch_first_occurrence:
  "(indexOf text (fullMatch t) 0 = None \<longrightarrow> patchMessage text t out = text) \<and>
   (\<forall>k. indexOf text (fullMatch t) 0 = Some k \<longrightarrow>
      text = take k text @ fullMatch t @ drop (k + length (fullMatch t)) text \<and>
      (\<forall>i < k. \<not> prefix (fullMatch t) (drop i text)) \<and>
      (\<exists>r. patchMessage text t out = take k text @ r @ drop (k + length (fullMatch t)) text) \<and>
      (dollar \<notin> set (replacementOf t out) \<longrightarrow>
         patchMessage text t out =
           take k text @ replacementOf t out @ drop (k + length (fullMatch t)) text)) \<and>
   (isNewFormat t \<longrightarrow> dollar \<notin> set imagePath \<longrightarrow>
      ((\<forall>j n. \<not> srcAssignmentAt (fullMatch t) j n) \<longrightarrow>
         replacementOf t (Saved imagePath) = fullMatch t) \<and>
      (\<forall>j n. srcAssignmentAt (fullMatch t) j n \<longrightarrow>
             (\<forall>j' n'. j' < j \<longrightarrow> \<not> srcAssignmentAt (fullMatch t) j' n') \<longrightarrow>
         replacementOf t (Saved imagePath) =
           take j (fullMatch t) @ (asc ''src=\"'' @ imagePath @ [dquote]) @ drop (j + n) (fullMatch t))) \<and>
   (isNewFormat t \<longrightarrow>
      ((\<forall>j n. \<not> srcAssignmentAt (fullMatch t) j n) \<longrightarrow>
         replacementOf t (Failed msg) = fullMatch t) \<and>
      (\<forall>j n. srcAssignmentAt (fullMatch t) j n \<longrightarrow>
             (\<forall>j' n'. j' < j \<longrightarrow> \<not> srcAssignmentAt (fullMatch t) j' n') \<longrightarrow>
         replacementOf t (Failed msg) =
           take j (fullMatch t) @ (asc ''src=\"'' @ ERROR_IMAGE_PATH @ [dquote]) @
           drop (j + n) (fullMatch t))) \<and>
   (\<not> isNewFormat t \<longrightarrow>
      replacementOf t (Saved imagePath) = asc ''[IMG:'' @ [checkMark] @ [58] @ imagePath @ [rbracket] \<and>
      replacementOf t (Failed msg) = asc ''[IMG:ERROR:'' @ substring msg 0 50 @ [rbracket])"
proof (intro conjI allI impI)
  assume "indexOf text (fullMatch t) 0 = None"
  then show "patchMessage text t out = text"
    by (simp add: patchMessage_def replaceFirst_absent)
next
  fix k assume k: "indexOf text (fullMatch t) 0 = Some k"
  from indexOf_first [OF k]
  show "text = take k text @ fullMatch t @ drop (k + length (fullMatch t)) text"
    and "\<And>i. i < k \<Longrightarrow> \<not> prefix (fullMatch t) (drop i text)" by simp_all
  from replaceFirst_present [OF k]
  show "\<exists>r. patchMessage text t out = take k text @ r @ drop (k + length (fullMatch t)) text"
    by (auto simp: patchMessage_def)
  assume "dollar \<notin> set (replacementOf t out)"
  with replaceFirst_present [OF k]
  show "patchMessage text t out = take k text @ replacementOf t out @ drop (k + length (fullMatch t)) text"
    by (simp add: patchMessage_def expandRepl_plain)
next
  assume "isNewFormat t" "dollar \<notin> set imagePath" "\<forall>j n. \<not> srcAssignmentAt (fullMatch t) j n"
  then show "replacementOf t (Saved imagePath) = fullMatch t"
    by (simp add: replaceSrc_none)
next
  fix j n
  assume "isNewFormat t" "dollar \<notin> set imagePath" "srcAssignmentAt (fullMatch t) j n"
    "\<forall>j' n'. j' < j \<longrightarrow> \<not> srcAssignmentAt (fullMatch t) j' n'"
  moreover from \<open>dollar \<notin> set imagePath\<close> have "dollar \<notin> set (asc ''src=\"'' @ imagePath @ [dquote])"
    by (simp add: asc_def)
  ultimately show "replacementOf t (Saved imagePath) =
           take j (fullMatch t) @ (asc ''src=\"'' @ imagePath @ [dquote]) @ drop (j + n) (fullMatch t)"
    using replaceSrc_first [of "fullMatch t" j n "asc ''src=\"'' @ imagePath @ [dquote]"] by simp
next
  assume "isNewFormat t" "\<forall>j n. \<not> srcAssignmentAt (fullMatch t) j n"
  then show "replacementOf t (Failed msg) = fullMatch t"
    by (simp add: replaceSrc_none)
next
  fix j n
  assume "isNewFormat t" "srcAssignmentAt (fullMatch t) j n"
    "\<forall>j' n'. j' < j \<longrightarrow> \<not> srcAssignmentAt (fullMatch t) j' n'"
  then show "replacementOf t (Failed msg) =
           take j (fullMatch t) @ (asc ''src=\"'' @ ERROR_IMAGE_PATH @ [dquote]) @
           drop (j + n) (fullMatch t)"
    using replaceSrc_first [of "fullMatch t" j n "asc ''src=\"'' @ ERROR_IMAGE_PATH @ [dquote]"]
      error_path_plain by simp
next
  assume "\<not> isNewFormat t"
  then show "replacementOf t (Saved imagePath) = asc ''[IMG:'' @ [checkMark] @ [58] @ imagePath @ [rbracket]"
    and "replacementOf t (Failed msg) = asc ''[IMG:ERROR:'' @ substring msg 0 50 @ [rbracket]"
    by simp_all
qed

lemma patch_first_occurrence_example:
  \<open>patchMessage
     (asc ''A <img data-iig-instruction='{"prompt":"x"}' src="[IMG:GEN]"> B'')
     (mkTag (JObj [(asc ''prompt'', JStr (asc ''x''))])
        (asc ''<img data-iig-instruction='{"prompt":"x"}' src="[IMG:GEN]">'') 2 True None)
     (Saved (asc ''/user/images/a.png'')) =
   asc ''A <img data-iig-instruction='{"prompt":"x"}' src="/user/images/a.png"> B'' \<and>
   indexOf (asc ''A <img data-iig-instruction='{"prompt":"x"}' src="[IMG:GEN]"> B'')
     (asc ''<img data-iig-instruction='{"prompt":"x"}' src="[IMG:GEN]">'') 0 = Some 2 \<and>
   srcAssignmentAt (asc ''<img data-iig-instruction='{"prompt":"x"}' src="[IMG:GEN]">'') 43 15\<close>
proof -
  let ?T = \<open>asc ''A <img data-iig-instruction='{"prompt":"x"}' src="[IMG:GEN]"> B''\<close>
  let ?fm = \<open>asc ''<img data-iig-instruction='{"prompt":"x"}' src="[IMG:GEN]">''\<close>
  let ?t = \<open>mkTag (JObj [(asc ''prompt'', JStr (asc ''x''))]) ?fm 2 True None\<close>
  let ?P = "asc ''/user/images/a.png''"
  have f1: "fullMatch ?t = ?fm" by (simp add: mkTag_def)
  have f2: "isNewFormat ?t" by (simp add: mkTag_def)
  have f3: "indexOf ?T ?fm 0 = Some 2" by code_simp
  have f4: "findQuotedSrc ?fm 0 = Some (43, 15, dquote)"
    by (simp add: asc_def ciEq_def isReSpace_def isQuote_def)
  have f5: "dollar \<notin> set ?P" by (simp add: asc_def)
  have first: "srcAssignmentAt (fullMatch ?t) 43 15 \<and>
               (\<forall>j' n'. j' < 43 \<longrightarrow> \<not> srcAssignmentAt (fullMatch ?t) j' n')"
    unfolding f1 by (rule findQuotedSrc_first [OF f4])
  have f3': "indexOf ?T (fullMatch ?t) 0 = Some 2" unfolding f1 by (rule f3)
  note c2 = patch_first_occurrence [of ?T ?t "Saved ?P" ?P "[]", THEN conjunct2, THEN conjunct1]
  note c3 = patch_first_occurrence [of ?T ?t "Saved ?P" ?P "[]", THEN conjunct2, THEN conjunct2,
      THEN conjunct1]
  have r0: "replacementOf ?t (Saved ?P) =
            take 43 (fullMatch ?t) @ (asc ''src=\"'' @ ?P @ [dquote]) @ drop (43 + 15) (fullMatch ?t)"
    using c3 f2 f5 first by blast
  have r: "replacementOf ?t (Saved ?P) =
           take 43 ?fm @ (asc ''src=\"'' @ ?P @ [dquote]) @ drop (43 + 15) ?fm"
    using r0 unfolding f1 .
  have f6: "dollar \<notin> set (take 43 ?fm @ (asc ''src=\"'' @ ?P @ [dquote]) @ drop (43 + 15) ?fm)"
    by (simp add: asc_def)
  have f6': "dollar \<notin> set (replacementOf ?t (Saved ?P))" unfolding r by (rule f6)
  have p0: "patchMessage ?T ?t (Saved ?P) =
            take 2 ?T @ replacementOf ?t (Saved ?P) @ drop (2 + length (fullMatch ?t)) ?T"
    using c2 f3' f6' by blast
  have e: "take 2 ?T @ (take 43 ?fm @ (asc ''src=\"'' @ ?P @ [dquote]) @ drop (43 + 15) ?fm) @
             drop (2 + length ?fm) ?T =
           asc ''A <img data-iig-instruction='{\"prompt\":\"x\"}' src=\"/user/images/a.png\"> B''"
    by (simp add: asc_def)
  have p: "patchMessage ?T ?t (Saved ?P) =
           asc ''A <img data-iig-instruction='{\"prompt\":\"x\"}' src=\"/user/images/a.png\"> B''"
    using p0 unfolding f1 r e .
  have a: "srcAssignmentAt ?fm 43 15" using findQuotedSrc_first [OF f4] by blast
  from p f3 a show ?thesis by blast
qed

text \<open>
  C6. The patch looks for the first text of the shape \<open>src = 'value'\<close> anywhere in
  \<open>fullMatch\<close>, not for the \<open>src\<close> attribute. In the message below the scan finds one
  directive of the image-element format, whose instruction holds the prompt \<open>src=''\<close>
  in front of the \<open>src\<close> attribute. The patch for the stored path \<open>/p\<close> turns the text
  inside the instruction into \<open>src="/p"\<close> and leaves the \<open>src\<close> attribute at
  \<open>[IMG:GEN]\<close>: the instruction is not preserved and the value of the \<open>src\<close> attribute
  is not replaced.
\<close>

theorem patch_rewrites_instruction:
  \<open>taggedStep hostAllFiles processOptions
     (asc ''<img data-iig-instruction='{"prompt":"src='' @ [squote, squote] @ asc ''"}' src="[IMG:GEN]">'') 0 =
     Continue 64
       [mkTag (JObj [(asc ''prompt'', JStr (asc ''src='' @ [squote, squote]))])
          (asc ''<img data-iig-instruction='{"prompt":"src='' @ [squote, squote] @ asc ''"}' src="[IMG:GEN]">'')
          0 True None]
       [(INFO, asc ''Found NEW format tag: src='' @ [squote, squote])] \<and>
   patchMessage
     (asc ''<img data-iig-instruction='{"prompt":"src='' @ [squote, squote] @ asc ''"}' src="[IMG:GEN]">'')
     (mkTag (JObj [(asc ''prompt'', JStr (asc ''src='' @ [squote, squote]))])
        (asc ''<img data-iig-instruction='{"prompt":"src='' @ [squote, squote] @ asc ''"}' src="[IMG:GEN]">'')
        0 True None)
     (Saved (asc ''/p'')) =
   asc ''<img data-iig-instruction='{"prompt":"src="/p""}' src="[IMG:GEN]">''\<close>
proof -
  let ?M = \<open>asc ''<img data-iig-instruction='{"prompt":"src='' @ [squote, squote] @ asc ''"}' src="[IMG:GEN]">''\<close>
  let ?t = \<open>mkTag (JObj [(asc ''prompt'', JStr (asc ''src='' @ [squote, squote]))]) ?M 0 True None\<close>
  have e1: "indexOf ?M imgTagMarker 0 = Some 5" by code_simp
  have e2: "lastIndexOf ?M (asc ''<img'') 5 = Some 0" by code_simp
  have e3: "(5::nat) - 0 \<le> 500" by simp
  have e4: "indexOf ?M [lbrace] (5 + length imgTagMarker) = Some 27" by code_simp
  have e5: "27 \<le> 5 + length imgTagMarker + 10" by simp
  have e6: "findJsonEnd ?M 27 = Some 46" by code_simp
  have e7: "indexOf ?M [62] 46 = Some 63" by code_simp
  have e8: "substring ?M 0 (63 + 1) = ?M" by code_simp
  have e9: "srcValueOf ?M = asc ''[IMG:GEN]''"
    by (simp add: srcValueOf_def asc_def ciEq_def isReSpace_def srcStop_def)
  have e10: "decide hostAllFiles processOptions (asc ''[IMG:GEN]'') = Generate []" by code_simp
  have e11: "hasPathOf (asc ''[IMG:GEN]'') = False" by code_simp
  have e12: \<open>tryPush (JSON_parse (normalizeInstruction (substring ?M 27 46)))
              (\<lambda>data. mkTag data ?M 0 True None)
              (asc ''Found NEW format tag: '')
              (asc ''Failed to parse instruction JSON: '' @ substring (substring ?M 27 46) 0 100) =
            ([?t], [(INFO, asc ''Found NEW format tag: src='' @ [squote, squote])])\<close> by code_simp
  have A: "taggedStep hostAllFiles processOptions ?M 0 =
           Continue 64 [?t] [(INFO, asc ''Found NEW format tag: src='' @ [squote, squote])]"
    using taggedStep_found [OF e1 e2 e3 e4 e5, of hostAllFiles processOptions] e6 e7 e8 e9 e10 e11 e12
    by simp
  have f1: "fullMatch ?t = ?M" by (simp add: mkTag_def)
  have f2: "isNewFormat ?t" by (simp add: mkTag_def)
  have f3: "replaceSrc ?M (asc ''src=\"'' @ asc ''/p'' @ [dquote]) =
            asc ''<img data-iig-instruction='{\"prompt\":\"src=\"/p\"\"}' src=\"[IMG:GEN]\">''"
    by (simp add: replaceSrc_def asc_def ciEq_def isReSpace_def isQuote_def)
  have f4: "indexOf ?M ?M 0 = Some 0" by (simp add: indexOf_def asc_def)
  have f5: "dollar \<notin> set (asc ''<img data-iig-instruction='{\"prompt\":\"src=\"/p\"\"}' src=\"[IMG:GEN]\">'')"
    by (simp add: asc_def)
  have B: "patchMessage ?M ?t (Saved (asc ''/p'')) =
           asc ''<img data-iig-instruction='{\"prompt\":\"src=\"/p\"\"}' src=\"[IMG:GEN]\">''"
    using f1 f2 f3 f5 replaceFirst_present [OF f4]
    by (simp add: patchMessage_def expandRepl_plain)
  from A B show ?thesis by blast
qed

section \<open>The scenario with the generic backend\<close>

lemma scenario_tags: "fst (parseImageTags fe scenarioText opts) = [scenarioTag]"
proof -
  have a: "indexOf scenarioText imgTagMarker 0 = None" by code_simp
  have b: "fst (legacyLoop scenarioText 0) = [scenarioTag]" by code_simp
  show ?thesis
    using taggedLoop_Stop [OF a, of fe opts] b
    by (simp add: parseImageTags_def split: prod.splits)
qed

lemma scenarioTag_fields:
  "prompt scenarioTag = JStr (asc ''a cat'')"
  "style scenarioTag = JStr (asc ''anime'')"
  "aspectRatio scenarioTag = JNull" "imageSize scenarioTag = JNull"
  "quality scenarioTag = JNull" "preset scenarioTag = JNull"
  "isNewFormat scenarioTag = False"
  \<open>fullMatch scenarioTag = asc ''[IMG:GEN:{"prompt":"a cat","style":"anime"}]''\<close>
  by code_simp+

lemma scenario_prompt:
  "fullPromptOf e (JStr (asc ''a cat'')) (JStr (asc ''anime'')) = Some (JStr (asc ''[Style: anime] a cat''))"
  by (simp add: fullPromptOf_def asc_def)

lemma scenario_request:
  assumes "apiType st \<noteq> asc ''naistera''" "apiType st \<noteq> asc ''gemini''" "\<not> isGeminiModel e (model st)"
  shows "buildRequest e st (prompt scenarioTag) (style scenarioTag) ri rd (tagOptions 0 scenarioTag) =
         Inr (OpenAIRequest (stripSlash (endpoint st) @ asc ''/v1/images/generations'') (apiKey st) (model st)
                (JStr (asc ''[Style: anime] a cat'')) (set_size st) (JStr (set_quality st))
                (case ri of [] \<Rightarrow> None | r # _ \<Rightarrow> Some (asc ''data:image/png;base64,'' @ r)))"
  using assms
  by (simp add: buildRequest_def generateImageOpenAI_def scenario_prompt scenarioTag_fields
     tagOptions_def openAISize_def)


lemma collect_string_prompt:
  "\<exists>refs. collectReferenceImages e st chat (JStr p) cur = Inr refs"
  by (auto simp: collectReferenceImages_def Let_def split: option.splits)

lemma retryLoop_first_success:
  "0 \<le> maxR \<Longrightarrow> call 0 = Inr dataUrl \<Longrightarrow>
   retryLoop tem call maxR baseD lastError 0 = ([Status (Generating 0 maxR), BackendCall 0], Inr dataUrl)"
  by (simp add: retryLoop.simps [of tem call maxR baseD lastError 0])

lemma scenario_generation:
  assumes "validateSettings st = []"
    and "apiType st \<noteq> asc ''naistera''" "apiType st \<noteq> asc ''gemini''" "\<not> isGeminiModel e (model st)"
    and "0 \<le> maxRetries st"
    and "respond e 0 (OpenAIRequest (stripSlash (endpoint st) @ asc ''/v1/images/generations'') (apiKey st)
                        (model st) (JStr (asc ''[Style: anime] a cat'')) (set_size st)
                        (JStr (set_quality st)) None) = Inr dataUrl"
  shows "generateImageWithRetry e st chat (prompt scenarioTag) (style scenarioTag) (tagOptions 0 scenarioTag) =
         ([Status CollectingReferences, Status (Generating 0 (maxRetries st)), BackendCall 0], Inr (Inr dataUrl))"
proof -
  obtain refs where refs: "collectReferenceImages e st chat (JStr (asc ''a cat'')) 0 = Inr refs"
    using collect_string_prompt by blast
  have g: "geminiReferences e st refs = []"
    using assms(3,4) by (simp add: geminiReferences_def)
  have c: "callBackend e st (prompt scenarioTag) (style scenarioTag) [] (naisteraReferences e st refs)
             (tagOptions 0 scenarioTag) 0 = Inr dataUrl"
    using scenario_request [OF assms(2,3,4), of "[]" "naisteraReferences e st refs"] assms(6)
    by (simp add: callBackend_def)
  show ?thesis
    using assms(1) refs g
      retryLoop_first_success [of "maxRetries st"
        "callBackend e st (prompt scenarioTag) (style scenarioTag) [] (naisteraReferences e st refs)
           (tagOptions 0 scenarioTag)" dataUrl "typeErrorMessage e" "retryDelay st" ThrownUndefined,
        OF assms(5) c]
    by (simp add: generateImageWithRetry_def scenarioTag_fields(1) tagOptions_def)
qed

lemma scenario_processTag:
  assumes "validateSettings st = []"
    and "apiType st \<noteq> asc ''naistera''" "apiType st \<noteq> asc ''gemini''" "\<not> isGeminiModel e (model st)"
    and "0 \<le> maxRetries st"
    and "respond e 0 (OpenAIRequest (stripSlash (endpoint st) @ asc ''/v1/images/generations'') (apiKey st)
                        (model st) (JStr (asc ''[Style: anime] a cat'')) (set_size st)
                        (JStr (set_quality st)) None) = Inr dataUrl"
    and "saveImageToFile e dataUrl = Inr imagePath"
  shows "processTag e st chat 0 scenarioTag =
         (Some [Status CollectingReferences, Status (Generating 0 (maxRetries st)), BackendCall 0],
          Patch (Saved imagePath))"
  using scenario_generation [OF assms(1-6), of chat] assms(7)
  by (simp add: processTag_def afterGeneration_def scenarioTag_fields)

lemma scenario_occurrence:
  "indexOf scenarioText (fullMatch scenarioTag) 0 = Some 10"
  "take 10 scenarioText = asc ''The image ''"
  "drop (10 + length (fullMatch scenarioTag)) scenarioText = asc '' appears.''"
  by code_simp+

lemma scenario_patch:
  "patchMessage scenarioText scenarioTag (Saved imagePath) =
   asc ''The image '' @
   expandRepl (asc ''[IMG:'' @ [checkMark] @ [58] @ imagePath @ [rbracket]) (fullMatch scenarioTag)
     (asc ''The image '') (asc '' appears.'') [] @
   asc '' appears.''"
  using replaceFirst_present [OF scenario_occurrence(1)]
  by (simp add: patchMessage_def scenario_occurrence(2,3) scenarioTag_fields(7))

lemma scenario_run:
  assumes "enabled st" "domReady e 0"
    and "processTag e st [\<lparr>is_user = False, mes = scenarioText\<rparr>] 0 scenarioTag = (Some evs, Patch (Saved imagePath))"
  shows "messages (runSchedule e st [Trigger 0, Resume 0, Resume 0, Resume 0]
                     (idle [\<lparr>is_user = False, mes = scenarioText\<rparr>])) =
         [\<lparr>is_user = False, mes = patchMessage scenarioText scenarioTag (Saved imagePath)\<rparr>]"
  using assms
  by (simp add: runSchedule_def idle_def processMessageTags_start_def scenario_tags indexed_def
      emit_def setMes_def Let_def)


lemma scenario_trace:
  assumes "enabled st" "domReady e 0"
    and "processTag e st [\<lparr>is_user = False, mes = scenarioText\<rparr>] 0 scenarioTag = (Some evs, Patch (Saved imagePath))"
  shows "trace (runSchedule e st [Trigger 0, Resume 0, Resume 0, Resume 0]
                     (idle [\<lparr>is_user = False, mes = scenarioText\<rparr>])) =
         [MarkerAdded 0, GenerationRun 0 0 evs,
          TextPatched 0 0 (patchMessage scenarioText scenarioTag (Saved imagePath)),
          SaveChatCalled [patchMessage scenarioText scenarioTag (Saved imagePath)],
          SaveChatDone, MarkerDeleted 0]"
  using assms
  by (simp add: runSchedule_def idle_def processMessageTags_start_def scenario_tags indexed_def
      emit_def setMes_def Let_def)

text \<open>
  C7. Take the message \<open>The image [IMG:GEN:{"prompt":"a cat","style":"anime"}] appears.\<close>
  as message 0 of the chat, valid settings of the generic backend (neither Naistera nor
  Gemini), a retry budget that is not negative, and a host that shows the message, whose
  backend answers the first request with an image and which stores that image under
  \<open>imagePath\<close>. The scan finds the one legacy directive; the request of the generic
  adapter carries the prompt \<open>[Style: anime] a cat\<close>; the run makes one backend call, one
  patch and one call of \<open>saveChat\<close>; and the text of the message afterwards is
  \<open>The image \<close>, the completion marker read as a replacement template, \<open> appears.\<close>.
  For a path without a dollar sign that is \<open>The image [IMG:\<close>, the check mark, \<open>:\<close>, the
  path, \<open>] appears.\<close>. A path with a dollar pattern is not inserted as it is: the folder
  \<open>Ca$$h\<close> arrives as \<open>Ca$h\<close>.
\<close>

theorem scenario_generic_backend:
  assumes "enabled st" and "validateSettings st = []"
    and "apiType st \<noteq> asc ''naistera''" and "apiType st \<noteq> asc ''gemini''"
    and "\<not> isGeminiModel e (model st)"
    and "0 \<le> maxRetries st" and "domReady e 0"
    and "respond e 0 (OpenAIRequest (stripSlash (endpoint st) @ asc ''/v1/images/generations'') (apiKey st)
                        (model st) (JStr (asc ''[Style: anime] a cat'')) (set_size st)
                        (JStr (set_quality st)) None) = Inr dataUrl"
    and "saveImageToFile e dataUrl = Inr imagePath"
  shows "fst (parseImageTags (fileExists e) scenarioText \<lparr>checkExistence = True, forceAll = False\<rparr>) =
           [scenarioTag] \<and>
         buildRequest e st (prompt scenarioTag) (style scenarioTag) [] rd (tagOptions 0 scenarioTag) =
           Inr (OpenAIRequest (stripSlash (endpoint st) @ asc ''/v1/images/generations'') (apiKey st)
                  (model st) (JStr (asc ''[Style: anime] a cat'')) (set_size st)
                  (JStr (set_quality st)) None) \<and>
         filter isSideEffect
           (trace (runSchedule e st [Trigger 0, Resume 0, Resume 0, Resume 0]
                     (idle [\<lparr>is_user = False, mes = scenarioText\<rparr>]))) =
           [GenerationRun 0 0 [Status CollectingReferences, Status (Generating 0 (maxRetries st)), BackendCall 0],
            TextPatched 0 0 (patchMessage scenarioText scenarioTag (Saved imagePath)),
            SaveChatCalled [patchMessage scenarioText scenarioTag (Saved imagePath)]] \<and>
         messages (runSchedule e st [Trigger 0, Resume 0, Resume 0, Resume 0]
                     (idle [\<lparr>is_user = False, mes = scenarioText\<rparr>])) =
           [\<lparr>is_user = False, mes = patchMessage scenarioText scenarioTag (Saved imagePath)\<rparr>] \<and>
         patchMessage scenarioText scenarioTag (Saved imagePath) =
           asc ''The image '' @
           expandRepl (asc ''[IMG:'' @ [checkMark] @ [58] @ imagePath @ [rbracket])
             (asc ''[IMG:GEN:{\"prompt\":\"a cat\",\"style\":\"anime\"}]'') (asc ''The image '') (asc '' appears.'') [] @
           asc '' appears.'' \<and>
         (dollar \<notin> set imagePath \<longrightarrow>
            patchMessage scenarioText scenarioTag (Saved imagePath) =
              asc ''The image [IMG:'' @ [checkMark] @ [58] @ imagePath @ asc ''] appears.'')"
proof -
  note pt = scenario_processTag [OF assms(2-6) assms(8,9), of "[\<lparr>is_user = False, mes = scenarioText\<rparr>]"]
  have 1: "fst (parseImageTags (fileExists e) scenarioText \<lparr>checkExistence = True, forceAll = False\<rparr>) =
           [scenarioTag]" by (rule scenario_tags)
  have 2: "buildRequest e st (prompt scenarioTag) (style scenarioTag) [] rd (tagOptions 0 scenarioTag) =
           Inr (OpenAIRequest (stripSlash (endpoint st) @ asc ''/v1/images/generations'') (apiKey st)
                  (model st) (JStr (asc ''[Style: anime] a cat'')) (set_size st)
                  (JStr (set_quality st)) None)"
    using scenario_request [OF assms(3-5), of "[]" rd] by simp
  have 3: "filter isSideEffect
           (trace (runSchedule e st [Trigger 0, Resume 0, Resume 0, Resume 0]
                     (idle [\<lparr>is_user = False, mes = scenarioText\<rparr>]))) =
           [GenerationRun 0 0 [Status CollectingReferences, Status (Generating 0 (maxRetries st)), BackendCall 0],
            TextPatched 0 0 (patchMessage scenarioText scenarioTag (Saved imagePath)),
            SaveChatCalled [patchMessage scenarioText scenarioTag (Saved imagePath)]]"
    by (simp add: scenario_trace [OF assms(1,7) pt])
  have 4: "messages (runSchedule e st [Trigger 0, Resume 0, Resume 0, Resume 0]
                     (idle [\<lparr>is_user = False, mes = scenarioText\<rparr>])) =
           [\<lparr>is_user = False, mes = patchMessage scenarioText scenarioTag (Saved imagePath)\<rparr>]"
    by (rule scenario_run [OF assms(1,7) pt])
  have 5: "patchMessage scenarioText scenarioTag (Saved imagePath) =
           asc ''The image '' @
           expandRepl (asc ''[IMG:'' @ [checkMark] @ [58] @ imagePath @ [rbracket])
             (asc ''[IMG:GEN:{\"prompt\":\"a cat\",\"style\":\"anime\"}]'') (asc ''The image '') (asc '' appears.'') [] @
           asc '' appears.''"
    using scenario_patch [of imagePath] by (simp only: scenarioTag_fields(8))
  have 6: "dollar \<notin> set imagePath \<longrightarrow>
            patchMessage scenarioText scenarioTag (Saved imagePath) =
              asc ''The image [IMG:'' @ [checkMark] @ [58] @ imagePath @ asc ''] appears.''"
  proof
    assume "dollar \<notin> set imagePath"
    then have "dollar \<notin> set (asc ''[IMG:'' @ [checkMark] @ [58] @ imagePath @ [rbracket])"
      by (simp add: asc_def)
    then show "patchMessage scenarioText scenarioTag (Saved imagePath) =
              asc ''The image [IMG:'' @ [checkMark] @ [58] @ imagePath @ asc ''] appears.''"
      unfolding 5 by (simp add: expandRepl_plain asc_def)
  qed
  from 1 2 3 4 5 6 show ?thesis by blast
qed

theorem scenario_generic_backend_witness:
  "messages (runSchedule cashHost exampleSettings [Trigger 0, Resume 0, Resume 0, Resume 0]
               (idle [\<lparr>is_user = False, mes = scenarioText\<rparr>])) =
   [\<lparr>is_user = False,
     mes = asc ''The image [IMG:'' @ [checkMark, 58] @ asc ''/user/images/Ca$h/iig_1.png] appears.''\<rparr>] \<and>
   saveImageToFile cashHost (asc ''data:image/png;base64,AAAA'') = Inr (asc ''/user/images/Ca$$h/iig_1.png'')"
proof -
  have h1: "enabled exampleSettings" by (simp add: exampleSettings_def)
  have h2: "validateSettings exampleSettings = []" by code_simp
  have h3: "apiType exampleSettings \<noteq> asc ''naistera''" by code_simp
  have h4: "apiType exampleSettings \<noteq> asc ''gemini''" by code_simp
  have h5: "\<not> isGeminiModel cashHost (model exampleSettings)" by code_simp
  have h6: "0 \<le> maxRetries exampleSettings" by (simp add: exampleSettings_def)
  have h7: "domReady cashHost 0" by (simp add: cashHost_def exampleHost_def)
  have h8: "respond cashHost 0
              (OpenAIRequest (stripSlash (endpoint exampleSettings) @ asc ''/v1/images/generations'')
                 (apiKey exampleSettings) (model exampleSettings) (JStr (asc ''[Style: anime] a cat''))
                 (set_size exampleSettings) (JStr (set_quality exampleSettings)) None) =
            Inr (asc ''data:image/png;base64,AAAA'')"
    by (simp add: cashHost_def exampleHost_def)
  have h9: "saveImageToFile cashHost (asc ''data:image/png;base64,AAAA'') = Inr (asc ''/user/images/Ca$$h/iig_1.png'')"
    by (simp add: cashHost_def exampleHost_def)
  note T = scenario_generic_backend [OF h1 h2 h3 h4 h5 h6 h7 h8 h9]
  have x: "asc ''The image '' @
           expandRepl (asc ''[IMG:'' @ [checkMark] @ [58] @ asc ''/user/images/Ca$$h/iig_1.png'' @ [rbracket])
             (asc ''[IMG:GEN:{\"prompt\":\"a cat\",\"style\":\"anime\"}]'') (asc ''The image '') (asc '' appears.'') [] @
           asc '' appears.'' =
           asc ''The image [IMG:'' @ [checkMark, 58] @ asc ''/user/images/Ca$h/iig_1.png] appears.''"
    by code_simp
  have m: "messages (runSchedule cashHost exampleSettings [Trigger 0, Resume 0, Resume 0, Resume 0]
               (idle [\<lparr>is_user = False, mes = scenarioText\<rparr>])) =
           [\<lparr>is_user = False, mes = patchMessage scenarioText scenarioTag (Saved (asc ''/user/images/Ca$$h/iig_1.png''))\<rparr>]"
    using T by blast
  have q: "patchMessage scenarioText scenarioTag (Saved (asc ''/user/images/Ca$$h/iig_1.png'')) =
           asc ''The image [IMG:'' @ [checkMark, 58] @ asc ''/user/images/Ca$h/iig_1.png] appears.''"
    using T [THEN conjunct2, THEN conjunct2, THEN conjunct2, THEN conjunct2, THEN conjunct1] unfolding x .
  show ?thesis unfolding m q using h9 by blast
qed

section \<open>Two triggers for one message\<close>

text \<open>Once the marker of a message is set, a new call for it does nothing but log.\<close>

lemma trigger_while_marked:
  assumes "m \<in> processingMessages s"
  shows "perform e st s (Trigger m) =
         (if enabled st then emit [AlreadyProcessing m] s else s)\<lparr>tasks := tasks s @ [Finished]\<rparr>"
  using assms by (simp add: processMessageTags_start_def emit_def)

text \<open>A call that has reached \<open>saveChat\<close> deletes the marker after \<open>saveChat\<close> is done.\<close>

lemma marker_deleted_after_save:
  "processMessageTags_resume e st (AwaitSave m) s = (s', p) \<Longrightarrow>
   trace s' = trace s @ [SaveChatDone, MarkerDeleted m] \<and> m \<notin> processingMessages s' \<and> p = Finished"
  by (auto simp: emit_def)

text \<open>
  C1. Take a message \<open>m\<close> of the chat that is not the user's, in which the scan finds
  directives, on a host that shows it, with the extension enabled. The marker is set at
  line 1036, after the \<open>await\<close> of line 1029, and tested at line 1021, before it. So:
  \<^item> after two triggers for \<open>m\<close> in a row both calls are suspended on their scan and the
    marker is not set;
  \<^item> when both resume, both set the marker and both hold a batch of \<open>processTag\<close> calls;
  \<^item> a trigger that arrives after the first call has resumed is dropped;
  \<^item> with one directive whose \<open>processTag\<close> ends with a patch, the two calls run to
    their ends with two generations, two patches and two calls of \<open>saveChat\<close>, and
    the first call deletes the marker while \<open>saveChat\<close> of the second is not done.
\<close>

theorem double_trigger_two_batches:
  assumes "enabled st" and "m < length chat" and "\<not> is_user (chat ! m)" and "domReady e m"
    and "fst (parseImageTags (fileExists e) (mes (chat ! m)) \<lparr>checkExistence = True, forceAll = False\<rparr>) = tags"
    and "tags \<noteq> []"
  shows "runSchedule e st [Trigger m, Trigger m] (idle chat) =
           \<lparr>processingMessages = {}, messages = chat, trace = [],
            tasks = [AwaitParse m tags, AwaitParse m tags]\<rparr> \<and>
         runSchedule e st [Trigger m, Trigger m, Resume 0, Resume 1] (idle chat) =
           \<lparr>processingMessages = {m}, messages = chat, trace = [MarkerAdded m, MarkerAdded m],
            tasks = [AwaitBatch m (map (\<lambda>(i, t). (i, t, processTag e st chat m t)) (indexed tags)) True,
                     AwaitBatch m (map (\<lambda>(i, t). (i, t, processTag e st chat m t)) (indexed tags)) True]\<rparr> \<and>
         runSchedule e st [Trigger m, Resume 0, Trigger m] (idle chat) =
           \<lparr>processingMessages = {m}, messages = chat, trace = [MarkerAdded m, AlreadyProcessing m],
            tasks = [AwaitBatch m (map (\<lambda>(i, t). (i, t, processTag e st chat m t)) (indexed tags)) True,
                     Finished]\<rparr> \<and>
         (\<forall>t evs out. tags = [t] \<longrightarrow> processTag e st chat m t = (Some evs, Patch out) \<longrightarrow>
            runSchedule e st [Trigger m, Trigger m, Resume 0, Resume 1, Resume 0, Resume 1, Resume 0, Resume 1]
              (idle chat) =
            (let txt1 = patchMessage (mes (chat ! m)) t out;
                 chat1 = chat[m := (chat ! m)\<lparr>mes := txt1\<rparr>];
                 txt2 = patchMessage txt1 t out;
                 chat2 = chat[m := (chat ! m)\<lparr>mes := txt2\<rparr>]
             in \<lparr>processingMessages = {}, messages = chat2,
                 trace = [MarkerAdded m, MarkerAdded m,
                          GenerationRun m 0 evs, TextPatched m 0 txt1, SaveChatCalled (map mes chat1),
                          GenerationRun m 0 evs, TextPatched m 0 txt2, SaveChatCalled (map mes chat2),
                          SaveChatDone, MarkerDeleted m, SaveChatDone, MarkerDeleted m],
                 tasks = [Finished, Finished]\<rparr>))"
  using assms
  by (simp add: runSchedule_def idle_def processMessageTags_start_def emit_def setMes_def indexed_def Let_def)

theorem double_trigger_two_batches_witness:
  \<open>runSchedule twiceHost exampleSettings
     [Trigger 0, Trigger 0, Resume 0, Resume 1, Resume 0, Resume 1, Resume 0, Resume 1]
     (idle [\<lparr>is_user = False, mes = twiceText\<rparr>]) =
   \<lparr>processingMessages = {},
    messages = [\<lparr>is_user = False,
                 mes = asc ''<img data-iig-instruction='{"prompt":"a"}' src="/user/images/iig_1.png">''\<rparr>],
    trace = [MarkerAdded 0, MarkerAdded 0,
             GenerationRun 0 0 [Status CollectingReferences, Status (Generating 0 2), BackendCall 0],
             TextPatched 0 0 (asc ''<img data-iig-instruction='{"prompt":"a"}' src="/user/images/iig_1.png">''),
             SaveChatCalled [asc ''<img data-iig-instruction='{"prompt":"a"}' src="/user/images/iig_1.png">''],
             GenerationRun 0 0 [Status CollectingReferences, Status (Generating 0 2), BackendCall 0],
             TextPatched 0 0 (asc ''<img data-iig-instruction='{"prompt":"a"}' src="/user/images/iig_1.png">''),
             SaveChatCalled [asc ''<img data-iig-instruction='{"prompt":"a"}' src="/user/images/iig_1.png">''],
             SaveChatDone, MarkerDeleted 0, SaveChatDone, MarkerDeleted 0],
    tasks = [Finished, Finished]\<rparr>\<close>
proof -
  let ?chat = "[\<lparr>is_user = False, mes = twiceText\<rparr>]"
  let ?out = "Saved (asc ''/user/images/iig_1.png'')"
  let ?evs = "[Status CollectingReferences, Status (Generating 0 2), BackendCall 0]"
  let ?done = \<open>asc ''<img data-iig-instruction='{"prompt":"a"}' src="/user/images/iig_1.png">''\<close>
  let ?fe = "\<lambda>p::jsstring. False"
  let ?po = "\<lparr>checkExistence = True, forceAll = False\<rparr>"
  have h1: "enabled exampleSettings" by (simp add: exampleSettings_def)
  have h2: "0 < length ?chat" by simp
  have h3: "\<not> is_user (?chat ! 0)" by simp
  have h4: "domReady twiceHost 0" by (simp add: twiceHost_def exampleHost_def)
  have fe: "fileExists twiceHost = ?fe" by (simp add: twiceHost_def)
  have e1: "indexOf twiceText imgTagMarker 0 = Some 5" by code_simp
  have e2: "lastIndexOf twiceText (asc ''<img'') 5 = Some 0" by code_simp
  have e3: "(5::nat) - 0 \<le> 500" by simp
  have e4: "indexOf twiceText [lbrace] (5 + length imgTagMarker) = Some 27" by code_simp
  have e5: "27 \<le> 5 + length imgTagMarker + 10" by simp
  have e6: "findJsonEnd twiceText 27 = Some 41" by code_simp
  have e7: "indexOf twiceText [62] 41 = Some 67" by code_simp
  have e8: "substring twiceText 0 (67 + 1) = twiceText" by code_simp
  have e9: "srcValueOf twiceText = asc ''/user/images/x.png''"
    by (simp add: twiceText_def srcValueOf_def asc_def ciEq_def isReSpace_def srcStop_def)
  have e10: "decide ?fe ?po (asc ''/user/images/x.png'') =
             Generate [(WARN, asc ''File does not exist (LLM hallucination?): /user/images/x.png'')]"
    by code_simp
  have e11: "hasPathOf (asc ''/user/images/x.png'')" by code_simp
  have e12: "fst (tryPush (JSON_parse (normalizeInstruction (substring twiceText 27 41)))
                    (\<lambda>data. mkTag data twiceText 0 True (Some (asc ''/user/images/x.png'')))
                    (asc ''Found NEW format tag: '')
                    (asc ''Failed to parse instruction JSON: '' @ substring (substring twiceText 27 41) 0 100)) =
             [twiceTag]" by code_simp
  have e13: "indexOf twiceText imgTagMarker (67 + 1) = None" by code_simp
  have e14: "indexOf twiceText marker 0 = None" by code_simp
  have st: "stepTags (taggedStep ?fe ?po twiceText 0) = [twiceTag] \<and>
            (\<exists>ls. taggedStep ?fe ?po twiceText 0 = Continue (67 + 1) [twiceTag] ls)"
    using taggedStep_found [OF e1 e2 e3 e4 e5, of ?fe ?po] e6 e7 e8 e9 e10 e11 e12
    by (auto split: prod.splits)
  then obtain ls where st': "taggedStep ?fe ?po twiceText 0 = Continue (67 + 1) [twiceTag] ls" by blast
  have tl: "fst (taggedLoop ?fe ?po twiceText 0) = [twiceTag]"
    using taggedLoop_Continue [OF st'] taggedLoop_Stop [OF e13, of ?fe ?po] by simp
  have h5: "fst (parseImageTags (fileExists twiceHost) (mes (?chat ! 0)) ?po) = [twiceTag]"
    using tl legacyLoop_Stop [OF e14] by (simp add: parseImageTags_def fe split: prod.splits)
  have h6: "[twiceTag] \<noteq> []" by simp
  have g: "generateImageWithRetry twiceHost exampleSettings ?chat (prompt twiceTag) (style twiceTag)
             (tagOptions 0 twiceTag) = (?evs, Inr (Inr (asc ''data:image/png;base64,AAAA'')))"
    by code_simp
  have s: "afterGeneration twiceHost twiceTag (Inr (Inr (asc ''data:image/png;base64,AAAA''))) = Patch ?out"
    by code_simp
  have n: "isStr (prompt twiceTag)" by code_simp
  have p: "processTag twiceHost exampleSettings ?chat 0 twiceTag = (Some ?evs, Patch ?out)"
    using g s n by (simp add: processTag_def)
  define d where "d = ?done"
  have f1: "fullMatch twiceTag = twiceText" by (simp add: twiceTag_def twiceText_def mkTag_def)
  have f2: "isNewFormat twiceTag" by (simp add: twiceTag_def mkTag_def)
  have f3: "replaceSrc twiceText (asc ''src=\"'' @ asc ''/user/images/iig_1.png'' @ [dquote]) = d"
    unfolding d_def
    by (simp add: twiceText_def replaceSrc_def asc_def ciEq_def isReSpace_def isQuote_def)
  have f4: "indexOf twiceText twiceText 0 = Some 0" by (simp add: twiceText_def indexOf_def asc_def)
  have f5: "dollar \<notin> set d" unfolding d_def by (simp add: asc_def)
  have f6: "indexOf d twiceText 0 = None" unfolding d_def by code_simp
  have t1: "patchMessage twiceText twiceTag ?out = d"
    using f1 f2 f3 f5 replaceFirst_present [OF f4]
    by (simp add: patchMessage_def expandRepl_plain)
  have t2: "patchMessage d twiceTag ?out = d"
    using f1 replaceFirst_absent [OF f6] by (simp add: patchMessage_def)
  show ?thesis
    unfolding d_def [symmetric]
    using double_trigger_two_batches [OF h1 h2 h3 h4 h5 h6, THEN conjunct2, THEN conjunct2, THEN conjunct2,
        rule_format, OF refl p]
    by (simp add: t1 t2 Let_def)
qed

end
